theory Spec2Isabelle
  imports Complex_Main "HOL-Library.AList"
begin

section \<open>Errors\<close>

text \<open>
  Every \<^verbatim>\<open>throw\<close> that a tick of \<^verbatim>\<open>populateLeaderboard\<close> can reach is a value:
  the three \<^verbatim>\<open>new Error(...)\<close> of \<^verbatim>\<open>app.service.ts\<close>, the two errors of big.js
  (\<^verbatim>\<open>[big.js] Invalid number\<close>, \<^verbatim>\<open>[big.js] Division by zero\<close>) and the
  \<^verbatim>\<open>TypeError\<close> of a property read on \<^verbatim>\<open>null\<close>. The \<^verbatim>\<open>catch\<close> of the tick logs the
  error and swallows it; the model returns it beside the new state.
\<close>

datatype error =
    NoRoundsFound
  | RoundNotReady
  | NoRoundData
  | TypeError
  | InvalidNumber
  | DivisionByZero

section \<open>Decimal arithmetic: big.js\<close>

text \<open>
  A \<^verbatim>\<open>Big\<close> is an arbitrary-precision decimal, here a rational number. The library is
  not part of the repository; the operations follow its API: \<^verbatim>\<open>plus\<close>, \<^verbatim>\<open>minus\<close> and
  \<^verbatim>\<open>times\<close> are exact, \<^verbatim>\<open>div\<close> rounds the quotient to \<^verbatim>\<open>Big.DP = 20\<close> decimal places
  with \<^verbatim>\<open>Big.RM = 1\<close>, and \<^verbatim>\<open>round(dp, rm)\<close> rounds to \<^verbatim>\<open>dp\<close> decimal places with mode
  \<^verbatim>\<open>rm\<close>: 0 rounds towards zero (ROUND_DOWN), 1 to the nearest and away from zero on a tie
  (ROUND_HALF_UP), 2 to the nearest and to the even neighbour on a tie (ROUND_HALF_EVEN),
  3 away from zero (ROUND_UP).

  A value the service hands to \<^verbatim>\<open>new Big\<close> is a string of the subgraph's answer; it is
  modelled as \<open>Some x\<close> when it is the decimal numeral of \<open>x\<close> and \<open>None\<close> when big.js
  rejects it. \<^verbatim>\<open>toNumber()\<close> and the scores of the ranking store are IEEE doubles in the
  program and exact rationals here.
\<close>

definition Big_round :: "nat \<Rightarrow> nat \<Rightarrow> rat \<Rightarrow> rat" where
  "Big_round dp rm x =
     (let a = \<bar>x\<bar> * 10 ^ dp;
          q = \<lfloor>a\<rfloor>;
          r = a - of_int q;
          more = (if rm = 0 then False
                  else if rm = 1 then 1 / 2 \<le> r
                  else if rm = 2 then 1 / 2 < r \<or> (r = 1 / 2 \<and> odd q)
                  else 0 < r)
      in sgn x * of_int (if more then q + 1 else q) / 10 ^ dp)"

definition Big_new :: "rat option \<Rightarrow> error + rat" where
  "Big_new v = (case v of None \<Rightarrow> Inl InvalidNumber | Some x \<Rightarrow> Inr x)"

definition Big_div :: "rat \<Rightarrow> rat \<Rightarrow> error + rat" where
  "Big_div x y = (if y = 0 then Inl DivisionByZero else Inr (Big_round 20 1 (x / y)))"

text \<open>\<^verbatim>\<open>new Big(a).div(b)\<close> on two strings: \<^verbatim>\<open>a\<close> is parsed first, then \<^verbatim>\<open>b\<close>.\<close>

definition Big_new_div :: "rat option \<Rightarrow> rat option \<Rightarrow> error + rat" where
  "Big_new_div a b =
     (case Big_new a of Inl e \<Rightarrow> Inl e
      | Inr x \<Rightarrow> (case Big_new b of Inl e \<Rightarrow> Inl e | Inr y \<Rightarrow> Big_div x y))"

section \<open>JavaScript numbers\<close>

text \<open>
  Every value handed to the matrix is a JavaScript number, \<^verbatim>\<open>Big.toNumber()\<close>, and every
  score of the store is one: an IEEE 754 double. A double is kept here as the rational
  it denotes. \<^verbatim>\<open>toNumber\<close> is the double nearest to a decimal, ties to the even
  significand, with the subnormal range below 2 to the power -1022; magnitudes from 2 to the power 1024 on,
  where the program holds \<^verbatim>\<open>Infinity\<close>, are outside the model. \<^verbatim>\<open>bitlength\<close> and
  \<^verbatim>\<open>ndigits\<close> count the binary and the decimal digits of a natural number.
\<close>

fun bitlength :: "nat \<Rightarrow> nat" where
  "bitlength n = (if n = 0 then 0 else Suc (bitlength (n div 2)))"

fun ndigits :: "nat \<Rightarrow> nat" where
  "ndigits n = (if n < 10 then 1 else Suc (ndigits (n div 10)))"

declare bitlength.simps [simp del] ndigits.simps [simp del]

definition scale :: "rat \<Rightarrow> int \<Rightarrow> rat" where
  "scale b e = (if 0 \<le> e then b ^ nat e else 1 / b ^ nat (- e))"

definition exponent2 :: "rat \<Rightarrow> int" where
  "exponent2 a = (if 1 \<le> a then int (bitlength (nat \<lfloor>a\<rfloor>)) - 1
                  else - int (bitlength (nat (\<lceil>1 / a\<rceil> - 1))))"

definition exponent10 :: "rat \<Rightarrow> int" where
  "exponent10 a = (if 1 \<le> a then int (ndigits (nat \<lfloor>a\<rfloor>)) - 1
                   else - int (ndigits (nat (\<lceil>1 / a\<rceil> - 1))))"

definition round_half_even :: "rat \<Rightarrow> int" where
  "round_half_even q =
     (let n = \<lfloor>q\<rfloor>; r = q - of_int n
      in if r < 1 / 2 then n else if 1 / 2 < r then n + 1 else if even n then n else n + 1)"

definition toNumber :: "rat \<Rightarrow> rat" where
  "toNumber x =
     (if x = 0 then 0
      else let a = \<bar>x\<bar>;
               e = max (exponent2 a) (- 1022);
               u = scale 2 (e - 52)
           in sgn x * of_int (round_half_even (a / u)) * u)"

text \<open>
  \<^verbatim>\<open>new Big(n)\<close> on a number \<open>n\<close> reads the decimal string of \<open>n\<close>, which
  \<^verbatim>\<open>Number_toString\<close> gives: the decimal of fewest significant digits that converts back
  to \<open>n\<close>, the nearest to \<open>n\<close> among those of that many digits.
\<close>

definition candidates :: "rat \<Rightarrow> nat \<Rightarrow> rat list" where
  "candidates a n =
     (let u = scale 10 (exponent10 a - int n + 1);
          s = \<lfloor>a / u\<rfloor>;
          lo = of_int s * u;
          hi = of_int (s + 1) * u
      in if a - lo < hi - a \<or> (a - lo = hi - a \<and> even s) then [lo, hi] else [hi, lo])"

definition Number_toString :: "rat \<Rightarrow> rat" where
  "Number_toString x =
     (if x = 0 then 0
      else case List.find (\<lambda>c. toNumber c = \<bar>x\<bar>) (concat (map (candidates \<bar>x\<bar>) [1..<18])) of
             None \<Rightarrow> x
           | Some c \<Rightarrow> sgn x * c)"

definition Big_number :: "rat \<Rightarrow> rat" where
  "Big_number n = Number_toString n"

section \<open>Data of the subgraph and of the matrix\<close>

record Bet =
  bet_user :: string
  bet_amount :: "rat option"
  bet_position :: string

record Round =
  round_position :: "string option"
  round_bets :: "Bet list"
  totalAmount :: "rat option"
  bullAmount :: "rat option"
  bearAmount :: "rat option"

record RoundSummary =
  epoch :: int
  closeBlock :: int

record MatrixEntry =
  entry_id :: string
  entry_values :: "(string \<times> rat) list"

datatype cycle = hourly | daily | weekly | monthly

datatype UpdatePolicy = aggregate | replace

record DimensionDefinition =
  dim_name :: string
  dim_cycle :: "cycle option"

record FeatureDefinition =
  feat_name :: string
  updatePolicy :: UpdatePolicy
  limitTopN :: nat

text \<open>The options of \<^verbatim>\<open>new LeaderboardMatrix\<close> in \<^verbatim>\<open>onApplicationBootstrap\<close>.\<close>

definition dimensions :: "DimensionDefinition list" where
  "dimensions =
     [\<lparr>dim_name = ''world'', dim_cycle = None\<rparr>,
      \<lparr>dim_name = ''best-month'', dim_cycle = Some monthly\<rparr>,
      \<lparr>dim_name = ''best-week'', dim_cycle = Some weekly\<rparr>,
      \<lparr>dim_name = ''best-day'', dim_cycle = Some daily\<rparr>,
      \<lparr>dim_name = ''best-hour'', dim_cycle = Some hourly\<rparr>]"

definition features :: "FeatureDefinition list" where
  "features =
     [\<lparr>feat_name = ''amount_played'', updatePolicy = aggregate, limitTopN = 500\<rparr>,
      \<lparr>feat_name = ''total_bet'', updatePolicy = aggregate, limitTopN = 500\<rparr>,
      \<lparr>feat_name = ''winnings'', updatePolicy = aggregate, limitTopN = 500\<rparr>,
      \<lparr>feat_name = ''bnb_won'', updatePolicy = aggregate, limitTopN = 500\<rparr>,
      \<lparr>feat_name = ''bnb_won_even'', updatePolicy = aggregate, limitTopN = 500\<rparr>,
      \<lparr>feat_name = ''losses'', updatePolicy = aggregate, limitTopN = 500\<rparr>,
      \<lparr>feat_name = ''winnings_even_money'', updatePolicy = aggregate, limitTopN = 500\<rparr>,
      \<lparr>feat_name = ''winrate'', updatePolicy = replace, limitTopN = 500\<rparr>,
      \<lparr>feat_name = ''avg_bet'', updatePolicy = replace, limitTopN = 500\<rparr>]"

section \<open>The state of a tick and its trace\<close>

text \<open>
  The service holds no data of its own: the round pointer is the Redis key
  \<^verbatim>\<open>currentRound\<close>, and every ranking table is a sorted set of the same Redis. A table
  maps a participant to a score. A dimension without a cycle has one table per feature
  (\<open>boards\<close>), a dimension with a cycle has one table per feature and materialized period
  (\<open>periodic\<close>, an association list from the period key). \<open>trace\<close> lists, in the order of
  the calls, what the tick asked of Redis, of the subgraph and of the matrix.
\<close>

type_synonym table = "string \<rightharpoonup> rat"

datatype event =
    Redis_get
  | Redis_set int
  | Query_rounds nat
  | Query_round int nat nat
  | Existing_keys string string
  | Clear string string string
  | Matrix_update "MatrixEntry list" "string list"

record state =
  boards :: "string \<times> string \<Rightarrow> table"
  periodic :: "string \<times> string \<Rightarrow> (string \<times> table) list"
  currentRound :: "int option"
  trace :: "event list"

definition emit :: "event \<Rightarrow> state \<Rightarrow> state" where
  "emit e st = st\<lparr>trace := trace st @ [e]\<rparr>"

text \<open>
  What a tick reads from outside: the \<^verbatim>\<open>READ_ONLY\<close> option, the period key of the
  current time for each cycle, and the subgraph. \<open>sg_rounds\<close> is every round the subgraph
  knows (\<open>None\<close> when it answers without data), \<open>sg_round\<close> the answer for one round id:
  \<open>None\<close> without data, \<open>Some None\<close> for \<^verbatim>\<open>round: null\<close>.
\<close>

record env =
  READ_ONLY :: bool
  keyNow :: "cycle \<Rightarrow> string"
  sg_rounds :: "RoundSummary list option"
  sg_round :: "int \<Rightarrow> Round option option"

section \<open>The ranking library: redis-rank\<close>

text \<open>
  \<^verbatim>\<open>Leaderboard\<close>, \<^verbatim>\<open>PeriodicLeaderboard\<close> and \<^verbatim>\<open>LeaderboardMatrix\<close> come from the
  package redis-rank, which is not part of the repository. Their operations are
  modelled from the specification's component design (Ranking Table, Periodic Ranking
  Table, Ranking Matrix).
\<close>

text \<open>
  Modelled from the spec: \<^verbatim>\<open>Leaderboard.update\<close> (Ranking Table, \<^verbatim>\<open>update(id, delta_or_value)\<close>):
  under \<open>aggregate\<close> the value is added to the participant's score, 0 if absent; under
  \<open>replace\<close> the score is set to the value. Scores are doubles, and so is the sum.
\<close>

fun table_update :: "UpdatePolicy \<Rightarrow> string \<Rightarrow> rat \<Rightarrow> table \<Rightarrow> table" where
  "table_update aggregate i v t = t(i \<mapsto> toNumber ((case t i of None \<Rightarrow> 0 | Some s \<Rightarrow> s) + v))"
| "table_update replace i v t = t(i \<mapsto> v)"

text \<open>
  Modelled from the spec: the handle of a matrix cell (Ranking Matrix): a bare table
  when the dimension has no cycle, a periodic table when it has one; \<^verbatim>\<open>getRawLeaderboard\<close>
  returns it, or \<^verbatim>\<open>null\<close> for a pair outside the grid.
\<close>

datatype handle =
    Leaderboard string string
  | PeriodicLeaderboard string string cycle

definition getRawLeaderboard :: "string \<Rightarrow> string \<Rightarrow> handle option" where
  "getRawLeaderboard dimension feature =
     (case List.find (\<lambda>d. dim_name d = dimension) dimensions of
        None \<Rightarrow> None
      | Some d \<Rightarrow>
          if feature \<in> set (map feat_name features)
          then Some (case dim_cycle d of
                       None \<Rightarrow> Leaderboard dimension feature
                     | Some c \<Rightarrow> PeriodicLeaderboard dimension feature c)
          else None)"

text \<open>
  Modelled from the spec: Periodic Ranking Table. A period's table is made on first
  reference (a key that is not materialized reads as the empty table),
  \<^verbatim>\<open>getExistingKeys\<close> lists the materialized keys, and clearing a period's table discards
  it.
\<close>

definition getLeaderboardAt :: "(string \<times> table) list \<Rightarrow> string \<Rightarrow> table" where
  "getLeaderboardAt ps k = (case map_of ps k of None \<Rightarrow> Map.empty | Some t \<Rightarrow> t)"

definition getExistingKeys :: "(string \<times> table) list \<Rightarrow> string list" where
  "getExistingKeys ps = map fst ps"

definition clear :: "string \<Rightarrow> string \<Rightarrow> string \<Rightarrow> state \<Rightarrow> state" where
  "clear d f key st =
     emit (Clear d f key)
       (st\<lparr>periodic := (periodic st)((d, f) := AList.delete key (periodic st (d, f)))\<rparr>)"

text \<open>
  The two reads of the service: \<^verbatim>\<open>(lb as Leaderboard).find(id)\<close> and
  \<^verbatim>\<open>(lb as PeriodicLeaderboard).getLeaderboardNow().find(id)\<close>. A cast is no check: on
  a handle of the other kind, or on \<^verbatim>\<open>null\<close>, the method call is a \<^verbatim>\<open>TypeError\<close>.
  \<open>find\<close> returns the score, \<open>None\<close> for a participant without an entry.
\<close>

definition Leaderboard_find :: "state \<Rightarrow> handle option \<Rightarrow> string \<Rightarrow> error + rat option" where
  "Leaderboard_find st lb i =
     (case lb of
        Some (Leaderboard d f) \<Rightarrow> Inr (boards st (d, f) i)
      | _ \<Rightarrow> Inl TypeError)"

definition LeaderboardNow_find ::
  "(cycle \<Rightarrow> string) \<Rightarrow> state \<Rightarrow> handle option \<Rightarrow> string \<Rightarrow> error + rat option" where
  "LeaderboardNow_find kn st lb i =
     (case lb of
        Some (PeriodicLeaderboard d f c) \<Rightarrow> Inr (getLeaderboardAt (periodic st (d, f)) (kn c) i)
      | _ \<Rightarrow> Inl TypeError)"

text \<open>
  Modelled from the spec: \<^verbatim>\<open>LeaderboardMatrix.update(batch, dimensionNames?)\<close> (Ranking
  Matrix): for each dimension named, each feature of the matrix and each entry of the
  batch whose values hold that feature, the current table of the cell is updated with
  the feature's policy. For a periodic cell the current table is the one of the period
  key of now.
\<close>

fun updateCell ::
  "(cycle \<Rightarrow> string) \<Rightarrow> UpdatePolicy \<Rightarrow> handle \<Rightarrow> string \<Rightarrow> rat \<Rightarrow> state \<Rightarrow> state" where
  "updateCell kn pol (Leaderboard d f) i v st =
     st\<lparr>boards := (boards st)((d, f) := table_update pol i v (boards st (d, f)))\<rparr>"
| "updateCell kn pol (PeriodicLeaderboard d f c) i v st =
     st\<lparr>periodic := (periodic st)((d, f) :=
        AList.update (kn c)
          (table_update pol i v (getLeaderboardAt (periodic st (d, f)) (kn c)))
          (periodic st (d, f)))\<rparr>"

definition updateEntry ::
  "(cycle \<Rightarrow> string) \<Rightarrow> string \<Rightarrow> FeatureDefinition \<Rightarrow> MatrixEntry \<Rightarrow> state \<Rightarrow> state" where
  "updateEntry kn dimension feat e st =
     (case map_of (entry_values e) (feat_name feat) of
        None \<Rightarrow> st
      | Some v \<Rightarrow>
          (case getRawLeaderboard dimension (feat_name feat) of
             None \<Rightarrow> st
           | Some lb \<Rightarrow> updateCell kn (updatePolicy feat) lb (entry_id e) v st))"

definition matrix_update ::
  "(cycle \<Rightarrow> string) \<Rightarrow> MatrixEntry list \<Rightarrow> string list \<Rightarrow> state \<Rightarrow> state" where
  "matrix_update kn entries dims st =
     fold (\<lambda>dimension. fold (\<lambda>feat. fold (updateEntry kn dimension feat) entries) features)
       dims st"

text \<open>\<^verbatim>\<open>this.leaderboard.update(entries, dims)\<close>, as the tick calls it.\<close>

definition leaderboard_update ::
  "(cycle \<Rightarrow> string) \<Rightarrow> MatrixEntry list \<Rightarrow> string list \<Rightarrow> state \<Rightarrow> state" where
  "leaderboard_update kn entries dims st =
     matrix_update kn entries dims (emit (Matrix_update entries dims) st)"

section \<open>The service: app.service.ts\<close>

subsection \<open>Sequencing with errors\<close>

fun fold_err :: "('a \<Rightarrow> 's \<Rightarrow> error + 's) \<Rightarrow> 'a list \<Rightarrow> 's \<Rightarrow> error + 's" where
  "fold_err f [] s = Inr s"
| "fold_err f (x # xs) s = (case f x s of Inl e \<Rightarrow> Inl e | Inr s' \<Rightarrow> fold_err f xs s')"

fun map_err :: "('a \<Rightarrow> error + 'b) \<Rightarrow> 'a list \<Rightarrow> error + 'b list" where
  "map_err f [] = Inr []"
| "map_err f (x # xs) =
     (case f x of
        Inl e \<Rightarrow> Inl e
      | Inr y \<Rightarrow> (case map_err f xs of Inl e \<Rightarrow> Inl e | Inr ys \<Rightarrow> Inr (y # ys)))"

text \<open>JavaScript's \<^verbatim>\<open>x?.score || d\<close> on the result of \<^verbatim>\<open>find\<close>, and \<^verbatim>\<open>x || d\<close> on a number.\<close>

definition score_or :: "rat option \<Rightarrow> rat \<Rightarrow> rat" where
  "score_or s d = (case s of None \<Rightarrow> d | Some v \<Rightarrow> if v = 0 then d else v)"

definition num_or :: "rat \<Rightarrow> rat \<Rightarrow> rat" where
  "num_or v d = (if v = 0 then d else v)"

subsection \<open>The round pointer\<close>

definition setCurrentRound :: "int \<Rightarrow> state \<Rightarrow> state" where
  "setCurrentRound e st = emit (Redis_set e) (st\<lparr>currentRound := Some e\<rparr>)"

text \<open>
  \<^verbatim>\<open>fetchLatestRound\<close>: the subgraph's answer to the \<^verbatim>\<open>Rounds\<close> query with the variables
  \<^verbatim>\<open>orderBy: 'epoch', orderDir: 'desc', first: 10, where: {closeBlock_gt: 0}\<close>.
\<close>

definition query_rounds :: "env \<Rightarrow> nat \<Rightarrow> RoundSummary list option" where
  "query_rounds env first =
     map_option (\<lambda>rs. take first (rev (sort_key epoch (filter (\<lambda>r. 0 < closeBlock r) rs))))
       (sg_rounds env)"

definition fetchLatestRound :: "env \<Rightarrow> state \<Rightarrow> state \<times> RoundSummary list option" where
  "fetchLatestRound env st = (emit (Query_rounds 10) st, query_rounds env 10)"

definition getCurrentRound :: "env \<Rightarrow> state \<Rightarrow> state \<times> (error + int)" where
  "getCurrentRound env st =
     (let st1 = emit Redis_get st in
      case currentRound st1 of
        Some r \<Rightarrow> (st1, Inr r)
      | None \<Rightarrow>
          (case fetchLatestRound env st1 of
             (st2, lastRounds) \<Rightarrow>
               (case lastRounds of
                  None \<Rightarrow> (st2, Inl NoRoundsFound)
                | Some rs \<Rightarrow>
                    if 1 < length rs
                    then let rnd = rs ! 1
                         in (setCurrentRound (epoch rnd) st2, Inr (epoch rnd))
                    else (st2, Inl NoRoundsFound))))"

subsection \<open>Fetching a round\<close>

text \<open>
  \<^verbatim>\<open>fetchRound\<close>: the subgraph's answer to \<^verbatim>\<open>GetRoundBets\<close>, whose text asks for
  \<^verbatim>\<open>bets(first: 1000, skip: $skip)\<close>, with the variables \<^verbatim>\<open>{ID: round, skip: 0}\<close>.
\<close>

definition query_round :: "env \<Rightarrow> int \<Rightarrow> nat \<Rightarrow> nat \<Rightarrow> Round option option" where
  "query_round env ID first skip =
     map_option (map_option (\<lambda>r. r\<lparr>round_bets := take first (drop skip (round_bets r))\<rparr>))
       (sg_round env ID)"

definition fetchRound :: "env \<Rightarrow> int \<Rightarrow> state \<Rightarrow> state \<times> Round option option" where
  "fetchRound env ID st = (emit (Query_round ID 1000 0) st, query_round env ID 1000 0)"

subsection \<open>The expiry sweep\<close>

definition deleteOld_cell ::
  "(cycle \<Rightarrow> string) \<Rightarrow> string \<Rightarrow> string \<Rightarrow> state \<Rightarrow> error + state" where
  "deleteOld_cell kn dimension feature st =
     (case getRawLeaderboard dimension feature of
        Some (PeriodicLeaderboard d f c) \<Rightarrow>
          (let st1 = emit (Existing_keys d f) st
           in Inr (fold (\<lambda>key s. if key \<noteq> kn c then clear d f key s else s)
                     (getExistingKeys (periodic st1 (d, f))) st1))
      | _ \<Rightarrow> Inl TypeError)"

definition deleteOld :: "(cycle \<Rightarrow> string) \<Rightarrow> state \<Rightarrow> error + state" where
  "deleteOld kn st =
     (let features = [''amount_played''];
          dimensions = [''best-month'', ''best-week'', ''best-day'', ''best-hour'']
      in fold_err
           (\<lambda>dimension. fold_err (\<lambda>feature. deleteOld_cell kn dimension feature) features)
           dimensions st)"

subsection \<open>The metrics of a round\<close>

text \<open>
  The entry of one bet in the batch of linear metrics. \<open>position\<close> is the round's
  position, a non-empty string once the readiness check has passed. The factor
  \<^verbatim>\<open>1 - 0.03\<close> is the double 0.97, which big.js reads as the decimal 0.97.
\<close>

definition linearEntry :: "rat \<Rightarrow> rat \<Rightarrow> string \<Rightarrow> Bet \<Rightarrow> error + MatrixEntry" where
  "linearEntry bullPayout bearPayout position bet =
     (case Big_new (bet_amount bet) of
        Inl e \<Rightarrow> Inl e
      | Inr amount \<Rightarrow>
          Inr \<lparr>entry_id = bet_user bet,
               entry_values =
                 [(''amount_played'', 1),
                  (''total_bet'', toNumber (Big_round 7 0 amount)),
                  (''winnings'', if bet_position bet = position then 1 else 0),
                  (''losses'', if bet_position bet \<noteq> position then 1 else 0),
                  (''bnb_won'',
                   if bet_position bet = position
                   then toNumber (Big_round 7 0
                          ((if position = ''Bull'' then bullPayout else bearPayout)
                             * amount * (97 / 100) - amount))
                   else 0),
                  (''bnb_won_even'',
                   if bet_position bet = position
                   then toNumber (Big_round 7 0
                          ((if position = ''Bull'' then bullPayout else bearPayout)
                             * 1 * (97 / 100) - 1))
                   else 0)]\<rparr>)"

text \<open>
  The entry of one bet in the batch of derived metrics of one dimension. In the branch
  of the dimension \<^verbatim>\<open>world\<close> the three reads are all made on \<^verbatim>\<open>lbWinnings\<close>, as the
  source has them.
\<close>

definition derivedEntry ::
  "(cycle \<Rightarrow> string) \<Rightarrow> state \<Rightarrow> DimensionDefinition \<Rightarrow> Bet \<Rightarrow> error + MatrixEntry" where
  "derivedEntry kn st dimension bet =
     (let lbWinnings = getRawLeaderboard (dim_name dimension) ''winnings'';
          lbTotalBet = getRawLeaderboard (dim_name dimension) ''total_bet'';
          lbAmountPlayed = getRawLeaderboard (dim_name dimension) ''amount_played''
      in case (if dim_name dimension = ''world''
               then Leaderboard_find st lbWinnings (bet_user bet)
               else LeaderboardNow_find kn st lbWinnings (bet_user bet)) of
           Inl e \<Rightarrow> Inl e
         | Inr w \<Rightarrow>
        (case (if dim_name dimension = ''world''
               then Leaderboard_find st lbWinnings (bet_user bet)
               else LeaderboardNow_find kn st lbTotalBet (bet_user bet)) of
           Inl e \<Rightarrow> Inl e
         | Inr t \<Rightarrow>
        (case (if dim_name dimension = ''world''
               then Leaderboard_find st lbWinnings (bet_user bet)
               else LeaderboardNow_find kn st lbAmountPlayed (bet_user bet)) of
           Inl e \<Rightarrow> Inl e
         | Inr a \<Rightarrow>
        (let prevDataWinnings = score_or w 0;
             prevDataTotalBet = score_or t 0;
             prevAmountPlayed = score_or a 0
         in case Big_div (Big_number prevDataWinnings) (Big_number (num_or prevAmountPlayed 1)) of
              Inl e \<Rightarrow> Inl e
            | Inr winrate \<Rightarrow>
           (case Big_div (Big_number prevDataTotalBet) (Big_number (num_or prevAmountPlayed 1)) of
              Inl e \<Rightarrow> Inl e
            | Inr avg_bet \<Rightarrow>
                Inr \<lparr>entry_id = bet_user bet,
                     entry_values =
                       [(''winrate'', toNumber (Big_round 3 0 winrate)),
                        (''avg_bet'', toNumber (Big_round 3 0 avg_bet))]\<rparr>)))))"

text \<open>
  The derived metrics, dimension by dimension: the entries of all bets are computed from
  the tables as they are, then applied to that one dimension. The source starts the
  dimensions together and does not wait for the last update; the reads of a dimension
  touch none of the tables any of these updates writes, so the order chosen here is the
  order of the list.
\<close>

fun derivedMetrics ::
  "(cycle \<Rightarrow> string) \<Rightarrow> Bet list \<Rightarrow> DimensionDefinition list \<Rightarrow> state \<Rightarrow> state \<times> error option" where
  "derivedMetrics kn bets [] st = (st, None)"
| "derivedMetrics kn bets (dimension # ds) st =
     (case map_err (derivedEntry kn st dimension) bets of
        Inl e \<Rightarrow> (st, Some e)
      | Inr updates \<Rightarrow>
          derivedMetrics kn bets ds (leaderboard_update kn updates [dim_name dimension] st))"

subsection \<open>The tick\<close>

text \<open>
  The body of \<^verbatim>\<open>populateLeaderboard\<close> from the readiness check on, for the round the
  subgraph returned. \<^verbatim>\<open>!round.position\<close> holds when the position is \<^verbatim>\<open>null\<close> or the
  empty string.
\<close>

definition processRound ::
  "(cycle \<Rightarrow> string) \<Rightarrow> int \<Rightarrow> Round \<Rightarrow> state \<Rightarrow> state \<times> error option" where
  "processRound kn current r st =
     (case round_position r of
        None \<Rightarrow> (st, Some RoundNotReady)
      | Some position \<Rightarrow>
          if position = [] then (st, Some RoundNotReady)
          else
           (case Big_new_div (totalAmount r) (bullAmount r) of
              Inl e \<Rightarrow> (st, Some e)
            | Inr bullPayout \<Rightarrow>
           (case Big_new_div (totalAmount r) (bearAmount r) of
              Inl e \<Rightarrow> (st, Some e)
            | Inr bearPayout \<Rightarrow>
           (let st1 = setCurrentRound (current + 1) st
            in case map_err (linearEntry bullPayout bearPayout position) (round_bets r) of
                 Inl e \<Rightarrow> (st1, Some e)
               | Inr batch \<Rightarrow>
                   derivedMetrics kn (round_bets r) dimensions
                     (leaderboard_update kn batch (map dim_name dimensions) st1)))))"

definition populateLeaderboard :: "env \<Rightarrow> state \<Rightarrow> state \<times> error option" where
  "populateLeaderboard env st =
     (if READ_ONLY env then (st, None)
      else
        case deleteOld (keyNow env) st of
          Inl e \<Rightarrow> (st, Some e)
        | Inr st1 \<Rightarrow>
       (case getCurrentRound env st1 of
          (st2, Inl e) \<Rightarrow> (st2, Some e)
        | (st2, Inr current) \<Rightarrow>
       (case fetchRound env current st2 of
          (st3, None) \<Rightarrow> (st3, Some NoRoundData)
        | (st3, Some None) \<Rightarrow> (st3, Some TypeError)
        | (st3, Some (Some r)) \<Rightarrow> processRound (keyNow env) current r st3)))"

section \<open>Reading the matrix\<close>

text \<open>
  Modelled from the spec: \<^verbatim>\<open>cellFind(dimensionName, featureName, id)\<close> (Ranking Matrix):
  resolves the cell's current table and returns \<^verbatim>\<open>find(id)\<close>. \<open>cellTable\<close> is that current
  table, the empty one outside the grid.
\<close>

definition cellTable :: "(cycle \<Rightarrow> string) \<Rightarrow> state \<Rightarrow> string \<Rightarrow> string \<Rightarrow> table" where
  "cellTable kn st d f =
     (case getRawLeaderboard d f of
        None \<Rightarrow> Map.empty
      | Some (Leaderboard d' f') \<Rightarrow> boards st (d', f')
      | Some (PeriodicLeaderboard d' f' c) \<Rightarrow> getLeaderboardAt (periodic st (d', f')) (kn c))"

definition cellFind :: "(cycle \<Rightarrow> string) \<Rightarrow> state \<Rightarrow> string \<Rightarrow> string \<Rightarrow> string \<Rightarrow> rat option" where
  "cellFind kn st d f i = cellTable kn st d f i"

text \<open>What one entry of a batch does to the current table of a cell of feature \<open>f\<close>.\<close>

definition applyEntry :: "UpdatePolicy \<Rightarrow> string \<Rightarrow> MatrixEntry \<Rightarrow> table \<Rightarrow> table" where
  "applyEntry pol f e t =
     (case map_of (entry_values e) f of None \<Rightarrow> t | Some v \<Rightarrow> table_update pol (entry_id e) v t)"

definition derived_winrate :: "(cycle \<Rightarrow> string) \<Rightarrow> state \<Rightarrow> string \<Rightarrow> string \<Rightarrow> rat" where
  "derived_winrate kn st d x =
     (let w = score_or (cellFind kn st d ''winnings'' x) 0;
          a = score_or (cellFind kn st d (if d = ''world'' then ''winnings'' else ''amount_played'') x) 0
      in toNumber (Big_round 3 0 (Big_round 20 1 (Big_number w / Big_number (num_or a 1)))))"

definition derived_avg_bet :: "(cycle \<Rightarrow> string) \<Rightarrow> state \<Rightarrow> string \<Rightarrow> string \<Rightarrow> rat" where
  "derived_avg_bet kn st d x =
     (let t = score_or (cellFind kn st d (if d = ''world'' then ''winnings'' else ''total_bet'') x) 0;
          a = score_or (cellFind kn st d (if d = ''world'' then ''winnings'' else ''amount_played'') x) 0
      in toNumber (Big_round 3 0 (Big_round 20 1 (Big_number t / Big_number (num_or a 1)))))"

definition derived_of :: "(cycle \<Rightarrow> string) \<Rightarrow> state \<Rightarrow> string \<Rightarrow> Bet \<Rightarrow> MatrixEntry" where
  "derived_of kn st d b =
     \<lparr>entry_id = bet_user b,
      entry_values =
        [(''winrate'', derived_winrate kn st d (bet_user b)),
         (''avg_bet'', derived_avg_bet kn st d (bet_user b))]\<rparr>"

definition cycle_of :: "string \<Rightarrow> cycle option" where
  "cycle_of d =
     (case List.find (\<lambda>dd. dim_name dd = d) dimensions of
        None \<Rightarrow> None
      | Some dd \<Rightarrow> dim_cycle dd)"

definition sweep_events :: "(cycle \<Rightarrow> string) \<Rightarrow> state \<Rightarrow> string \<Rightarrow> cycle \<Rightarrow> event list" where
  "sweep_events kn st d c =
     Existing_keys d ''amount_played''
       # map (Clear d ''amount_played'')
           (filter (\<lambda>k. k \<noteq> kn c) (getExistingKeys (periodic st (d, ''amount_played''))))"

definition sweep_trace :: "(cycle \<Rightarrow> string) \<Rightarrow> state \<Rightarrow> event list" where
  "sweep_trace kn st =
     sweep_events kn st ''best-month'' monthly @ sweep_events kn st ''best-week'' weekly
       @ sweep_events kn st ''best-day'' daily @ sweep_events kn st ''best-hour'' hourly"

definition swept :: "(cycle \<Rightarrow> string) \<Rightarrow> state \<Rightarrow> state" where
  "swept kn st =
     st\<lparr>periodic :=
          (\<lambda>(d, f). if f = ''amount_played''
                     then (case cycle_of d of
                             None \<Rightarrow> periodic st (d, f)
                           | Some c \<Rightarrow> filter (\<lambda>p. fst p = kn c) (periodic st (d, f)))
                     else periodic st (d, f)),
        trace := trace st @ sweep_trace kn st\<rparr>"

definition linear_of :: "rat \<Rightarrow> rat \<Rightarrow> string \<Rightarrow> Bet \<Rightarrow> MatrixEntry" where
  "linear_of bullPayout bearPayout position b =
     (case linearEntry bullPayout bearPayout position b of
        Inl e \<Rightarrow> \<lparr>entry_id = bet_user b, entry_values = []\<rparr>
      | Inr entry \<Rightarrow> entry)"

definition tick_features :: "string list" where
  "tick_features = [''amount_played'', ''total_bet'', ''winnings'', ''losses'',
            ''bnb_won'', ''bnb_won_even'', ''winrate'', ''avg_bet'']"

definition tick_update :: "nat \<Rightarrow> event \<Rightarrow> bool" where
  "tick_update n ev =
     (case ev of
        Matrix_update es ds \<Rightarrow>
          length es \<le> n \<and>
          list_all (\<lambda>e. list_all (\<lambda>p. fst p \<in> set tick_features) (entry_values e)) es
      | _ \<Rightarrow> False)"

definition empty_state :: state where
  "empty_state = \<lparr>boards = (\<lambda>a. Map.empty), periodic = (\<lambda>a. []), currentRound = None, trace = []\<rparr>"

definition one_round_env :: env where
  "one_round_env =
     \<lparr>READ_ONLY = False, keyNow = (\<lambda>c. ''p1''),
      sg_rounds = Some [\<lparr>epoch = 7, closeBlock = 100\<rparr>],
      sg_round = (\<lambda>i. None)\<rparr>"

definition three_rounds_env :: env where
  "three_rounds_env =
     \<lparr>READ_ONLY = False, keyNow = (\<lambda>c. ''p1''),
      sg_rounds = Some [\<lparr>epoch = 5, closeBlock = 50\<rparr>, \<lparr>epoch = 7, closeBlock = 70\<rparr>,
                        \<lparr>epoch = 6, closeBlock = 60\<rparr>, \<lparr>epoch = 8, closeBlock = 0\<rparr>],
      sg_round = (\<lambda>i. None)\<rparr>"

definition tick_event :: "event \<Rightarrow> bool" where
  "tick_event ev =
     (case ev of
        Redis_get \<Rightarrow> True
      | Redis_set n \<Rightarrow> True
      | Query_rounds first \<Rightarrow> first = 10
      | Query_round ID first skip \<Rightarrow> first = 1000 \<and> skip = 0
      | Existing_keys d f \<Rightarrow> False
      | Clear d f k \<Rightarrow> False
      | Matrix_update es ds \<Rightarrow> tick_update 1000 ev)"

definition is_Query_round :: "event \<Rightarrow> bool" where
  "is_Query_round ev = (case ev of Query_round ID first skip \<Rightarrow> True | _ \<Rightarrow> False)"

definition is_sweep :: "event \<Rightarrow> bool" where
  "is_sweep ev =
     (case ev of
        Existing_keys d f \<Rightarrow> f = ''amount_played''
      | Clear d f k \<Rightarrow> f = ''amount_played''
      | _ \<Rightarrow> False)"

definition truncate_bets :: "nat \<Rightarrow> env \<Rightarrow> env" where
  "truncate_bets n env =
     env\<lparr>sg_round :=
           (\<lambda>ID. map_option (map_option (\<lambda>r. r\<lparr>round_bets := take n (round_bets r)\<rparr>))
                   (sg_round env ID))\<rparr>"

definition writes :: "string \<Rightarrow> event \<Rightarrow> bool" where
  "writes f ev =
     (case ev of
        Matrix_update es ds \<Rightarrow> list_ex (\<lambda>e. map_of (entry_values e) f \<noteq> None) es
      | _ \<Rightarrow> False)"

definition stale_state :: state where
  "stale_state =
     \<lparr>boards = (\<lambda>a. Map.empty),
      periodic = (\<lambda>a. if a = (''best-hour'', ''amount_played'')
                       then [(''h1'', [''A'' \<mapsto> 3]), (''h2'', [''A'' \<mapsto> 1])] else []),
      currentRound = Some 5,
      trace = []\<rparr>"


definition early_bet :: Bet where
  "early_bet = \<lparr>bet_user = ''A'', bet_amount = Some 1, bet_position = ''Bull''\<rparr>"

definition late_bet :: Bet where
  "late_bet = \<lparr>bet_user = ''B'', bet_amount = Some 1, bet_position = ''Bull''\<rparr>"

definition thousand_and_one_round :: Round where
  "thousand_and_one_round =
     \<lparr>round_position = Some ''Bull'', round_bets = replicate 1000 early_bet @ [late_bet],
      totalAmount = Some 2002, bullAmount = Some 1001, bearAmount = Some 1001\<rparr>"

definition thousand_and_one_env :: env where
  "thousand_and_one_env =
     \<lparr>READ_ONLY = False, keyNow = (\<lambda>c. ''h2''), sg_rounds = None,
      sg_round = (\<lambda>ID. if ID = 5 then Some (Some thousand_and_one_round) else None)\<rparr>"

definition unresolved_round :: Round where
  "unresolved_round =
     \<lparr>round_position = None,
      round_bets = [\<lparr>bet_user = ''A'', bet_amount = Some 10, bet_position = ''Bull''\<rparr>],
      totalAmount = Some 10, bullAmount = Some 10, bearAmount = Some 0\<rparr>"

definition not_ready_env :: env where
  "not_ready_env =
     \<lparr>READ_ONLY = False, keyNow = (\<lambda>c. ''h2''), sg_rounds = None,
      sg_round = (\<lambda>ID. if ID = 5 then Some (Some unresolved_round) else None)\<rparr>"

definition one_sided_round :: Round where
  "one_sided_round =
     \<lparr>round_position = Some ''Bull'',
      round_bets = [\<lparr>bet_user = ''A'', bet_amount = Some 10, bet_position = ''Bull''\<rparr>],
      totalAmount = Some 10, bullAmount = Some 10, bearAmount = Some 0\<rparr>"

definition one_sided_env :: env where
  "one_sided_env =
     \<lparr>READ_ONLY = False, keyNow = (\<lambda>c. ''h2''), sg_rounds = None,
      sg_round = (\<lambda>ID. if ID = 5 then Some (Some one_sided_round) else None)\<rparr>"

definition malformed_round :: Round where
  "malformed_round =
     \<lparr>round_position = Some ''Bull'',
      round_bets = [\<lparr>bet_user = ''A'', bet_amount = None, bet_position = ''Bull''\<rparr>],
      totalAmount = Some 15, bullAmount = Some 10, bearAmount = Some 5\<rparr>"

definition malformed_env :: env where
  "malformed_env =
     \<lparr>READ_ONLY = False, keyNow = (\<lambda>c. ''h2''), sg_rounds = None,
      sg_round = (\<lambda>ID. if ID = 5 then Some (Some malformed_round) else None)\<rparr>"

definition linear_features :: "string list" where
  "linear_features =
     [''amount_played'', ''total_bet'', ''winnings'', ''losses'', ''bnb_won'', ''bnb_won_even'']"

definition contribution :: "rat \<Rightarrow> rat \<Rightarrow> string \<Rightarrow> string \<Rightarrow> Bet \<Rightarrow> rat" where
  "contribution bullPayout bearPayout position f b =
     (case map_of (entry_values (linear_of bullPayout bearPayout position b)) f of
        None \<Rightarrow> 0
      | Some v \<Rightarrow> v)"

text \<open>The score an aggregate cell holds after a list of values was added to it, one by one.\<close>

definition double_sum :: "rat \<Rightarrow> rat list \<Rightarrow> rat" where
  "double_sum s vs = foldl (\<lambda>s v. toNumber (s + v)) s vs"

definition previous :: "(cycle \<Rightarrow> string) \<Rightarrow> state \<Rightarrow> string \<Rightarrow> string \<Rightarrow> string \<Rightarrow> rat" where
  "previous kn st d f x = (case cellFind kn st d f x of None \<Rightarrow> 0 | Some s \<Rightarrow> s)"

definition truncate_decimals :: "nat \<Rightarrow> rat \<Rightarrow> rat" where
  "truncate_decimals dp x = sgn x * of_int \<lfloor>\<bar>x\<bar> * 10 ^ dp\<rfloor> / 10 ^ dp"

definition round_half_away :: "nat \<Rightarrow> rat \<Rightarrow> rat" where
  "round_half_away dp x = sgn x * of_int \<lfloor>\<bar>x\<bar> * 10 ^ dp + 1 / 2\<rfloor> / 10 ^ dp"

definition fresh_state :: state where
  "fresh_state =
     \<lparr>boards = (\<lambda>a. Map.empty), periodic = (\<lambda>a. []), currentRound = Some 5, trace = []\<rparr>"

definition bet_A :: Bet where
  "bet_A = \<lparr>bet_user = ''A'', bet_amount = Some 10, bet_position = ''Bull''\<rparr>"

definition bet_B :: Bet where
  "bet_B = \<lparr>bet_user = ''B'', bet_amount = Some 5, bet_position = ''Bear''\<rparr>"

definition scenario_round :: Round where
  "scenario_round =
     \<lparr>round_position = Some ''Bull'', round_bets = [bet_A, bet_B],
      totalAmount = Some 15, bullAmount = Some 10, bearAmount = Some 5\<rparr>"

definition scenario_env :: env where
  "scenario_env =
     \<lparr>READ_ONLY = False, keyNow = (\<lambda>c. ''h2''), sg_rounds = None,
      sg_round = (\<lambda>ID. if ID = 5 then Some (Some scenario_round) else None)\<rparr>"

definition dust_bet :: Bet where
  "dust_bet = \<lparr>bet_user = ''A'', bet_amount = Some (1 / 10 ^ 8), bet_position = ''Bull''\<rparr>"

definition dust_round :: Round where
  "dust_round =
     \<lparr>round_position = Some ''Bull'', round_bets = [dust_bet],
      totalAmount = Some (3 / 10 ^ 8), bullAmount = Some (1 / 10 ^ 8),
      bearAmount = Some (2 / 10 ^ 8)\<rparr>"

definition dust_env :: env where
  "dust_env =
     \<lparr>READ_ONLY = False, keyNow = (\<lambda>c. ''h2''), sg_rounds = None,
      sg_round = (\<lambda>ID. if ID = 5 then Some (Some dust_round) else None)\<rparr>"

definition single_win_round :: Round where
  "single_win_round =
     \<lparr>round_position = Some ''Bull'', round_bets = [bet_A],
      totalAmount = Some 15, bullAmount = Some 10, bearAmount = Some 5\<rparr>"

definition single_win_env :: env where
  "single_win_env =
     \<lparr>READ_ONLY = False, keyNow = (\<lambda>c. ''h2''), sg_rounds = None,
      sg_round = (\<lambda>ID. if ID = 5 then Some (Some single_win_round) else None)\<rparr>"

definition played_state :: state where
  "played_state =
     \<lparr>boards = (\<lambda>a. if a = (''world'', ''winnings'') then [''A'' \<mapsto> 1]
                     else if a = (''world'', ''amount_played'') then [''A'' \<mapsto> 2]
                     else if a = (''world'', ''total_bet'') then [''A'' \<mapsto> 10]
                     else Map.empty),
      periodic = (\<lambda>a. if a = (''best-hour'', ''winnings'') then [(''h2'', [''A'' \<mapsto> 1])]
                       else if a = (''best-hour'', ''amount_played'') then [(''h2'', [''A'' \<mapsto> 2])]
                       else if a = (''best-hour'', ''total_bet'') then [(''h2'', [''A'' \<mapsto> 10])]
                       else []),
      currentRound = Some 5,
      trace = []\<rparr>"

definition halfway_bet :: Bet where
  "halfway_bet = \<lparr>bet_user = ''A'', bet_amount = Some (5 / 10 ^ 8), bet_position = ''Bull''\<rparr>"

definition halfway_round :: Round where
  "halfway_round =
     \<lparr>round_position = Some ''Bull'', round_bets = [halfway_bet],
      totalAmount = Some (15 / 10 ^ 8), bullAmount = Some (5 / 10 ^ 8),
      bearAmount = Some (10 / 10 ^ 8)\<rparr>"

definition halfway_env :: env where
  "halfway_env =
     \<lparr>READ_ONLY = False, keyNow = (\<lambda>c. ''h2''), sg_rounds = None,
      sg_round = (\<lambda>ID. if ID = 5 then Some (Some halfway_round) else None)\<rparr>"

definition thirds_bet :: Bet where
  "thirds_bet = \<lparr>bet_user = ''A'', bet_amount = Some 3, bet_position = ''Bull''\<rparr>"

definition thirds_round :: Round where
  "thirds_round =
     \<lparr>round_position = Some ''Bull'', round_bets = [thirds_bet],
      totalAmount = Some 10, bullAmount = Some 3, bearAmount = Some 7\<rparr>"

definition thirds_env :: env where
  "thirds_env =
     \<lparr>READ_ONLY = False, keyNow = (\<lambda>c. ''h2''), sg_rounds = None,
      sg_round = (\<lambda>ID. if ID = 5 then Some (Some thirds_round) else None)\<rparr>"

definition drift_bet_1 :: Bet where
  "drift_bet_1 = \<lparr>bet_user = ''A'', bet_amount = Some (7 / 10), bet_position = ''Bull''\<rparr>"

definition drift_bet_2 :: Bet where
  "drift_bet_2 = \<lparr>bet_user = ''A'', bet_amount = Some (1 / 10), bet_position = ''Bull''\<rparr>"

definition drift_round :: Round where
  "drift_round =
     \<lparr>round_position = Some ''Bull'', round_bets = [drift_bet_1, drift_bet_2],
      totalAmount = Some (16 / 10), bullAmount = Some (8 / 10), bearAmount = Some (8 / 10)\<rparr>"

definition drift_env :: env where
  "drift_env =
     \<lparr>READ_ONLY = False, keyNow = (\<lambda>c. ''h2''), sg_rounds = None,
      sg_round = (\<lambda>ID. if ID = 5 then Some (Some drift_round) else None)\<rparr>"

definition unseeded_state :: state where
  "unseeded_state = played_state\<lparr>currentRound := None\<rparr>"

definition seeding_env :: env where
  "seeding_env =
     \<lparr>READ_ONLY = False, keyNow = (\<lambda>c. ''h2''),
      sg_rounds = Some [\<lparr>epoch = 6, closeBlock = 60\<rparr>, \<lparr>epoch = 5, closeBlock = 50\<rparr>],
      sg_round = (\<lambda>ID. if ID = 5 then Some (Some single_win_round) else None)\<rparr>"

section \<open>Numbers\<close>

lemma toNumber_0 [simp]: "toNumber 0 = 0"
  by (simp add: toNumber_def)

lemma Big_number_eq_0_iff [simp]: "Big_number x = 0 \<longleftrightarrow> x = 0"
proof (cases "x = 0")
  case True
  then show ?thesis by (simp add: Big_number_def Number_toString_def)
next
  case False
  have "c \<noteq> 0" if "toNumber c = \<bar>x\<bar>" for c
    using that False by auto
  then have "sgn x * c \<noteq> 0"
    if "List.find (\<lambda>c. toNumber c = \<bar>x\<bar>) cs = Some c" for c cs
    using that False by (auto simp: find_Some_iff sgn_eq_0_iff)
  with False show ?thesis
    by (auto simp: Big_number_def Number_toString_def split: option.splits)
qed

lemma Big_number_num_or [simp]: "Big_number (num_or a 1) \<noteq> 0"
  by (simp add: num_or_def)

lemma double_sum_simps [simp]:
  "double_sum s [] = s"
  "double_sum s (v # vs) = double_sum (toNumber (s + v)) vs"
  by (simp_all add: double_sum_def)

lemma bitlength_pos: "0 < n \<Longrightarrow> 0 < bitlength n"
  by (subst bitlength.simps) simp

lemma bitlength_le: "n < 2 ^ k \<Longrightarrow> bitlength n \<le> k"
proof (induction k arbitrary: n)
  case 0
  then show ?case by (subst bitlength.simps) simp
next
  case (Suc k)
  have "n div 2 < 2 ^ k" using Suc.prems by auto
  from Suc.IH [OF this] show ?case by (subst bitlength.simps) simp
qed

lemma scale_nonpos: "e \<le> 0 \<Longrightarrow> scale b e = 1 / b ^ nat (- e)"
  by (cases "e = 0") (simp_all add: scale_def)

lemma round_half_even_int [simp]: "round_half_even (of_int m) = m"
  by (simp add: round_half_even_def)

lemma toNumber_of_nat:
  assumes "n < 2 ^ 53"
  shows "toNumber (of_nat n) = of_nat n"
proof (cases "n = 0")
  case True
  then show ?thesis by simp
next
  case False
  define e where "e = int (bitlength n) - 1"
  define k where "k = nat (52 - e)"
  have e: "0 \<le> e" "e \<le> 52"
    using bitlength_pos [of n] bitlength_le [OF assms] False by (simp_all add: e_def)
  have ex: "exponent2 (of_nat n) = e"
    using False by (simp add: exponent2_def e_def)
  have u: "scale 2 (e - 52) = 1 / 2 ^ k"
    using e by (simp add: scale_nonpos k_def)
  have q: "(of_nat n :: rat) / (1 / 2 ^ k) = of_int (int n * 2 ^ k)" by simp
  have m: "max e (- 1022) = e" using e by simp
  have "toNumber (of_nat n) =
        sgn (of_nat n) * of_int (round_half_even (\<bar>of_nat n\<bar> / scale 2 (max (exponent2 \<bar>of_nat n\<bar>) (- 1022) - 52)))
          * scale 2 (max (exponent2 \<bar>of_nat n\<bar>) (- 1022) - 52)"
    using False by (simp add: toNumber_def Let_def)
  also have "\<dots> = of_int (int n * 2 ^ k) * (1 / 2 ^ k)"
    unfolding abs_of_nat ex m u q round_half_even_int using False by simp
  finally have "toNumber (of_nat n) = of_int (int n * 2 ^ k) * (1 / 2 ^ k)" .
  then show ?thesis by simp
qed

lemma double_sum_of_nat:
  assumes "k + sum_list ns < 2 ^ 53"
  shows "double_sum (of_nat k) (map of_nat ns) = of_nat (k + sum_list ns)"
  using assms
proof (induction ns arbitrary: k)
  case Nil
  then show ?case by simp
next
  case (Cons n ns)
  have "toNumber (of_nat k + of_nat n) = of_nat (k + n)"
    using toNumber_of_nat [of "k + n"] Cons.prems by simp
  with Cons.IH [of "k + n"] Cons.prems show ?case by (simp add: add.assoc)
qed

lemma bitlength_numeral:
  "bitlength 0 = 0"
  "bitlength 1 = 1"
  "bitlength (Suc 0) = 1"
  "bitlength (numeral Num.One) = 1"
  "bitlength (numeral (Num.Bit0 n)) = 1 + bitlength (numeral n)"
  "bitlength (numeral (Num.Bit1 n)) = 1 + bitlength (numeral n)"
proof -
  show "bitlength 0 = 0" "bitlength 1 = 1" "bitlength (Suc 0) = 1" "bitlength (numeral Num.One) = 1"
    by (simp_all add: bitlength.simps)
  have "numeral (Num.Bit0 n) div 2 = (numeral n :: nat)" by simp
  then show "bitlength (numeral (Num.Bit0 n)) = 1 + bitlength (numeral n)"
    by (subst bitlength.simps) simp
  have "numeral (Num.Bit1 n) div 2 = (numeral n :: nat)" by simp
  then show "bitlength (numeral (Num.Bit1 n)) = 1 + bitlength (numeral n)"
    by (subst bitlength.simps) simp
qed

lemma ndigits_numeral:
  "n < 10 \<Longrightarrow> ndigits n = 1"
  "10 \<le> n \<Longrightarrow> ndigits n = 1 + ndigits (n div 10)"
  by (subst ndigits.simps, simp)+

lemma ceiling_rat_numeral:
  "\<lceil>numeral a / numeral b :: rat\<rceil> = - ((- numeral a) div numeral b)"
  unfolding ceiling_def
  by (metis floor_divide_of_int_eq of_int_minus of_int_numeral minus_divide_left)

lemma toNumber_numeral:
  "numeral k < (2::nat) ^ 53 \<Longrightarrow> toNumber (numeral k) = numeral k"
  "toNumber 1 = 1"
  using toNumber_of_nat [of "numeral k"] toNumber_of_nat [of 1] by simp_all

lemmas toNumber_eval = toNumber_def Let_def exponent2_def bitlength_numeral ceiling_rat_numeral
  scale_def round_half_even_def

lemma find_app:
  "List.find P (xs @ ys) = (case List.find P xs of None \<Rightarrow> List.find P ys | Some c \<Rightarrow> Some c)"
  by (induction xs) simp_all

lemma find_concat_upt:
  "i < j \<Longrightarrow>
   List.find P (concat (map f [i..<j])) =
     (case List.find P (f i) of
        None \<Rightarrow> List.find P (concat (map f [Suc i..<j]))
      | Some c \<Rightarrow> Some c)"
  by (simp add: upt_rec [of i j] find_app)

lemmas Big_number_eval = Big_number_def Number_toString_def find_concat_upt candidates_def
  exponent10_def scale_def Let_def ndigits_numeral ceiling_rat_numeral toNumber_numeral

section \<open>The matrix update, cell by cell\<close>

lemma getRaw_addr:
  "getRawLeaderboard d f = Some h \<Longrightarrow> h = Leaderboard d f \<or> (\<exists>c. h = PeriodicLeaderboard d f c)"
  by (auto simp: getRawLeaderboard_def split: option.splits if_splits)

lemma getLeaderboardAt_update [simp]:
  "getLeaderboardAt (AList.update k t ps) k' = (if k' = k then t else getLeaderboardAt ps k')"
  by (simp add: getLeaderboardAt_def update_conv')

lemma cellTable_updateCell:
  assumes "getRawLeaderboard d' f' = Some h"
  shows "cellTable kn (updateCell kn pol h i v st) d f =
         (if d = d' \<and> f = f' then table_update pol i v (cellTable kn st d f) else cellTable kn st d f)"
proof -
  from getRaw_addr [OF assms] show ?thesis
  proof
    assume h: "h = Leaderboard d' f'"
    show ?thesis
      using assms unfolding h
      by (auto simp: cellTable_def split: option.splits handle.splits dest: getRaw_addr)
  next
    assume "\<exists>c. h = PeriodicLeaderboard d' f' c"
    then obtain c where h: "h = PeriodicLeaderboard d' f' c" ..
    show ?thesis
      using assms unfolding h
      by (auto simp: cellTable_def split: option.splits handle.splits dest: getRaw_addr)
  qed
qed

lemma cellTable_updateEntry:
  "cellTable kn (updateEntry kn d' ft e st) d f =
     (if d = d' \<and> f = feat_name ft \<and> getRawLeaderboard d f \<noteq> None
      then applyEntry (updatePolicy ft) f e (cellTable kn st d f)
      else cellTable kn st d f)"
  by (auto simp: updateEntry_def applyEntry_def cellTable_updateCell split: option.splits)

lemma cellTable_fold_updateEntry_hit:
  assumes "getRawLeaderboard d (feat_name ft) \<noteq> None"
  shows "cellTable kn (fold (updateEntry kn d ft) es st) d (feat_name ft) =
         fold (applyEntry (updatePolicy ft) (feat_name ft)) es (cellTable kn st d (feat_name ft))"
  using assms by (induction es arbitrary: st) (auto simp add: cellTable_updateEntry)

lemma cellTable_fold_updateEntry_miss:
  assumes "\<not> (d = d' \<and> f = feat_name ft \<and> getRawLeaderboard d f \<noteq> None)"
  shows "cellTable kn (fold (updateEntry kn d' ft) es st) d f = cellTable kn st d f"
  using assms by (induction es arbitrary: st) (auto simp add: cellTable_updateEntry)

lemma cellTable_fold_updateEntry:
  "cellTable kn (fold (updateEntry kn d' ft) es st) d f =
     (if d = d' \<and> f = feat_name ft \<and> getRawLeaderboard d f \<noteq> None
      then fold (applyEntry (updatePolicy ft) f) es (cellTable kn st d f)
      else cellTable kn st d f)"
  using cellTable_fold_updateEntry_hit [of d ft kn es st]
        cellTable_fold_updateEntry_miss [of d d' f ft kn es st]
  by (cases "d = d' \<and> f = feat_name ft \<and> getRawLeaderboard d f \<noteq> None") auto

lemma cellTable_fold_features:
  "cellTable kn (fold (\<lambda>ft. fold (updateEntry kn d' ft) es) fs st) d f =
     (if d = d' \<and> getRawLeaderboard d f \<noteq> None
      then fold (\<lambda>ft t. if feat_name ft = f then fold (applyEntry (updatePolicy ft) f) es t else t)
             fs (cellTable kn st d f)
      else cellTable kn st d f)"
proof (cases "d = d' \<and> getRawLeaderboard d f \<noteq> None")
  case True
  then show ?thesis
    by (induction fs arbitrary: st) (auto simp add: cellTable_fold_updateEntry)
next
  case False
  then show ?thesis
    by (induction fs arbitrary: st) (auto simp add: cellTable_fold_updateEntry)
qed

lemma cellTable_matrix_update:
  "cellTable kn (matrix_update kn es ds st) d f =
     fold (\<lambda>d' t. if d' = d \<and> getRawLeaderboard d f \<noteq> None
                   then fold (\<lambda>ft t. if feat_name ft = f
                                      then fold (applyEntry (updatePolicy ft) f) es t else t)
                          features t
                   else t)
       ds (cellTable kn st d f)"
  unfolding matrix_update_def
proof (induction ds arbitrary: st)
  case Nil
  show ?case by simp
next
  case (Cons d' ds)
  show ?case
    by (cases "d' = d \<and> getRawLeaderboard d f \<noteq> None")
       (auto simp add: Cons.IH cellTable_fold_features)
qed

lemma fold_frame:
  assumes "\<And>x s. x \<in> set xs \<Longrightarrow> g (f x s) = g s"
  shows "g (fold f xs s) = g s"
  using assms by (induction xs arbitrary: s) simp_all

lemma fold_if_eq:
  assumes "distinct ds"
  shows "fold (\<lambda>d' t. if d' = d \<and> P then H t else t) ds t = (if d \<in> set ds \<and> P then H t else t)"
  using assms
proof (induction ds arbitrary: t)
  case Nil
  show ?case by simp
next
  case (Cons a ds)
  then have "a \<noteq> d \<Longrightarrow> ?case" by simp
  moreover have "a = d \<Longrightarrow> ?case"
  proof -
    assume a: "a = d"
    with Cons.prems have "d \<notin> set ds" by simp
    then have "fold (\<lambda>d' t. if d' = d \<and> P then H t else t) ds u = u" for u
      by (intro fold_frame [where g = "\<lambda>x. x"]) auto
    with a show ?case by simp
  qed
  ultimately show ?case by blast
qed

lemma fold_if_name:
  assumes "distinct (map feat_name fs)"
  shows "fold (\<lambda>ft t. if feat_name ft = f then G ft t else t) fs t =
         (case List.find (\<lambda>ft. feat_name ft = f) fs of None \<Rightarrow> t | Some ft \<Rightarrow> G ft t)"
  using assms
proof (induction fs arbitrary: t)
  case Nil
  show ?case by simp
next
  case (Cons a fs)
  show ?case
  proof (cases "feat_name a = f")
    case False
    with Cons show ?thesis by simp
  next
    case True
    from Cons.prems have "feat_name a \<notin> feat_name ` set fs" by simp
    with True have "\<forall>ft \<in> set fs. feat_name ft \<noteq> f" by blast
    then have "fold (\<lambda>ft t. if feat_name ft = f then G ft t else t) fs u = u" for u
      by (intro fold_frame [where g = "\<lambda>x. x"]) auto
    with True show ?thesis by simp
  qed
qed

lemma distinct_feature_names: "distinct (map feat_name features)"
  by (simp add: features_def)

lemma distinct_dimension_names: "distinct (map dim_name dimensions)"
  by (simp add: dimensions_def)

lemma find_SomeD: "List.find P xs = Some x \<Longrightarrow> x \<in> set xs \<and> P x"
  by (induction xs) (auto split: if_splits)

lemma getRaw_None_iff:
  "getRawLeaderboard d f = None \<longleftrightarrow>
     d \<notin> set (map dim_name dimensions) \<or> f \<notin> set (map feat_name features)"
  by (auto simp: getRawLeaderboard_def find_None_iff split: option.splits dest: find_SomeD)

lemma cellTable_matrix_update_in:
  assumes "distinct ds" and "d \<in> set ds" and "d \<in> set (map dim_name dimensions)"
    and "List.find (\<lambda>ft. feat_name ft = f) features = Some ft"
  shows "cellTable kn (matrix_update kn es ds st) d f =
         fold (applyEntry (updatePolicy ft) f) es (cellTable kn st d f)"
proof -
  from assms(4) have "f \<in> set (map feat_name features)"
    by (auto dest: find_SomeD)
  with assms(3) have "getRawLeaderboard d f \<noteq> None"
    by (simp add: getRaw_None_iff)
  with assms show ?thesis
    by (simp add: cellTable_matrix_update fold_if_eq [where P = True, simplified]
          fold_if_name distinct_feature_names)
qed

lemma cellTable_matrix_update_out:
  assumes "d \<notin> set ds \<or> List.find (\<lambda>ft. feat_name ft = f) features = None"
  shows "cellTable kn (matrix_update kn es ds st) d f = cellTable kn st d f"
proof -
  have "fold (\<lambda>d' t. if d' = d \<and> getRawLeaderboard d f \<noteq> None
                   then fold (\<lambda>ft t. if feat_name ft = f
                                      then fold (applyEntry (updatePolicy ft) f) es t else t)
                          features t
                   else t) ds t = t" for t
    using assms
    by (intro fold_frame [where g = "\<lambda>x. x"])
       (auto simp: fold_if_name distinct_feature_names)
  then show ?thesis by (simp add: cellTable_matrix_update)
qed

lemma updateCell_frame [simp]:
  "currentRound (updateCell kn pol h i v st) = currentRound st"
  "trace (updateCell kn pol h i v st) = trace st"
  by (cases h; simp)+

lemma updateEntry_frame [simp]:
  "currentRound (updateEntry kn d ft e st) = currentRound st"
  "trace (updateEntry kn d ft e st) = trace st"
  by (simp_all add: updateEntry_def split: option.splits)

lemma matrix_update_frame [simp]:
  "currentRound (matrix_update kn es ds st) = currentRound st"
  "trace (matrix_update kn es ds st) = trace st"
  unfolding matrix_update_def
  by (intro fold_frame; simp)+

lemma updateEntry_raw_frame:
  assumes "map_of (entry_values e) f = None \<or> feat_name ft \<noteq> f"
  shows "boards (updateEntry kn d ft e st) (d0, f) = boards st (d0, f)"
    and "periodic (updateEntry kn d ft e st) (d0, f) = periodic st (d0, f)"
  using assms
  by (auto simp: updateEntry_def split: option.splits dest!: getRaw_addr)

lemma matrix_update_raw_frame:
  assumes "\<forall>e \<in> set es. map_of (entry_values e) f = None"
  shows "boards (matrix_update kn es ds st) (d0, f) = boards st (d0, f)"
    and "periodic (matrix_update kn es ds st) (d0, f) = periodic st (d0, f)"
  unfolding matrix_update_def using assms
  by (intro fold_frame; simp add: updateEntry_raw_frame)+

lemma map_err_Inr:
  assumes "\<And>x. x \<in> set xs \<Longrightarrow> f x = Inr (g x)"
  shows "map_err f xs = Inr (map g xs)"
  using assms by (induction xs) simp_all

lemma map_err_Inl:
  assumes "x \<in> set xs" and "f x = Inl e" and "\<And>y. y \<in> set xs \<Longrightarrow> f y = Inl e \<or> (\<exists>z. f y = Inr z)"
  shows "map_err f xs = Inl e"
  using assms
proof (induction xs)
  case Nil
  then show ?case by simp
next
  case (Cons a xs)
  show ?case
  proof (cases "f a")
    case (Inl e')
    with Cons.prems(3) [of a] show ?thesis by simp
  next
    case (Inr z)
    with Cons.prems have "x \<in> set xs" by auto
    with Cons have "map_err f xs = Inl e" by simp
    with Inr show ?thesis by simp
  qed
qed

lemma map_err_InrD:
  "map_err f xs = Inr ys \<Longrightarrow> list_all2 (\<lambda>x y. f x = Inr y) xs ys"
  by (induction xs arbitrary: ys) (auto split: sum.splits)

lemma fold_applyEntry_absent:
  assumes "\<forall>e \<in> set es. map_of (entry_values e) f = None"
  shows "fold (applyEntry pol f) es t = t"
  using assms by (intro fold_frame [where g = "\<lambda>x. x"]) (simp add: applyEntry_def)

lemma fold_replace:
  assumes "\<And>b. b \<in> set bs \<Longrightarrow>
             entry_id (E b) = bet_user b \<and> map_of (entry_values (E b)) f = Some (v (bet_user b))"
  shows "fold (applyEntry replace f) (map E bs) t =
         (\<lambda>x. if x \<in> bet_user ` set bs then Some (v x) else t x)"
  using assms
proof (induction bs arbitrary: t)
  case Nil
  show ?case by simp
next
  case (Cons b bs)
  have "applyEntry replace f (E b) t = t(bet_user b \<mapsto> v (bet_user b))"
    using Cons.prems [of b] by (simp add: applyEntry_def)
  moreover have "fold (applyEntry replace f) (map E bs) u =
         (\<lambda>x. if x \<in> bet_user ` set bs then Some (v x) else u x)" for u
    using Cons.prems by (intro Cons.IH) simp
  ultimately show ?case by (auto simp: fun_eq_iff)
qed

lemma fold_aggregate:
  assumes "\<And>b. b \<in> set bs \<Longrightarrow>
             entry_id (E b) = bet_user b \<and> map_of (entry_values (E b)) f = Some (c b)"
  shows "fold (applyEntry aggregate f) (map E bs) t x =
         (if x \<in> bet_user ` set bs
          then Some (double_sum (case t x of None \<Rightarrow> 0 | Some s \<Rightarrow> s)
                       (map c (filter (\<lambda>b. bet_user b = x) bs)))
          else t x)"
  using assms
proof (induction bs arbitrary: t)
  case Nil
  show ?case by simp
next
  case (Cons b bs)
  define u where "u = t(bet_user b \<mapsto> toNumber ((case t (bet_user b) of None \<Rightarrow> 0 | Some s \<Rightarrow> s) + c b))"
  have step: "applyEntry aggregate f (E b) t = u"
    using Cons.prems [of b] by (simp add: applyEntry_def u_def)
  have rest: "fold (applyEntry aggregate f) (map E bs) u x =
         (if x \<in> bet_user ` set bs
          then Some (double_sum (case u x of None \<Rightarrow> 0 | Some s \<Rightarrow> s)
                       (map c (filter (\<lambda>b. bet_user b = x) bs)))
          else u x)"
    using Cons.prems by (intro Cons.IH) simp
  have none: "filter (\<lambda>b. bet_user b = x) bs = []" if "x \<notin> bet_user ` set bs"
    using that by (auto simp: filter_empty_conv)
  show ?case
    by (simp add: step rest) (auto simp: u_def none)
qed

lemma num_or_1_nonzero [simp]: "num_or a 1 \<noteq> 0"
  by (simp add: num_or_def)

lemma getRaw_world:
  "f \<in> set (map feat_name features) \<Longrightarrow> getRawLeaderboard ''world'' f = Some (Leaderboard ''world'' f)"
  by (simp add: getRawLeaderboard_def dimensions_def)

lemma getRaw_cyclic:
  "dd \<in> set dimensions \<Longrightarrow> dim_cycle dd = Some c \<Longrightarrow> f \<in> set (map feat_name features) \<Longrightarrow>
   getRawLeaderboard (dim_name dd) f = Some (PeriodicLeaderboard (dim_name dd) f c)"
  by (auto simp: getRawLeaderboard_def dimensions_def)

lemma dimension_cases:
  "dd \<in> set dimensions \<Longrightarrow>
   (dim_name dd = ''world'' \<and> dim_cycle dd = None) \<or>
   (dim_name dd \<noteq> ''world'' \<and> (\<exists>c. dim_cycle dd = Some c))"
  by (auto simp: dimensions_def)

lemma Leaderboard_find_cell:
  "getRawLeaderboard d f = Some (Leaderboard d f) \<Longrightarrow>
   Leaderboard_find st (getRawLeaderboard d f) i = Inr (cellFind kn st d f i)"
  by (simp add: Leaderboard_find_def cellFind_def cellTable_def)

lemma LeaderboardNow_find_cell:
  "getRawLeaderboard d f = Some (PeriodicLeaderboard d f c) \<Longrightarrow>
   LeaderboardNow_find kn st (getRawLeaderboard d f) i = Inr (cellFind kn st d f i)"
  by (simp add: LeaderboardNow_find_def cellFind_def cellTable_def)

lemma feature_names [simp]:
  "''winnings'' \<in> feat_name ` set features"
  "''total_bet'' \<in> feat_name ` set features"
  "''amount_played'' \<in> feat_name ` set features"
  by (simp_all add: features_def)

lemma derivedEntry_eq:
  assumes "dd \<in> set dimensions"
  shows "derivedEntry kn st dd b =
         Inr \<lparr>entry_id = bet_user b,
              entry_values =
                [(''winrate'', derived_winrate kn st (dim_name dd) (bet_user b)),
                 (''avg_bet'', derived_avg_bet kn st (dim_name dd) (bet_user b))]\<rparr>"
proof -
  from dimension_cases [OF assms] show ?thesis
  proof
    assume w: "dim_name dd = ''world'' \<and> dim_cycle dd = None"
    have "Leaderboard_find st (getRawLeaderboard ''world'' ''winnings'') (bet_user b) =
          Inr (cellFind kn st ''world'' ''winnings'' (bet_user b))"
      by (intro Leaderboard_find_cell getRaw_world) simp
    with w show ?thesis
      by (simp add: derivedEntry_def derived_winrate_def derived_avg_bet_def Big_div_def Let_def)
  next
    assume "dim_name dd \<noteq> ''world'' \<and> (\<exists>c. dim_cycle dd = Some c)"
    then obtain c where nw: "dim_name dd \<noteq> ''world''" and c: "dim_cycle dd = Some c" by blast
    have "LeaderboardNow_find kn st (getRawLeaderboard (dim_name dd) f) (bet_user b) =
          Inr (cellFind kn st (dim_name dd) f (bet_user b))"
      if "f \<in> set (map feat_name features)" for f
      by (rule LeaderboardNow_find_cell [OF getRaw_cyclic [OF assms c that]])
    with nw show ?thesis
      by (simp add: derivedEntry_def derived_winrate_def derived_avg_bet_def Big_div_def Let_def)
  qed
qed

lemma derivedEntry_keys:
  assumes "derivedEntry kn st dd b = Inr e" and "f \<noteq> ''winrate''" and "f \<noteq> ''avg_bet''"
  shows "map_of (entry_values e) f = None"
  using assms
  by (auto simp: derivedEntry_def Let_def split: sum.splits if_splits)

lemma linearEntry_keys:
  assumes "linearEntry bp brp p b = Inr e"
  shows "map_of (entry_values e) ''winnings_even_money'' = None"
  using assms
  by (auto simp: linearEntry_def split: sum.splits)

lemma cellTable_cong:
  "boards st2 = boards st \<Longrightarrow> periodic st2 = periodic st \<Longrightarrow> cellTable kn st2 d f = cellTable kn st d f"
  by (simp add: cellTable_def split: option.splits handle.splits)

lemma cellTable_emit [simp]: "cellTable kn (emit e st) d f = cellTable kn st d f"
  by (rule cellTable_cong) (simp_all add: emit_def)

lemma cellTable_setCurrentRound [simp]: "cellTable kn (setCurrentRound n st) d f = cellTable kn st d f"
  by (rule cellTable_cong) (simp_all add: emit_def setCurrentRound_def)

lemma derived_cong:
  assumes "\<And>f. f \<noteq> ''winrate'' \<Longrightarrow> f \<noteq> ''avg_bet'' \<Longrightarrow> cellTable kn st2 d f = cellTable kn st d f"
  shows "derived_winrate kn st2 d x = derived_winrate kn st d x"
    and "derived_avg_bet kn st2 d x = derived_avg_bet kn st d x"
  by (simp_all add: derived_winrate_def derived_avg_bet_def cellFind_def assms)

lemma find_winrate:
  "List.find (\<lambda>ft. feat_name ft = ''winrate'') features =
     Some \<lparr>feat_name = ''winrate'', updatePolicy = replace, limitTopN = 500\<rparr>"
  by (simp add: features_def)

lemma find_avg_bet:
  "List.find (\<lambda>ft. feat_name ft = ''avg_bet'') features =
     Some \<lparr>feat_name = ''avg_bet'', updatePolicy = replace, limitTopN = 500\<rparr>"
  by (simp add: features_def)

lemma cellTable_derived_step:
  assumes "dd \<in> set dimensions"
  shows "cellTable kn (leaderboard_update kn (map (derived_of kn st (dim_name dd)) bets) [dim_name dd] st) d f =
     (if d = dim_name dd \<and> f = ''winrate''
      then (\<lambda>x. if x \<in> bet_user ` set bets then Some (derived_winrate kn st d x)
                else cellTable kn st d f x)
      else if d = dim_name dd \<and> f = ''avg_bet''
      then (\<lambda>x. if x \<in> bet_user ` set bets then Some (derived_avg_bet kn st d x)
                else cellTable kn st d f x)
      else cellTable kn st d f)"
proof -
  let ?es = "map (derived_of kn st (dim_name dd)) bets"
  have dim: "dim_name dd \<in> set (map dim_name dimensions)"
    using assms by simp
  consider (out) "d \<noteq> dim_name dd"
    | (wr) "d = dim_name dd" "f = ''winrate''"
    | (ab) "d = dim_name dd" "f = ''avg_bet''"
    | (other) "d = dim_name dd" "f \<noteq> ''winrate''" "f \<noteq> ''avg_bet''"
    by blast
  then show ?thesis
  proof cases
    case out
    then show ?thesis
      by (simp add: leaderboard_update_def cellTable_matrix_update_out)
  next
    case wr
    have "cellTable kn (matrix_update kn ?es [d] (emit (Matrix_update ?es [d]) st)) d ''winrate'' =
          fold (applyEntry replace ''winrate'') ?es (cellTable kn st d ''winrate'')"
      using dim wr by (subst cellTable_matrix_update_in [OF _ _ _ find_winrate]) simp_all
    also have "\<dots> = (\<lambda>x. if x \<in> bet_user ` set bets then Some (derived_winrate kn st d x)
                else cellTable kn st d ''winrate'' x)"
      using wr by (intro fold_replace) (simp add: derived_of_def)
    finally show ?thesis unfolding wr by (simp add: leaderboard_update_def)
  next
    case ab
    have "cellTable kn (matrix_update kn ?es [d] (emit (Matrix_update ?es [d]) st)) d ''avg_bet'' =
          fold (applyEntry replace ''avg_bet'') ?es (cellTable kn st d ''avg_bet'')"
      using dim ab by (subst cellTable_matrix_update_in [OF _ _ _ find_avg_bet]) simp_all
    also have "\<dots> = (\<lambda>x. if x \<in> bet_user ` set bets then Some (derived_avg_bet kn st d x)
                else cellTable kn st d ''avg_bet'' x)"
      using ab by (intro fold_replace) (simp add: derived_of_def)
    finally show ?thesis unfolding ab by (simp add: leaderboard_update_def)
  next
    case other
    have absent: "\<forall>e \<in> set ?es. map_of (entry_values e) f = None"
      using other by (auto simp: derived_of_def)
    show ?thesis
    proof (cases "List.find (\<lambda>ft. feat_name ft = f) features")
      case None
      then show ?thesis using other
        by (simp add: leaderboard_update_def cellTable_matrix_update_out)
    next
      case (Some ft)
      have "cellTable kn (matrix_update kn ?es [d] (emit (Matrix_update ?es [d]) st)) d f =
          fold (applyEntry (updatePolicy ft) f) ?es (cellTable kn st d f)"
        using dim other by (subst cellTable_matrix_update_in [OF _ _ _ Some]) simp_all
      also have "\<dots> = cellTable kn st d f"
        using absent by (rule fold_applyEntry_absent)
      finally show ?thesis using other by (simp add: leaderboard_update_def)
    qed
  qed
qed

lemma leaderboard_update_frame [simp]:
  "currentRound (leaderboard_update kn es ds st) = currentRound st"
  "trace (leaderboard_update kn es ds st) = trace st @ [Matrix_update es ds]"
  by (simp_all add: leaderboard_update_def emit_def)

lemma derivedMetrics_step:
  assumes "dd \<in> set dimensions"
  shows "derivedMetrics kn bets (dd # ds) st =
         derivedMetrics kn bets ds
           (leaderboard_update kn (map (derived_of kn st (dim_name dd)) bets) [dim_name dd] st)"
proof -
  have "map_err (derivedEntry kn st dd) bets = Inr (map (derived_of kn st (dim_name dd)) bets)"
    by (intro map_err_Inr) (simp add: derivedEntry_eq [OF assms] derived_of_def)
  then show ?thesis by simp
qed

lemma derivedMetrics_cells:
  assumes "set ds \<subseteq> set dimensions" and "distinct (map dim_name ds)"
  shows "snd (derivedMetrics kn bets ds st) = None \<and>
         currentRound (fst (derivedMetrics kn bets ds st)) = currentRound st \<and>
         (\<forall>d f. cellTable kn (fst (derivedMetrics kn bets ds st)) d f =
            (if d \<in> dim_name ` set ds \<and> f = ''winrate''
             then (\<lambda>x. if x \<in> bet_user ` set bets then Some (derived_winrate kn st d x)
                       else cellTable kn st d f x)
             else if d \<in> dim_name ` set ds \<and> f = ''avg_bet''
             then (\<lambda>x. if x \<in> bet_user ` set bets then Some (derived_avg_bet kn st d x)
                       else cellTable kn st d f x)
             else cellTable kn st d f))"
  using assms
proof (induction ds arbitrary: st)
  case Nil
  show ?case by simp
next
  case (Cons dd ds)
  define st2 where
    "st2 = leaderboard_update kn (map (derived_of kn st (dim_name dd)) bets) [dim_name dd] st"
  from Cons.prems have dd: "dd \<in> set dimensions" and sub: "set ds \<subseteq> set dimensions"
    and dist: "distinct (map dim_name ds)" and fresh: "dim_name dd \<notin> dim_name ` set ds"
    by auto
  have step: "derivedMetrics kn bets (dd # ds) st = derivedMetrics kn bets ds st2"
    unfolding st2_def by (rule derivedMetrics_step [OF dd])
  have cells2: "cellTable kn st2 d f =
     (if d = dim_name dd \<and> f = ''winrate''
      then (\<lambda>x. if x \<in> bet_user ` set bets then Some (derived_winrate kn st d x)
                else cellTable kn st d f x)
      else if d = dim_name dd \<and> f = ''avg_bet''
      then (\<lambda>x. if x \<in> bet_user ` set bets then Some (derived_avg_bet kn st d x)
                else cellTable kn st d f x)
      else cellTable kn st d f)" for d f
    unfolding st2_def by (rule cellTable_derived_step [OF dd])
  have same: "derived_winrate kn st2 d x = derived_winrate kn st d x"
             "derived_avg_bet kn st2 d x = derived_avg_bet kn st d x" for d x
    by (rule derived_cong; simp add: cells2)+
  have cur2: "currentRound st2 = currentRound st"
    by (simp add: st2_def)
  from Cons.IH [OF sub dist, of st2]
  have IH: "snd (derivedMetrics kn bets ds st2) = None"
    "currentRound (fst (derivedMetrics kn bets ds st2)) = currentRound st2"
    "\<And>d f. cellTable kn (fst (derivedMetrics kn bets ds st2)) d f =
            (if d \<in> dim_name ` set ds \<and> f = ''winrate''
             then (\<lambda>x. if x \<in> bet_user ` set bets then Some (derived_winrate kn st2 d x)
                       else cellTable kn st2 d f x)
             else if d \<in> dim_name ` set ds \<and> f = ''avg_bet''
             then (\<lambda>x. if x \<in> bet_user ` set bets then Some (derived_avg_bet kn st2 d x)
                       else cellTable kn st2 d f x)
             else cellTable kn st2 d f)"
    by blast+
  have cellsF: "cellTable kn (fst (derivedMetrics kn bets ds st2)) d f =
            (if d \<in> dim_name ` set (dd # ds) \<and> f = ''winrate''
             then (\<lambda>x. if x \<in> bet_user ` set bets then Some (derived_winrate kn st d x)
                       else cellTable kn st d f x)
             else if d \<in> dim_name ` set (dd # ds) \<and> f = ''avg_bet''
             then (\<lambda>x. if x \<in> bet_user ` set bets then Some (derived_avg_bet kn st d x)
                       else cellTable kn st d f x)
             else cellTable kn st d f)" for d f
  proof (cases "d \<in> dim_name ` set ds")
    case True
    with fresh have "d \<noteq> dim_name dd" by blast
    with True show ?thesis
      by (simp add: IH(3) same cells2 cong: if_cong)
  next
    case False
    then show ?thesis
      by (simp add: IH(3) cells2 cong: if_cong)
  qed
  show ?case
    unfolding step
  proof (intro conjI allI)
    show "snd (derivedMetrics kn bets ds st2) = None" by (rule IH(1))
    show "currentRound (fst (derivedMetrics kn bets ds st2)) = currentRound st"
      by (simp add: IH(2) cur2)
    show "cellTable kn (fst (derivedMetrics kn bets ds st2)) d f =
            (if d \<in> dim_name ` set (dd # ds) \<and> f = ''winrate''
             then (\<lambda>x. if x \<in> bet_user ` set bets then Some (derived_winrate kn st d x)
                       else cellTable kn st d f x)
             else if d \<in> dim_name ` set (dd # ds) \<and> f = ''avg_bet''
             then (\<lambda>x. if x \<in> bet_user ` set bets then Some (derived_avg_bet kn st d x)
                       else cellTable kn st d f x)
             else cellTable kn st d f)" for d f
      by (rule cellsF)
  qed
qed

lemma fold_clear:
  "fold (\<lambda>key s. if key \<noteq> k0 then clear d f key s else s) ks s =
     s\<lparr>periodic := (periodic s)((d, f) :=
          filter (\<lambda>p. fst p = k0 \<or> fst p \<notin> set ks) (periodic s (d, f))),
       trace := trace s @ map (Clear d f) (filter (\<lambda>k. k \<noteq> k0) ks)\<rparr>"
proof (induction ks arbitrary: s)
  case Nil
  show ?case by simp
next
  case (Cons key ks)
  show ?case
  proof (cases "key = k0")
    case True
    have eq: "filter (\<lambda>p. fst p = k0 \<or> fst p \<notin> set (key # ks)) ps =
              filter (\<lambda>p. fst p = k0 \<or> fst p \<notin> set ks) ps" for ps :: "(string \<times> table) list"
      using True by (auto intro: filter_cong)
    show ?thesis
      unfolding eq using True by (simp add: Cons.IH)
  next
    case False
    have eq: "filter (\<lambda>p. fst p = k0 \<or> fst p \<notin> set (key # ks)) ps =
              filter (\<lambda>p. fst p = k0 \<or> fst p \<notin> set ks) (AList.delete key ps)"
      for ps :: "(string \<times> table) list"
      using False by (auto simp: AList.delete_eq intro: filter_cong)
    have "fold (\<lambda>key s. if key \<noteq> k0 then clear d f key s else s) (key # ks) s =
          fold (\<lambda>key s. if key \<noteq> k0 then clear d f key s else s) ks (clear d f key s)"
      using False by simp
    also have "\<dots> = (clear d f key s)\<lparr>periodic := (periodic (clear d f key s))((d, f) :=
          filter (\<lambda>p. fst p = k0 \<or> fst p \<notin> set ks) (periodic (clear d f key s) (d, f))),
       trace := trace (clear d f key s) @ map (Clear d f) (filter (\<lambda>k. k \<noteq> k0) ks)\<rparr>"
      by (rule Cons.IH)
    finally have mid: "fold (\<lambda>key s. if key \<noteq> k0 then clear d f key s else s) (key # ks) s =
        (clear d f key s)\<lparr>periodic := (periodic (clear d f key s))((d, f) :=
          filter (\<lambda>p. fst p = k0 \<or> fst p \<notin> set ks) (periodic (clear d f key s) (d, f))),
       trace := trace (clear d f key s) @ map (Clear d f) (filter (\<lambda>k. k \<noteq> k0) ks)\<rparr>" .
    show ?thesis
      unfolding mid eq using False by (simp add: clear_def emit_def fun_upd_def cong: if_cong)
  qed
qed

lemma filter_existing:
  "filter (\<lambda>p. fst p = k0 \<or> fst p \<notin> set (getExistingKeys ps)) ps = filter (\<lambda>p. fst p = k0) ps"
  by (auto simp: getExistingKeys_def intro: filter_cong)

lemma deleteOld_cell_eq:
  assumes "getRawLeaderboard d f = Some (PeriodicLeaderboard d f c)"
  shows "deleteOld_cell kn d f st =
         Inr (st\<lparr>periodic := (periodic st)((d, f) := filter (\<lambda>p. fst p = kn c) (periodic st (d, f))),
                 trace := trace st @ Existing_keys d f
                    # map (Clear d f) (filter (\<lambda>k. k \<noteq> kn c) (getExistingKeys (periodic st (d, f))))\<rparr>)"
  by (simp add: deleteOld_cell_def assms fold_clear emit_def filter_existing)

lemma getRaw_amount_played:
  "getRawLeaderboard ''best-month'' ''amount_played'' = Some (PeriodicLeaderboard ''best-month'' ''amount_played'' monthly)"
  "getRawLeaderboard ''best-week'' ''amount_played'' = Some (PeriodicLeaderboard ''best-week'' ''amount_played'' weekly)"
  "getRawLeaderboard ''best-day'' ''amount_played'' = Some (PeriodicLeaderboard ''best-day'' ''amount_played'' daily)"
  "getRawLeaderboard ''best-hour'' ''amount_played'' = Some (PeriodicLeaderboard ''best-hour'' ''amount_played'' hourly)"
  by (simp_all add: getRawLeaderboard_def dimensions_def features_def)

lemma cycle_of_simps:
  "cycle_of ''best-month'' = Some monthly"
  "cycle_of ''best-week'' = Some weekly"
  "cycle_of ''best-day'' = Some daily"
  "cycle_of ''best-hour'' = Some hourly"
  "cycle_of ''world'' = None"
  by (simp_all add: cycle_of_def dimensions_def)

lemma cycle_of_cases:
  "cycle_of d = Some c \<Longrightarrow>
     (d, c) \<in> {(''best-month'', monthly), (''best-week'', weekly), (''best-day'', daily), (''best-hour'', hourly)}"
  by (auto simp: cycle_of_def dimensions_def split: if_splits)

lemma deleteOld_eq: "deleteOld kn st = Inr (swept kn st)"
proof -
  have "periodic (swept kn st) = (periodic st)
          ((''best-month'', ''amount_played'') := filter (\<lambda>p. fst p = kn monthly) (periodic st (''best-month'', ''amount_played'')),
           (''best-week'', ''amount_played'') := filter (\<lambda>p. fst p = kn weekly) (periodic st (''best-week'', ''amount_played'')),
           (''best-day'', ''amount_played'') := filter (\<lambda>p. fst p = kn daily) (periodic st (''best-day'', ''amount_played'')),
           (''best-hour'', ''amount_played'') := filter (\<lambda>p. fst p = kn hourly) (periodic st (''best-hour'', ''amount_played'')))"
    (is "_ = ?P")
  proof (rule ext)
    fix a :: "string \<times> string"
    obtain d f where a: "a = (d, f)" by (cases a)
    show "periodic (swept kn st) a = ?P a"
    proof (cases "f = ''amount_played''")
      case False
      with a show ?thesis by (simp add: swept_def)
    next
      case True
      show ?thesis
      proof (cases "cycle_of d")
        case None
        then have "d \<noteq> ''best-month''" "d \<noteq> ''best-week''" "d \<noteq> ''best-day''" "d \<noteq> ''best-hour''"
          by (auto simp: cycle_of_simps)
        with a True None show ?thesis by (simp add: swept_def)
      next
        case (Some c)
        from cycle_of_cases [OF Some] a True Some show ?thesis
          by (auto simp: swept_def)
      qed
    qed
  qed
  then have "swept kn st = st\<lparr>periodic := ?P, trace := trace st @ sweep_trace kn st\<rparr>"
    by (simp add: swept_def)
  then show ?thesis
    by (simp add: deleteOld_def deleteOld_cell_eq getRaw_amount_played sweep_trace_def sweep_events_def)
qed

lemma swept_simps [simp]:
  "boards (swept kn st) = boards st"
  "currentRound (swept kn st) = currentRound st"
  "trace (swept kn st) = trace st @ sweep_trace kn st"
  by (simp_all add: swept_def)

lemma periodic_swept:
  "periodic (swept kn st) (d, f) =
     (if f = ''amount_played''
      then (case cycle_of d of
              None \<Rightarrow> periodic st (d, f)
            | Some c \<Rightarrow> filter (\<lambda>p. fst p = kn c) (periodic st (d, f)))
      else periodic st (d, f))"
  by (simp add: swept_def)

lemma map_of_filter_key: "map_of (filter (\<lambda>p. fst p = k) ps) k = map_of ps k"
  by (induction ps) auto

lemma getLeaderboardAt_filter [simp]:
  "getLeaderboardAt (filter (\<lambda>p. fst p = k) ps) k = getLeaderboardAt ps k"
  by (simp add: getLeaderboardAt_def map_of_filter_key)

lemma getRaw_cycle_of:
  "getRawLeaderboard d f = Some (PeriodicLeaderboard d' f' c) \<Longrightarrow> cycle_of d = Some c \<and> d' = d \<and> f' = f"
  by (auto simp: getRawLeaderboard_def cycle_of_def split: option.splits if_splits)

lemma cellTable_swept [simp]: "cellTable kn (swept kn st) d f = cellTable kn st d f"
proof (cases "getRawLeaderboard d f")
  case None
  then show ?thesis by (simp add: cellTable_def)
next
  case (Some h)
  show ?thesis
  proof (cases h)
    case (Leaderboard d' f')
    with Some show ?thesis by (simp add: cellTable_def)
  next
    case (PeriodicLeaderboard d' f' c)
    with Some getRaw_cycle_of [of d f d' f' c] show ?thesis
      by (simp add: cellTable_def periodic_swept)
  qed
qed

lemma getCurrentRound_present:
  "currentRound st = Some P \<Longrightarrow> getCurrentRound env st = (emit Redis_get st, Inr P)"
  by (simp add: getCurrentRound_def emit_def)

lemma getCurrentRound_seed:
  "currentRound st = None \<Longrightarrow> query_rounds env 10 = Some rs \<Longrightarrow> 1 < length rs \<Longrightarrow>
   getCurrentRound env st =
     (setCurrentRound (epoch (rs ! 1)) (emit (Query_rounds 10) (emit Redis_get st)),
      Inr (epoch (rs ! 1)))"
  by (simp add: getCurrentRound_def fetchLatestRound_def emit_def Let_def)

lemma getCurrentRound_fail:
  "currentRound st = None \<Longrightarrow>
   \<not> (\<exists>rs. query_rounds env 10 = Some rs \<and> 1 < length rs) \<Longrightarrow>
   getCurrentRound env st = (emit (Query_rounds 10) (emit Redis_get st), Inl NoRoundsFound)"
  by (auto simp add: getCurrentRound_def fetchLatestRound_def emit_def Let_def split: option.splits)

lemma populateLeaderboard_unfold:
  "\<not> READ_ONLY env \<Longrightarrow>
   populateLeaderboard env st =
     (case getCurrentRound env (swept (keyNow env) st) of
        (st2, Inl e) \<Rightarrow> (st2, Some e)
      | (st2, Inr current) \<Rightarrow>
          (case fetchRound env current st2 of
             (st3, None) \<Rightarrow> (st3, Some NoRoundData)
           | (st3, Some None) \<Rightarrow> (st3, Some TypeError)
           | (st3, Some (Some r)) \<Rightarrow> processRound (keyNow env) current r st3))"
  by (simp add: populateLeaderboard_def deleteOld_eq)

lemma populateLeaderboard_present:
  assumes "\<not> READ_ONLY env" and "currentRound st = Some P"
  shows "populateLeaderboard env st =
     (let st3 = emit (Query_round P 1000 0) (emit Redis_get (swept (keyNow env) st))
      in case query_round env P 1000 0 of
           None \<Rightarrow> (st3, Some NoRoundData)
         | Some None \<Rightarrow> (st3, Some TypeError)
         | Some (Some r) \<Rightarrow> processRound (keyNow env) P r st3)"
  using assms
  by (simp add: populateLeaderboard_unfold getCurrentRound_present fetchRound_def Let_def)

lemma linearEntry_Some:
  "bet_amount b = Some a \<Longrightarrow>
   linearEntry bullPayout bearPayout position b =
     Inr \<lparr>entry_id = bet_user b,
          entry_values =
            [(''amount_played'', 1),
             (''total_bet'', toNumber (Big_round 7 0 a)),
             (''winnings'', if bet_position b = position then 1 else 0),
             (''losses'', if bet_position b \<noteq> position then 1 else 0),
             (''bnb_won'',
              if bet_position b = position
              then toNumber (Big_round 7 0
                     ((if position = ''Bull'' then bullPayout else bearPayout) * a * (97 / 100) - a))
              else 0),
             (''bnb_won_even'',
              if bet_position b = position
              then toNumber (Big_round 7 0
                     ((if position = ''Bull'' then bullPayout else bearPayout) * 1 * (97 / 100) - 1))
              else 0)]\<rparr>"
  by (simp add: linearEntry_def Big_new_def)

lemma linearEntry_None:
  "bet_amount b = None \<Longrightarrow> linearEntry bullPayout bearPayout position b = Inl InvalidNumber"
  by (simp add: linearEntry_def Big_new_def)

lemma linearEntry_features:
  assumes "linearEntry bp brp p b = Inr e"
  shows "list_all (\<lambda>q. fst q \<in> set tick_features) (entry_values e)"
  using assms
  by (cases "bet_amount b") (auto simp: linearEntry_None linearEntry_Some tick_features_def)

lemma derivedEntry_features:
  assumes "derivedEntry kn st dd b = Inr e"
  shows "list_all (\<lambda>q. fst q \<in> set tick_features) (entry_values e)"
  using assms
  by (auto simp: derivedEntry_def Let_def tick_features_def split: sum.splits if_splits)

lemma map_err_all:
  assumes "map_err f xs = Inr ys" and "\<And>x y. f x = Inr y \<Longrightarrow> Q y"
  shows "list_all Q ys"
  using assms
  by (induction xs arbitrary: ys) (auto split: sum.splits)

lemma map_err_length:
  "map_err f xs = Inr ys \<Longrightarrow> length ys = length xs"
  by (induction xs arbitrary: ys) (auto split: sum.splits)

lemma derivedMetrics_trace:
  "\<exists>evs. trace (fst (derivedMetrics kn bets ds st)) = trace st @ evs \<and>
         list_all (tick_update (length bets)) evs"
proof (induction ds arbitrary: st)
  case Nil
  show ?case by simp
next
  case (Cons dd ds)
  show ?case
  proof (cases "map_err (derivedEntry kn st dd) bets")
    case (Inl e)
    then show ?thesis by simp
  next
    case (Inr updates)
    let ?st2 = "leaderboard_update kn updates [dim_name dd] st"
    from Cons.IH [of ?st2] obtain evs where
      evs: "trace (fst (derivedMetrics kn bets ds ?st2)) = trace ?st2 @ evs"
        "list_all (tick_update (length bets)) evs"
      by blast
    have "list_all (\<lambda>e. list_all (\<lambda>p. fst p \<in> set tick_features) (entry_values e)) updates"
      by (rule map_err_all [OF Inr]) (rule derivedEntry_features)
    then have "tick_update (length bets) (Matrix_update updates [dim_name dd])"
      by (simp add: tick_update_def map_err_length [OF Inr])
    with evs Inr show ?thesis by simp
  qed
qed

lemma Big_new_div_error:
  "Big_new_div a b = Inl e \<Longrightarrow> e = InvalidNumber \<or> e = DivisionByZero"
  by (auto simp: Big_new_div_def Big_new_def Big_div_def split: option.splits if_splits)

lemma map_err_linear_error:
  "map_err (linearEntry bp brp p) bs = Inl e \<Longrightarrow> e = InvalidNumber"
  by (induction bs) (auto simp: linearEntry_def Big_new_def split: sum.splits option.splits)

lemma map_err_linear_ok:
  assumes "\<forall>b \<in> set bs. bet_amount b \<noteq> None"
  shows "map_err (linearEntry bp brp p) bs = Inr (map (linear_of bp brp p) bs)"
proof (rule map_err_Inr)
  fix b assume "b \<in> set bs"
  with assms obtain a where "bet_amount b = Some a" by auto
  then show "linearEntry bp brp p b = Inr (linear_of bp brp p b)"
    by (simp add: linear_of_def linearEntry_Some)
qed

lemma derivedMetrics_dimensions:
  "snd (derivedMetrics kn bets dimensions st) = None"
  "currentRound (fst (derivedMetrics kn bets dimensions st)) = currentRound st"
  using derivedMetrics_cells [of dimensions kn bets st] distinct_dimension_names by simp_all

lemma processRound_not_ready:
  "round_position r = None \<or> round_position r = Some [] \<Longrightarrow>
   processRound kn cur r st = (st, Some RoundNotReady)"
  by (auto simp: processRound_def)

lemma processRound_ready:
  assumes "round_position r = Some p" and "p \<noteq> []"
    and "Big_new_div (totalAmount r) (bullAmount r) = Inr bp"
    and "Big_new_div (totalAmount r) (bearAmount r) = Inr brp"
  shows "processRound kn cur r st =
     (case map_err (linearEntry bp brp p) (round_bets r) of
        Inl e \<Rightarrow> (setCurrentRound (cur + 1) st, Some e)
      | Inr batch \<Rightarrow>
          derivedMetrics kn (round_bets r) dimensions
            (leaderboard_update kn batch (map dim_name dimensions) (setCurrentRound (cur + 1) st)))"
  using assms by (simp add: processRound_def Let_def)

lemma processRound_success:
  assumes "round_position r = Some p" and "p \<noteq> []"
    and "Big_new_div (totalAmount r) (bullAmount r) = Inr bp"
    and "Big_new_div (totalAmount r) (bearAmount r) = Inr brp"
    and "\<forall>b \<in> set (round_bets r). bet_amount b \<noteq> None"
  shows "processRound kn cur r st =
          derivedMetrics kn (round_bets r) dimensions
            (leaderboard_update kn (map (linear_of bp brp p) (round_bets r))
               (map dim_name dimensions) (setCurrentRound (cur + 1) st))"
  using assms by (simp add: processRound_ready map_err_linear_ok)

lemma setCurrentRound_simps [simp]:
  "currentRound (setCurrentRound n st) = Some n"
  "trace (setCurrentRound n st) = trace st @ [Redis_set n]"
  "boards (setCurrentRound n st) = boards st"
  "periodic (setCurrentRound n st) = periodic st"
  by (simp_all add: setCurrentRound_def emit_def)

lemma emit_simps [simp]:
  "currentRound (emit e st) = currentRound st"
  "trace (emit e st) = trace st @ [e]"
  "boards (emit e st) = boards st"
  "periodic (emit e st) = periodic st"
  by (simp_all add: emit_def)

lemma processRound_pointer:
  assumes "round_position r = Some p" and "p \<noteq> []"
    and "Big_new_div (totalAmount r) (bullAmount r) = Inr bp"
    and "Big_new_div (totalAmount r) (bearAmount r) = Inr brp"
  shows "currentRound (fst (processRound kn cur r st)) = Some (cur + 1)"
    and "\<exists>ups. trace (fst (processRound kn cur r st)) = trace st @ Redis_set (cur + 1) # ups \<and>
               list_all (tick_update (length (round_bets r))) ups"
proof -
  note pr = processRound_ready [OF assms, of kn cur st]
  show "currentRound (fst (processRound kn cur r st)) = Some (cur + 1)"
    unfolding pr by (simp add: derivedMetrics_dimensions split: sum.splits)
  show "\<exists>ups. trace (fst (processRound kn cur r st)) = trace st @ Redis_set (cur + 1) # ups \<and>
               list_all (tick_update (length (round_bets r))) ups"
  proof (cases "map_err (linearEntry bp brp p) (round_bets r)")
    case (Inl e)
    then show ?thesis unfolding pr by simp
  next
    case (Inr batch)
    let ?st2 = "leaderboard_update kn batch (map dim_name dimensions) (setCurrentRound (cur + 1) st)"
    from derivedMetrics_trace [of kn "round_bets r" dimensions ?st2] obtain evs where
      evs: "trace (fst (derivedMetrics kn (round_bets r) dimensions ?st2)) = trace ?st2 @ evs"
        "list_all (tick_update (length (round_bets r))) evs"
      by blast
    have "list_all (\<lambda>e. list_all (\<lambda>p. fst p \<in> set tick_features) (entry_values e)) batch"
      by (rule map_err_all [OF Inr]) (rule linearEntry_features)
    then have "tick_update (length (round_bets r)) (Matrix_update batch (map dim_name dimensions))"
      by (simp add: tick_update_def map_err_length [OF Inr])
    with evs Inr show ?thesis unfolding pr by simp
  qed
qed

lemma processRound_trace:
  "\<exists>evs. trace (fst (processRound kn cur r st)) = trace st @ evs \<and>
         list_all (\<lambda>ev. ev = Redis_set (cur + 1) \<or> tick_update (length (round_bets r)) ev) evs"
proof (cases "\<exists>p bp brp. round_position r = Some p \<and> p \<noteq> [] \<and>
          Big_new_div (totalAmount r) (bullAmount r) = Inr bp \<and>
          Big_new_div (totalAmount r) (bearAmount r) = Inr brp")
  case True
  then obtain p bp brp where "round_position r = Some p" "p \<noteq> []"
    "Big_new_div (totalAmount r) (bullAmount r) = Inr bp"
    "Big_new_div (totalAmount r) (bearAmount r) = Inr brp" by blast
  from processRound_pointer(2) [OF this, of kn cur st] obtain ups where
    "trace (fst (processRound kn cur r st)) = trace st @ Redis_set (cur + 1) # ups"
    "list_all (tick_update (length (round_bets r))) ups" by blast
  then show ?thesis by (auto simp: list_all_iff)
next
  case False
  then have "fst (processRound kn cur r st) = st"
    by (auto simp: processRound_def split: option.splits sum.splits)
  then show ?thesis by simp
qed

lemma processRound_outcome:
  "snd (processRound kn cur r st) \<in>
     {None, Some RoundNotReady, Some InvalidNumber, Some DivisionByZero}"
  by (auto simp: processRound_def Let_def derivedMetrics_dimensions
      split: option.splits sum.splits dest: Big_new_div_error map_err_linear_error)

lemma second_most_recent:
  assumes "1 < length (take n (rev (sort_key epoch xs)))" and "r \<in> set xs"
  shows "epoch r \<le> epoch (take n (rev (sort_key epoch xs)) ! 1) \<or>
         r = take n (rev (sort_key epoch xs)) ! 0"
proof -
  let ?L = "rev (sort_key epoch xs)"
  from assms(1) have n: "1 < n" and len: "1 < length ?L" by auto
  have srt: "sorted (rev (map epoch ?L))"
    by (simp add: rev_map [symmetric])
  from assms(2) have "r \<in> set ?L" by simp
  then obtain i where i: "i < length ?L" "?L ! i = r"
    by (metis in_set_conv_nth)
  show ?thesis
  proof (cases "i = 0")
    case True
    with i n show ?thesis by simp
  next
    case False
    then have "1 \<le> i" by simp
    with sorted_rev_nth_mono [OF srt, of 1 i] i
    have "map epoch ?L ! i \<le> map epoch ?L ! 1" by simp
    with i len n show ?thesis by simp
  qed
qed

lemma processRound_pointer_cases:
  "currentRound (fst (processRound kn cur r st)) \<in> {currentRound st, Some (cur + 1)}"
proof (cases "\<exists>p bp brp. round_position r = Some p \<and> p \<noteq> [] \<and>
          Big_new_div (totalAmount r) (bullAmount r) = Inr bp \<and>
          Big_new_div (totalAmount r) (bearAmount r) = Inr brp")
  case True
  then obtain p bp brp where "round_position r = Some p" "p \<noteq> []"
    "Big_new_div (totalAmount r) (bullAmount r) = Inr bp"
    "Big_new_div (totalAmount r) (bearAmount r) = Inr brp" by blast
  from processRound_pointer(1) [OF this, of kn cur st] show ?thesis by simp
next
  case False
  then have "fst (processRound kn cur r st) = st"
    by (auto simp: processRound_def split: option.splits sum.splits)
  then show ?thesis by simp
qed

lemma populateLeaderboard_seed:
  assumes "\<not> READ_ONLY env" and "currentRound st = None"
    and "query_rounds env 10 = Some rs" and "1 < length rs"
  shows "populateLeaderboard env st =
     (let e = epoch (rs ! 1);
          st3 = emit (Query_round e 1000 0)
                  (setCurrentRound e
                     (emit (Query_rounds 10) (emit Redis_get (swept (keyNow env) st))))
      in case query_round env e 1000 0 of
           None \<Rightarrow> (st3, Some NoRoundData)
         | Some None \<Rightarrow> (st3, Some TypeError)
         | Some (Some r) \<Rightarrow> processRound (keyNow env) e r st3)"
  using assms
  by (simp add: populateLeaderboard_unfold getCurrentRound_seed fetchRound_def Let_def)

lemma populateLeaderboard_no_rounds:
  assumes "\<not> READ_ONLY env" and "currentRound st = None"
    and "\<not> (\<exists>rs. query_rounds env 10 = Some rs \<and> 1 < length rs)"
  shows "populateLeaderboard env st =
     (emit (Query_rounds 10) (emit Redis_get (swept (keyNow env) st)), Some NoRoundsFound)"
  using assms
  by (simp add: populateLeaderboard_unfold getCurrentRound_fail)

lemma processRound_not_NoRoundsFound [simp]:
  "snd (processRound kn cur r st) \<noteq> Some NoRoundsFound"
  using processRound_outcome [of kn cur r st] by auto

section \<open>Acquiring the round pointer\<close>

text \<open>
  Claim C7, as amended. On a tick that finds no persisted round pointer, the service asks
  the subgraph for the ten most recent rounds with a positive close block, takes the
  second entry of the answer, persists its epoch and fetches and processes that round in
  the same tick: the tick is the one that continues from the state holding that pointer,
  and it ends with the pointer at that epoch or one past it. The entry taken is a round
  the subgraph knows, it is finalized, and every finalized round other than the first
  entry is no more recent. The tick fails with "No rounds found", leaving the pointer
  absent, if and only if the answer holds fewer than two rounds (or no data at all).
\<close>

theorem pointer_bootstrap:
  assumes "\<not> READ_ONLY env" and "currentRound st = None"
  shows "(snd (populateLeaderboard env st) = Some NoRoundsFound \<longleftrightarrow>
            \<not> (\<exists>rs. query_rounds env 10 = Some rs \<and> 1 < length rs)) \<and>
         (snd (populateLeaderboard env st) = Some NoRoundsFound \<longrightarrow>
            currentRound (fst (populateLeaderboard env st)) = None) \<and>
         (\<forall>rs. query_rounds env 10 = Some rs \<and> 1 < length rs \<longrightarrow>
            (let e = epoch (rs ! 1);
                 st3 = emit (Query_round e 1000 0)
                         (setCurrentRound e
                            (emit (Query_rounds 10) (emit Redis_get (swept (keyNow env) st))))
             in populateLeaderboard env st =
                  (case query_round env e 1000 0 of
                     None \<Rightarrow> (st3, Some NoRoundData)
                   | Some None \<Rightarrow> (st3, Some TypeError)
                   | Some (Some r) \<Rightarrow> processRound (keyNow env) e r st3) \<and>
                currentRound (fst (populateLeaderboard env st)) \<in> {Some e, Some (e + 1)})) \<and>
         (\<forall>known rs. sg_rounds env = Some known \<and> query_rounds env 10 = Some rs \<and> 1 < length rs \<longrightarrow>
            rs ! 1 \<in> set known \<and> 0 < closeBlock (rs ! 1) \<and>
            (\<forall>r \<in> set known. 0 < closeBlock r \<longrightarrow> epoch r \<le> epoch (rs ! 1) \<or> r = rs ! 0))"
proof (intro conjI allI impI)
  show "snd (populateLeaderboard env st) = Some NoRoundsFound \<longleftrightarrow>
            \<not> (\<exists>rs. query_rounds env 10 = Some rs \<and> 1 < length rs)"
  proof (cases "\<exists>rs. query_rounds env 10 = Some rs \<and> 1 < length rs")
    case False
    with populateLeaderboard_no_rounds [OF assms] show ?thesis by simp
  next
    case True
    then obtain rs where rs: "query_rounds env 10 = Some rs" "1 < length rs" by blast
    have "snd (populateLeaderboard env st) \<noteq> Some NoRoundsFound"
      unfolding populateLeaderboard_seed [OF assms rs]
      by (simp add: Let_def split: option.splits)
    with True show ?thesis by simp
  qed
next
  assume fail: "snd (populateLeaderboard env st) = Some NoRoundsFound"
  have "\<not> (\<exists>rs. query_rounds env 10 = Some rs \<and> 1 < length rs)"
  proof
    assume "\<exists>rs. query_rounds env 10 = Some rs \<and> 1 < length rs"
    then obtain rs where rs: "query_rounds env 10 = Some rs" "1 < length rs" by blast
    have "snd (populateLeaderboard env st) \<noteq> Some NoRoundsFound"
      unfolding populateLeaderboard_seed [OF assms rs]
      by (simp add: Let_def split: option.splits)
    with fail show False by contradiction
  qed
  from populateLeaderboard_no_rounds [OF assms this]
  show "currentRound (fst (populateLeaderboard env st)) = None"
    using assms(2) by simp
next
  fix rs
  assume "query_rounds env 10 = Some rs \<and> 1 < length rs"
  then have rs: "query_rounds env 10 = Some rs" "1 < length rs" by simp_all
  show "let e = epoch (rs ! 1);
            st3 = emit (Query_round e 1000 0)
                    (setCurrentRound e
                       (emit (Query_rounds 10) (emit Redis_get (swept (keyNow env) st))))
        in populateLeaderboard env st =
             (case query_round env e 1000 0 of
                None \<Rightarrow> (st3, Some NoRoundData)
              | Some None \<Rightarrow> (st3, Some TypeError)
              | Some (Some r) \<Rightarrow> processRound (keyNow env) e r st3) \<and>
           currentRound (fst (populateLeaderboard env st)) \<in> {Some e, Some (e + 1)}"
  proof (cases "query_round env (epoch (rs ! 1)) 1000 0")
    case None
    then show ?thesis
      unfolding populateLeaderboard_seed [OF assms rs] by (simp add: Let_def)
  next
    case (Some answer)
    show ?thesis
    proof (cases answer)
      case None
      with Some show ?thesis
        unfolding populateLeaderboard_seed [OF assms rs] by (simp add: Let_def)
    next
      case (Some r)
      with \<open>query_round env (epoch (rs ! 1)) 1000 0 = Some answer\<close>
        processRound_pointer_cases [of "keyNow env" "epoch (rs ! 1)" r
          "emit (Query_round (epoch (rs ! 1)) 1000 0)
             (setCurrentRound (epoch (rs ! 1))
                (emit (Query_rounds 10) (emit Redis_get (swept (keyNow env) st))))"]
      show ?thesis
        unfolding populateLeaderboard_seed [OF assms rs] by (auto simp: Let_def)
    qed
  qed
next
  fix known rs
  assume "sg_rounds env = Some known \<and> query_rounds env 10 = Some rs \<and> 1 < length rs"
  then have known: "sg_rounds env = Some known" and rs: "query_rounds env 10 = Some rs"
    and len: "1 < length rs" by simp_all
  let ?fin = "filter (\<lambda>r. 0 < closeBlock r) known"
  from known rs have rs_eq: "rs = take 10 (rev (sort_key epoch ?fin))"
    by (simp add: query_rounds_def)
  from len have "rs ! 1 \<in> set rs" by simp
  with rs_eq have "rs ! 1 \<in> set ?fin"
    by (metis in_set_takeD set_rev set_sort)
  then show "rs ! 1 \<in> set known" and "0 < closeBlock (rs ! 1)" by simp_all
  show "\<forall>r \<in> set known. 0 < closeBlock r \<longrightarrow> epoch r \<le> epoch (rs ! 1) \<or> r = rs ! 0"
  proof (intro ballI impI)
    fix r assume "r \<in> set known" "0 < closeBlock r"
    then have "r \<in> set ?fin" by simp
    from second_most_recent [OF len [unfolded rs_eq] this]
    show "epoch r \<le> epoch (rs ! 1) \<or> r = rs ! 0"
      unfolding rs_eq .
  qed
qed

lemma query_three_rounds:
  "query_rounds three_rounds_env 10 =
     Some [\<lparr>epoch = 7, closeBlock = 70\<rparr>, \<lparr>epoch = 6, closeBlock = 60\<rparr>, \<lparr>epoch = 5, closeBlock = 50\<rparr>]"
  by (simp add: query_rounds_def three_rounds_env_def)

text \<open>
  The theorem at a subgraph that knows three finalized rounds (5, 7, 6) and one that is
  not (8): the pointer is seeded with 6.
\<close>

theorem pointer_bootstrap_witness:
  "\<not> READ_ONLY three_rounds_env \<and> currentRound empty_state = None \<and>
   snd (populateLeaderboard three_rounds_env empty_state) \<noteq> Some NoRoundsFound \<and>
   currentRound (fst (populateLeaderboard three_rounds_env empty_state)) \<in> {Some 6, Some 7}"
proof -
  have h1: "\<not> READ_ONLY three_rounds_env" by (simp add: three_rounds_env_def)
  have h2: "currentRound empty_state = None" by (simp add: empty_state_def)
  note pb = pointer_bootstrap [OF h1 h2]
  from pb [THEN conjunct1] query_three_rounds
  have a: "snd (populateLeaderboard three_rounds_env empty_state) \<noteq> Some NoRoundsFound"
    by simp
  have len: "1 < length [\<lparr>epoch = 7, closeBlock = 70\<rparr>, \<lparr>epoch = 6, closeBlock = 60\<rparr>,
                \<lparr>epoch = (5::int), closeBlock = (50::int)\<rparr>]"
    by simp
  from pb [THEN conjunct2, THEN conjunct2, THEN conjunct1, rule_format,
           OF conjI [OF query_three_rounds len], unfolded Let_def, THEN conjunct2]
  have b: "currentRound (fst (populateLeaderboard three_rounds_env empty_state)) \<in> {Some 6, Some 7}"
    by simp
  from h1 h2 a b show ?thesis by blast
qed

text \<open>
  Claim C7 as stated fails: with exactly one finalized round available the tick fails
  and persists no pointer, although a round is available.
\<close>

theorem bootstrap_fails_with_one_round:
  "query_rounds one_round_env 10 = Some [\<lparr>epoch = 7, closeBlock = 100\<rparr>] \<and>
   currentRound empty_state = None \<and>
   snd (populateLeaderboard one_round_env empty_state) = Some NoRoundsFound \<and>
   currentRound (fst (populateLeaderboard one_round_env empty_state)) = None"
proof -
  have q: "query_rounds one_round_env 10 = Some [\<lparr>epoch = 7, closeBlock = 100\<rparr>]"
    by (simp add: query_rounds_def one_round_env_def)
  have h1: "\<not> READ_ONLY one_round_env" by (simp add: one_round_env_def)
  have h2: "currentRound empty_state = None" by (simp add: empty_state_def)
  have "\<not> (\<exists>rs. query_rounds one_round_env 10 = Some rs \<and> 1 < length rs)"
    by (simp add: q)
  from populateLeaderboard_no_rounds [OF h1 h2 this] q h2
  show ?thesis by simp
qed

lemma tick_update_mono: "tick_update n ev \<Longrightarrow> n \<le> m \<Longrightarrow> tick_update m ev"
  by (cases ev) (simp_all add: tick_update_def)

lemma sweep_trace_events:
  "list_all is_sweep (sweep_trace kn st)"
  by (auto simp add: sweep_trace_def sweep_events_def is_sweep_def list_all_iff)


lemma getCurrentRound_shape:
  "boards (fst (getCurrentRound env st)) = boards st \<and>
   periodic (fst (getCurrentRound env st)) = periodic st \<and>
   (\<exists>evs. trace (fst (getCurrentRound env st)) = trace st @ Redis_get # evs \<and>
          list_all tick_event evs \<and> filter is_Query_round evs = [])"
  by (auto simp: getCurrentRound_def fetchLatestRound_def Let_def tick_event_def
        is_Query_round_def split: option.splits)

lemma getCurrentRound_Inr:
  "getCurrentRound env st = (st2, Inr P) \<Longrightarrow> currentRound st2 = Some P"
  by (auto simp: getCurrentRound_def fetchLatestRound_def Let_def split: option.splits if_splits)

lemma query_round_length:
  "query_round env ID 1000 0 = Some (Some r) \<Longrightarrow> length (round_bets r) \<le> 1000"
  by (auto simp: query_round_def)

lemma processRound_events:
  assumes "length (round_bets r) \<le> 1000"
  shows "\<exists>evs. trace (fst (processRound kn cur r st)) = trace st @ evs \<and>
         list_all tick_event evs \<and> filter is_Query_round evs = []"
proof -
  from processRound_trace [of kn cur r st] obtain evs where
    evs: "trace (fst (processRound kn cur r st)) = trace st @ evs"
      "list_all (\<lambda>ev. ev = Redis_set (cur + 1) \<or> tick_update (length (round_bets r)) ev) evs"
    by blast
  have "tick_event ev \<and> \<not> is_Query_round ev"
    if "ev = Redis_set (cur + 1) \<or> tick_update (length (round_bets r)) ev" for ev
  proof (cases ev)
    case (Matrix_update es ds)
    with that have "tick_update (length (round_bets r)) ev" by simp
    from tick_update_mono [OF this assms] Matrix_update show ?thesis
      by (simp add: tick_event_def is_Query_round_def)
  qed (use that in \<open>simp_all add: tick_event_def is_Query_round_def tick_update_def\<close>)
  with evs(2) have "list_all tick_event evs" "filter is_Query_round evs = []"
    by (auto simp: list_all_iff filter_empty_conv)
  with evs(1) show ?thesis by blast
qed

lemma tick_shape:
  assumes "\<not> READ_ONLY env"
  shows "\<exists>evs. trace (fst (populateLeaderboard env st)) =
                 trace st @ sweep_trace (keyNow env) st @ Redis_get # evs \<and>
               list_all tick_event evs \<and> length (filter is_Query_round evs) \<le> 1"
proof -
  let ?sw = "swept (keyNow env) st"
  obtain st2 res where g: "getCurrentRound env ?sw = (st2, res)" by (cases "getCurrentRound env ?sw")
  from getCurrentRound_shape [of env ?sw] g obtain evs1 where
    evs1: "trace st2 = trace st @ sweep_trace (keyNow env) st @ Redis_get # evs1"
      "list_all tick_event evs1" "filter is_Query_round evs1 = []"
    by auto
  show ?thesis
  proof (cases res)
    case (Inl e)
    with g evs1 show ?thesis
      by (simp add: populateLeaderboard_unfold [OF assms]) 
  next
    case (Inr cur)
    let ?st3 = "emit (Query_round cur 1000 0) st2"
    show ?thesis
    proof (cases "query_round env cur 1000 0")
      case None
      with g Inr evs1 show ?thesis
        by (simp add: populateLeaderboard_unfold [OF assms] fetchRound_def
              tick_event_def is_Query_round_def)
    next
      case (Some answer)
      show ?thesis
      proof (cases answer)
        case None
        with Some g Inr evs1 show ?thesis
          by (simp add: populateLeaderboard_unfold [OF assms] fetchRound_def
                tick_event_def is_Query_round_def)
      next
        case (Some r)
        with \<open>query_round env cur 1000 0 = Some answer\<close>
        have q: "query_round env cur 1000 0 = Some (Some r)" by simp
        from processRound_events [OF query_round_length [OF q], of "keyNow env" cur ?st3]
        obtain evs2 where evs2:
          "trace (fst (processRound (keyNow env) cur r ?st3)) = trace ?st3 @ evs2"
          "list_all tick_event evs2" "filter is_Query_round evs2 = []"
          by blast
        have "populateLeaderboard env st = processRound (keyNow env) cur r ?st3"
          using g Inr q by (simp add: populateLeaderboard_unfold [OF assms] fetchRound_def)
        with evs1 evs2 show ?thesis
          by (simp add: tick_event_def is_Query_round_def)
      qed
    qed
  qed
qed

lemma populateLeaderboard_truncate:
  "populateLeaderboard (truncate_bets 1000 env) st = populateLeaderboard env st"
proof -
  have q: "query_round (truncate_bets 1000 env) ID 1000 0 = query_round env ID 1000 0" for ID
    by (simp add: query_round_def truncate_bets_def option.map_comp comp_def)
  have qs: "query_rounds (truncate_bets 1000 env) n = query_rounds env n" for n
    by (simp add: query_rounds_def truncate_bets_def)
  have fl: "fetchLatestRound (truncate_bets 1000 env) s = fetchLatestRound env s" for s
    by (simp add: fetchLatestRound_def qs)
  have g: "getCurrentRound (truncate_bets 1000 env) s = getCurrentRound env s" for s
    unfolding getCurrentRound_def fl ..
  have f: "fetchRound (truncate_bets 1000 env) ID s = fetchRound env ID s" for ID s
    by (simp add: fetchRound_def q)
  have r: "READ_ONLY (truncate_bets 1000 env) = READ_ONLY env"
    "keyNow (truncate_bets 1000 env) = keyNow env"
    by (simp_all add: truncate_bets_def)
  show ?thesis
    unfolding populateLeaderboard_def g f r ..
qed


lemma map_of_absent:
  "list_all (\<lambda>p. fst p \<in> S) xs \<Longrightarrow> f \<notin> S \<Longrightarrow> map_of xs f = None"
  by (induction xs) auto

lemma tick_update_writes:
  assumes "tick_update n ev" and "f \<notin> set tick_features"
  shows "\<not> writes f ev"
  using assms
  by (cases ev) (auto simp: tick_update_def writes_def list_all_iff list_ex_iff
        dest!: map_of_absent [where f = f and S = "set tick_features", rotated])

lemma tick_event_writes:
  assumes "tick_event ev" and "f \<notin> set tick_features"
  shows "\<not> writes f ev"
proof (cases ev)
  case (Matrix_update es ds)
  with assms(1) have "tick_update 1000 ev" by (simp add: tick_event_def)
  from tick_update_writes [OF this assms(2)] show ?thesis .
qed (simp_all add: writes_def)

lemma is_sweep_writes: "is_sweep ev \<Longrightarrow> \<not> writes f ev"
  by (cases ev) (simp_all add: is_sweep_def writes_def)

lemma leaderboard_update_raw_frame:
  assumes "\<forall>e \<in> set es. map_of (entry_values e) f = None"
  shows "boards (leaderboard_update kn es ds st) (d, f) = boards st (d, f)"
    and "periodic (leaderboard_update kn es ds st) (d, f) = periodic st (d, f)"
  using assms by (simp_all add: leaderboard_update_def matrix_update_raw_frame)

lemma derivedMetrics_raw_frame:
  assumes "f \<notin> set tick_features"
  shows "boards (fst (derivedMetrics kn bets ds st)) (d, f) = boards st (d, f) \<and>
         periodic (fst (derivedMetrics kn bets ds st)) (d, f) = periodic st (d, f)"
proof (induction ds arbitrary: st)
  case Nil
  show ?case by simp
next
  case (Cons dd ds)
  show ?case
  proof (cases "map_err (derivedEntry kn st dd) bets")
    case (Inl e)
    then show ?thesis by simp
  next
    case (Inr updates)
    have "list_all (\<lambda>e. list_all (\<lambda>p. fst p \<in> set tick_features) (entry_values e)) updates"
      by (rule map_err_all [OF Inr]) (rule derivedEntry_features)
    with assms have "\<forall>e \<in> set updates. map_of (entry_values e) f = None"
      by (auto simp: list_all_iff intro!: map_of_absent [where S = "set tick_features"])
    with Inr Cons.IH [of "leaderboard_update kn updates [dim_name dd] st"] show ?thesis
      by (simp add: leaderboard_update_raw_frame)
  qed
qed

lemma processRound_raw_frame:
  assumes "f \<notin> set tick_features"
  shows "boards (fst (processRound kn cur r st)) (d, f) = boards st (d, f) \<and>
         periodic (fst (processRound kn cur r st)) (d, f) = periodic st (d, f)"
proof (cases "\<exists>p bp brp. round_position r = Some p \<and> p \<noteq> [] \<and>
          Big_new_div (totalAmount r) (bullAmount r) = Inr bp \<and>
          Big_new_div (totalAmount r) (bearAmount r) = Inr brp")
  case True
  then obtain p bp brp where rdy: "round_position r = Some p" "p \<noteq> []"
    "Big_new_div (totalAmount r) (bullAmount r) = Inr bp"
    "Big_new_div (totalAmount r) (bearAmount r) = Inr brp" by blast
  note pr = processRound_ready [OF rdy, of kn cur st]
  show ?thesis
  proof (cases "map_err (linearEntry bp brp p) (round_bets r)")
    case (Inl e)
    then show ?thesis unfolding pr by simp
  next
    case (Inr batch)
    have "list_all (\<lambda>e. list_all (\<lambda>p. fst p \<in> set tick_features) (entry_values e)) batch"
      by (rule map_err_all [OF Inr]) (rule linearEntry_features)
    with assms have "\<forall>e \<in> set batch. map_of (entry_values e) f = None"
      by (auto simp: list_all_iff intro!: map_of_absent [where S = "set tick_features"])
    with Inr derivedMetrics_raw_frame [OF assms, of kn "round_bets r" dimensions
        "leaderboard_update kn batch (map dim_name dimensions) (setCurrentRound (cur + 1) st)" d]
    show ?thesis unfolding pr by (simp add: leaderboard_update_raw_frame)
  qed
next
  case False
  then have "fst (processRound kn cur r st) = st"
    by (auto simp: processRound_def split: option.splits sum.splits)
  then show ?thesis by simp
qed

lemma populateLeaderboard_raw_frame:
  assumes "f \<notin> set tick_features" and "f \<noteq> ''amount_played''"
  shows "boards (fst (populateLeaderboard env st)) (d, f) = boards st (d, f) \<and>
         periodic (fst (populateLeaderboard env st)) (d, f) = periodic st (d, f)"
proof (cases "READ_ONLY env")
  case True
  then show ?thesis by (simp add: populateLeaderboard_def)
next
  case False
  let ?sw = "swept (keyNow env) st"
  obtain st2 res where g: "getCurrentRound env ?sw = (st2, res)" by (cases "getCurrentRound env ?sw")
  with getCurrentRound_shape [of env ?sw] assms(2)
  have st2: "boards st2 (d, f) = boards st (d, f)" "periodic st2 (d, f) = periodic st (d, f)"
    by (simp_all add: periodic_swept)
  show ?thesis
  proof (cases res)
    case (Inl e)
    with g st2 show ?thesis by (simp add: populateLeaderboard_unfold [OF False])
  next
    case (Inr cur)
    show ?thesis
    proof (cases "query_round env cur 1000 0")
      case None
      with g Inr st2 show ?thesis
        by (simp add: populateLeaderboard_unfold [OF False] fetchRound_def)
    next
      case (Some answer)
      show ?thesis
      proof (cases answer)
        case None
        with Some g Inr st2 show ?thesis
          by (simp add: populateLeaderboard_unfold [OF False] fetchRound_def)
      next
        case (Some r)
        with \<open>query_round env cur 1000 0 = Some answer\<close> g Inr st2
          processRound_raw_frame [OF assms(1), of "keyNow env" cur r
            "emit (Query_round cur 1000 0) st2" d]
        show ?thesis
          by (simp add: populateLeaderboard_unfold [OF False] fetchRound_def)
      qed
    qed
  qed
qed

section \<open>The expiry sweep opens the tick\<close>



section \<open>The feature no tick writes\<close>

text \<open>
  Claim C10. The matrix has a \<^verbatim>\<open>winnings_even_money\<close> cell in every dimension, and no
  tick writes it: whatever the tick reads and however it ends, every table of that
  feature (of every period) is after the tick what it was before, and no batch the tick
  hands to \<^verbatim>\<open>leaderboard.update\<close> holds a value for that feature.
\<close>

theorem winnings_even_money_untouched:
  "list_all (\<lambda>dd. getRawLeaderboard (dim_name dd) ''winnings_even_money'' \<noteq> None) dimensions \<and>
   boards (fst (populateLeaderboard env st)) (d, ''winnings_even_money'') =
     boards st (d, ''winnings_even_money'') \<and>
   periodic (fst (populateLeaderboard env st)) (d, ''winnings_even_money'') =
     periodic st (d, ''winnings_even_money'') \<and>
   (\<exists>evs. trace (fst (populateLeaderboard env st)) = trace st @ evs \<and>
          list_all (\<lambda>ev. \<not> writes ''winnings_even_money'' ev) evs)"
proof (intro conjI)
  show "list_all (\<lambda>dd. getRawLeaderboard (dim_name dd) ''winnings_even_money'' \<noteq> None) dimensions"
    by (simp add: getRawLeaderboard_def dimensions_def features_def)
  have nf: "''winnings_even_money'' \<notin> set tick_features"
    by (simp add: tick_features_def)
  from populateLeaderboard_raw_frame [OF nf, of env st d]
  show "boards (fst (populateLeaderboard env st)) (d, ''winnings_even_money'') =
          boards st (d, ''winnings_even_money'')"
    and "periodic (fst (populateLeaderboard env st)) (d, ''winnings_even_money'') =
          periodic st (d, ''winnings_even_money'')"
    by simp_all
  show "\<exists>evs. trace (fst (populateLeaderboard env st)) = trace st @ evs \<and>
          list_all (\<lambda>ev. \<not> writes ''winnings_even_money'' ev) evs"
  proof (cases "READ_ONLY env")
    case True
    then show ?thesis by (simp add: populateLeaderboard_def)
  next
    case False
    from tick_shape [OF False, of st] obtain evs where
      evs: "trace (fst (populateLeaderboard env st)) =
              trace st @ sweep_trace (keyNow env) st @ Redis_get # evs"
        "list_all tick_event evs"
      by blast
    have get: "\<not> writes ''winnings_even_money'' Redis_get"
      by (simp add: writes_def)
    have "list_all (\<lambda>ev. \<not> writes ''winnings_even_money'' ev)
            (sweep_trace (keyNow env) st @ Redis_get # evs)"
      using evs(2) sweep_trace_events [of "keyNow env" st] get
      by (auto simp: list_all_iff dest: tick_event_writes [OF _ nf] is_sweep_writes)
    with evs(1) show ?thesis by auto
  qed
qed

lemma populateLeaderboard_not_ready:
  assumes "\<not> READ_ONLY env"
    and "getCurrentRound env (swept (keyNow env) st) = (st2, Inr P)"
    and "query_round env P 1000 0 = Some (Some r)"
    and "round_position r = None \<or> round_position r = Some []"
  shows "populateLeaderboard env st = (emit (Query_round P 1000 0) st2, Some RoundNotReady)"
  using assms
  by (simp add: populateLeaderboard_unfold fetchRound_def processRound_not_ready)

lemma getCurrentRound_idle:
  "currentRound st = Some P \<Longrightarrow> snd (getCurrentRound env st) = Inr P"
  by (simp add: getCurrentRound_present)

section \<open>A round that is not ready\<close>

text \<open>
  Claim C5, as amended. When the round the tick fetches has no resolved position, the
  tick ends with "Round not ready to fetch" right after the fetch. The pointer is not
  advanced: it is the round that was fetched, as it was before the tick unless the tick
  had to seed it. No update is applied to the matrix: the tables are those the expiry
  sweep that opens the tick left, so the table of every bare cell and the current table
  of every periodic cell are as before the tick. The next tick acquires the same round.
\<close>

theorem not_ready_tick:
  assumes "\<not> READ_ONLY env"
    and "getCurrentRound env (swept (keyNow env) st) = (st2, Inr P)"
    and "query_round env P 1000 0 = Some (Some r)"
    and "round_position r = None \<or> round_position r = Some []"
  shows "populateLeaderboard env st = (emit (Query_round P 1000 0) st2, Some RoundNotReady) \<and>
         currentRound (fst (populateLeaderboard env st)) = Some P \<and>
         (currentRound st = None \<or> currentRound st = Some P) \<and>
         boards (fst (populateLeaderboard env st)) = boards st \<and>
         periodic (fst (populateLeaderboard env st)) = periodic (swept (keyNow env) st) \<and>
         (\<forall>d f. cellTable (keyNow env) (fst (populateLeaderboard env st)) d f =
                 cellTable (keyNow env) st d f) \<and>
         (\<forall>env'. snd (getCurrentRound env' (swept (keyNow env') (fst (populateLeaderboard env st))))
                  = Inr P)"
proof -
  note eq = populateLeaderboard_not_ready [OF assms]
  from getCurrentRound_Inr [OF assms(2)] have cur: "currentRound st2 = Some P" .
  from getCurrentRound_shape [of env "swept (keyNow env) st"] assms(2)
  have raw: "boards st2 = boards st" "periodic st2 = periodic (swept (keyNow env) st)"
    by simp_all
  have before: "currentRound st = None \<or> currentRound st = Some P"
  proof (cases "currentRound st")
    case None
    then show ?thesis by simp
  next
    case (Some Q)
    with assms(2) show ?thesis by (simp add: getCurrentRound_present)
  qed
  have cells: "cellTable (keyNow env) (emit (Query_round P 1000 0) st2) d f =
               cellTable (keyNow env) st d f" for d f
  proof -
    have "cellTable (keyNow env) (emit (Query_round P 1000 0) st2) d f =
          cellTable (keyNow env) (swept (keyNow env) st) d f"
      by (rule cellTable_cong) (simp_all add: raw)
    then show ?thesis by simp
  qed
  have again: "snd (getCurrentRound env' (swept (keyNow env') (emit (Query_round P 1000 0) st2)))
                  = Inr P" for env'
    by (rule getCurrentRound_idle) (simp add: cur)
  show ?thesis
    unfolding eq using cur before raw cells again by simp
qed

text \<open>
  The theorem at a state with pointer 5 and a stale table, and a subgraph whose round 5
  has no position yet.
\<close>

theorem not_ready_tick_witness:
  "\<not> READ_ONLY not_ready_env \<and>
   getCurrentRound not_ready_env (swept (keyNow not_ready_env) stale_state) =
     (emit Redis_get (swept (keyNow not_ready_env) stale_state), Inr 5) \<and>
   query_round not_ready_env 5 1000 0 = Some (Some unresolved_round) \<and>
   (round_position unresolved_round = None \<or> round_position unresolved_round = Some []) \<and>
   snd (populateLeaderboard not_ready_env stale_state) = Some RoundNotReady \<and>
   currentRound (fst (populateLeaderboard not_ready_env stale_state)) = Some 5"
proof -
  have h1: "\<not> READ_ONLY not_ready_env" by (simp add: not_ready_env_def)
  have h2: "getCurrentRound not_ready_env (swept (keyNow not_ready_env) stale_state) =
     (emit Redis_get (swept (keyNow not_ready_env) stale_state), Inr 5)"
    by (rule getCurrentRound_present) (simp add: stale_state_def)
  have h3: "query_round not_ready_env 5 1000 0 = Some (Some unresolved_round)"
    by (simp add: query_round_def not_ready_env_def unresolved_round_def)
  have h4: "round_position unresolved_round = None \<or> round_position unresolved_round = Some []"
    by (simp add: unresolved_round_def)
  note th = not_ready_tick [OF h1 h2 h3 h4]
  from th [THEN conjunct1]
  have a: "snd (populateLeaderboard not_ready_env stale_state) = Some RoundNotReady" by simp
  from h1 h2 h3 h4 a th [THEN conjunct2, THEN conjunct1] show ?thesis by blast
qed

text \<open>
  Claim C5 as stated fails: the tick of a round that is not ready still opens with the
  expiry sweep, which discards the stale table of the hour \<^verbatim>\<open>h1\<close>.
\<close>

theorem not_ready_tick_still_sweeps:
  "snd (populateLeaderboard not_ready_env stale_state) = Some RoundNotReady \<and>
   getLeaderboardAt (periodic stale_state (''best-hour'', ''amount_played'')) ''h1'' ''A'' = Some 3 \<and>
   getLeaderboardAt (periodic (fst (populateLeaderboard not_ready_env stale_state))
      (''best-hour'', ''amount_played'')) ''h1'' ''A'' = None \<and>
   getExistingKeys (periodic stale_state (''best-hour'', ''amount_played'')) = [''h1'', ''h2''] \<and>
   getExistingKeys (periodic (fst (populateLeaderboard not_ready_env stale_state))
      (''best-hour'', ''amount_played'')) = [''h2'']"
proof -
  have h1: "\<not> READ_ONLY not_ready_env" by (simp add: not_ready_env_def)
  have h2: "getCurrentRound not_ready_env (swept (keyNow not_ready_env) stale_state) =
     (emit Redis_get (swept (keyNow not_ready_env) stale_state), Inr 5)"
    by (rule getCurrentRound_present) (simp add: stale_state_def)
  have h3: "query_round not_ready_env 5 1000 0 = Some (Some unresolved_round)"
    by (simp add: query_round_def not_ready_env_def unresolved_round_def)
  have h4: "round_position unresolved_round = None \<or> round_position unresolved_round = Some []"
    by (simp add: unresolved_round_def)
  note eq = populateLeaderboard_not_ready [OF h1 h2 h3 h4]
  have k: "keyNow not_ready_env = (\<lambda>c. ''h2'')" by (simp add: not_ready_env_def)
  have p: "periodic stale_state (''best-hour'', ''amount_played'') =
             [(''h1'', [''A'' \<mapsto> 3]), (''h2'', [''A'' \<mapsto> 1])]"
    by (simp add: stale_state_def)
  show ?thesis
    unfolding eq
    by (simp add: periodic_swept cycle_of_simps k p getLeaderboardAt_def getExistingKeys_def)
qed

section \<open>The optimistic advance of the pointer\<close>

lemma Big_new_div_Some:
  "b \<noteq> 0 \<Longrightarrow> Big_new_div (Some a) (Some b) = Inr (Big_round 20 1 (a / b))"
  by (simp add: Big_new_div_def Big_new_def Big_div_def)

lemma map_err_linear_fails:
  assumes "\<exists>b \<in> set bs. bet_amount b = None"
  shows "map_err (linearEntry bp brp p) bs = Inl InvalidNumber"
proof -
  from assms obtain b where b: "b \<in> set bs" "bet_amount b = None" by blast
  show ?thesis
  proof (rule map_err_Inl [OF b(1)])
    show "linearEntry bp brp p b = Inl InvalidNumber"
      using b(2) by (rule linearEntry_None)
    fix y
    show "linearEntry bp brp p y = Inl InvalidNumber \<or> (\<exists>z. linearEntry bp brp p y = Inr z)"
      by (cases "bet_amount y") (simp_all add: linearEntry_None linearEntry_Some)
  qed
qed

lemma populateLeaderboard_ready:
  assumes "\<not> READ_ONLY env" and "currentRound st = Some P"
    and "query_round env P 1000 0 = Some (Some r)"
  shows "populateLeaderboard env st =
         processRound (keyNow env) P r
           (emit (Query_round P 1000 0) (emit Redis_get (swept (keyNow env) st)))"
  using assms by (simp add: populateLeaderboard_present Let_def)

text \<open>
  Claim C3, as amended. A tick that starts with the persisted pointer \<open>P\<close>, fetches round
  \<open>P\<close>, finds its position resolved and can compute both payout ratios (the three amounts
  of the round are numbers and neither side is empty) ends with the pointer \<open>P + 1\<close>,
  whether or not the computation of the metrics then fails. The pointer is written
  before any update of the matrix: in the trace of the tick the write of \<open>P + 1\<close> follows
  the fetch and everything after it is an update of the matrix. The only failure left
  is a bet whose amount is no number; the tick then ends with that error.
\<close>

theorem optimistic_pointer_advance:
  assumes "\<not> READ_ONLY env" and "currentRound st = Some P"
    and "query_round env P 1000 0 = Some (Some r)"
    and "round_position r = Some p" and "p \<noteq> []"
    and "totalAmount r = Some stake" and "bullAmount r = Some bull" and "bearAmount r = Some bear"
    and "bull \<noteq> 0" and "bear \<noteq> 0"
  shows "currentRound (fst (populateLeaderboard env st)) = Some (P + 1) \<and>
         (\<exists>ups. trace (fst (populateLeaderboard env st)) =
                  trace st @ sweep_trace (keyNow env) st
                    @ [Redis_get, Query_round P 1000 0, Redis_set (P + 1)] @ ups \<and>
                list_all (tick_update 1000) ups) \<and>
         (snd (populateLeaderboard env st) = None \<or>
          snd (populateLeaderboard env st) = Some InvalidNumber) \<and>
         (snd (populateLeaderboard env st) = Some InvalidNumber \<longleftrightarrow>
            list_ex (\<lambda>b. bet_amount b = None) (round_bets r))"
proof -
  let ?st3 = "emit (Query_round P 1000 0) (emit Redis_get (swept (keyNow env) st))"
  note eq = populateLeaderboard_ready [OF assms(1-3)]
  have bp: "Big_new_div (totalAmount r) (bullAmount r) = Inr (Big_round 20 1 (stake / bull))"
    using assms by (simp add: Big_new_div_Some)
  have brp: "Big_new_div (totalAmount r) (bearAmount r) = Inr (Big_round 20 1 (stake / bear))"
    using assms by (simp add: Big_new_div_Some)
  note ptr = processRound_pointer [OF assms(4,5) bp brp, of "keyNow env" P ?st3]
  note pr = processRound_ready [OF assms(4,5) bp brp, of "keyNow env" P ?st3]
  have len: "length (round_bets r) \<le> 1000"
    using assms(3) by (rule query_round_length)
  from ptr(2) obtain ups where ups:
    "trace (fst (processRound (keyNow env) P r ?st3)) = trace ?st3 @ Redis_set (P + 1) # ups"
    "list_all (tick_update (length (round_bets r))) ups"
    by blast
  from ups(2) len have "list_all (tick_update 1000) ups"
    by (auto simp: list_all_iff intro: tick_update_mono)
  with ups(1) have tr: "\<exists>ups. trace (fst (populateLeaderboard env st)) =
                  trace st @ sweep_trace (keyNow env) st
                    @ [Redis_get, Query_round P 1000 0, Redis_set (P + 1)] @ ups \<and>
                list_all (tick_update 1000) ups"
    unfolding eq by simp
  have out: "snd (populateLeaderboard env st) =
             (if list_ex (\<lambda>b. bet_amount b = None) (round_bets r) then Some InvalidNumber else None)"
  proof (cases "list_ex (\<lambda>b. bet_amount b = None) (round_bets r)")
    case True
    then have "\<exists>b \<in> set (round_bets r). bet_amount b = None"
      by (simp add: list_ex_iff)
    from map_err_linear_fails [OF this] True show ?thesis
      unfolding eq pr by simp
  next
    case False
    then have "\<forall>b \<in> set (round_bets r). bet_amount b \<noteq> None"
      by (simp add: list_ex_iff)
    from map_err_linear_ok [OF this] False show ?thesis
      unfolding eq pr by (simp add: derivedMetrics_dimensions)
  qed
  from ptr(1) have "currentRound (fst (populateLeaderboard env st)) = Some (P + 1)"
    unfolding eq .
  with tr out show ?thesis by simp
qed

text \<open>
  The theorem at a round whose only bet has a malformed amount: the computation of the
  metrics fails and the pointer has moved from 5 to 6.
\<close>

theorem optimistic_pointer_advance_witness:
  "\<not> READ_ONLY malformed_env \<and> currentRound stale_state = Some 5 \<and>
   query_round malformed_env 5 1000 0 = Some (Some malformed_round) \<and>
   round_position malformed_round = Some ''Bull'' \<and> ''Bull'' \<noteq> [] \<and>
   totalAmount malformed_round = Some 15 \<and> bullAmount malformed_round = Some 10 \<and>
   bearAmount malformed_round = Some 5 \<and> (10::rat) \<noteq> 0 \<and> (5::rat) \<noteq> 0 \<and>
   currentRound (fst (populateLeaderboard malformed_env stale_state)) = Some 6 \<and>
   snd (populateLeaderboard malformed_env stale_state) = Some InvalidNumber"
proof -
  have h1: "\<not> READ_ONLY malformed_env" by (simp add: malformed_env_def)
  have h2: "currentRound stale_state = Some 5" by (simp add: stale_state_def)
  have h3: "query_round malformed_env 5 1000 0 = Some (Some malformed_round)"
    by (simp add: query_round_def malformed_env_def malformed_round_def)
  have h4: "round_position malformed_round = Some ''Bull''" by (simp add: malformed_round_def)
  have h5: "''Bull'' \<noteq> []" by simp
  have h6: "totalAmount malformed_round = Some 15" "bullAmount malformed_round = Some 10"
    "bearAmount malformed_round = Some 5" by (simp_all add: malformed_round_def)
  have h7: "(10::rat) \<noteq> 0" "(5::rat) \<noteq> 0" by simp_all
  note th = optimistic_pointer_advance [OF h1 h2 h3 h4 h5 h6 h7]
  from th [THEN conjunct1] have a: "currentRound (fst (populateLeaderboard malformed_env stale_state)) = Some 6"
    by simp
  from th [THEN conjunct2, THEN conjunct2, THEN conjunct2]
  have b: "snd (populateLeaderboard malformed_env stale_state) = Some InvalidNumber"
    by (simp add: malformed_round_def)
  from h1 h2 h3 h4 h5 h6 h7 a b show ?thesis by blast
qed

text \<open>
  Claim C3 as stated fails: round 5 is resolved, but nobody bet on Bear; the payout of
  Bear is a division by zero, which is thrown before the pointer is written, and the
  pointer stays at 5.
\<close>

theorem pointer_stalls_on_empty_side:
  "currentRound stale_state = Some 5 \<and>
   query_round one_sided_env 5 1000 0 = Some (Some one_sided_round) \<and>
   round_position one_sided_round = Some ''Bull'' \<and>
   snd (populateLeaderboard one_sided_env stale_state) = Some DivisionByZero \<and>
   currentRound (fst (populateLeaderboard one_sided_env stale_state)) = Some 5"
proof -
  have h1: "\<not> READ_ONLY one_sided_env" by (simp add: one_sided_env_def)
  have h2: "currentRound stale_state = Some 5" by (simp add: stale_state_def)
  have h3: "query_round one_sided_env 5 1000 0 = Some (Some one_sided_round)"
    by (simp add: query_round_def one_sided_env_def one_sided_round_def)
  note eq = populateLeaderboard_ready [OF h1 h2 h3]
  have bull: "Big_new_div (totalAmount one_sided_round) (bullAmount one_sided_round) =
              Inr (Big_round 20 1 (10 / 10))"
    by (simp add: one_sided_round_def Big_new_div_Some)
  have bear: "Big_new_div (totalAmount one_sided_round) (bearAmount one_sided_round) =
              Inl DivisionByZero"
    by (simp add: one_sided_round_def Big_new_div_def Big_new_def Big_div_def)
  have pos: "round_position one_sided_round = Some ''Bull''"
    by (simp add: one_sided_round_def)
  have "processRound kn 5 one_sided_round s = (s, Some DivisionByZero)" for kn s
    by (simp add: processRound_def pos bull bear)
  with h2 h3 pos show ?thesis
    unfolding eq by simp
qed

lemma find_linear:
  assumes "f \<in> set linear_features"
  shows "\<exists>ft. List.find (\<lambda>ft. feat_name ft = f) features = Some ft \<and> updatePolicy ft = aggregate"
  using assms by (auto simp: linear_features_def features_def)

lemma linear_of_value:
  assumes "bet_amount b \<noteq> None" and "f \<in> set linear_features"
  shows "entry_id (linear_of bp brp p b) = bet_user b \<and>
         map_of (entry_values (linear_of bp brp p b)) f = Some (contribution bp brp p f b)"
proof -
  from assms(1) obtain a where a: "bet_amount b = Some a" by auto
  with assms(2) show ?thesis
    by (auto simp: linear_of_def linearEntry_Some contribution_def linear_features_def)
qed

lemma contribution_values:
  assumes "bet_amount b = Some a"
  shows "contribution bp brp p ''amount_played'' b = 1"
    and "contribution bp brp p ''total_bet'' b = toNumber (Big_round 7 0 a)"
    and "contribution bp brp p ''winnings'' b = (if bet_position b = p then 1 else 0)"
    and "contribution bp brp p ''losses'' b = (if bet_position b = p then 0 else 1)"
    and "contribution bp brp p ''bnb_won'' b =
           (if bet_position b = p
            then toNumber (Big_round 7 0 ((if p = ''Bull'' then bp else brp) * a * (97 / 100) - a))
            else 0)"
    and "contribution bp brp p ''bnb_won_even'' b =
           (if bet_position b = p
            then toNumber (Big_round 7 0 ((if p = ''Bull'' then bp else brp) * 1 * (97 / 100) - 1))
            else 0)"
  using assms by (simp_all add: contribution_def linear_of_def linearEntry_Some)

lemma linear_cells:
  assumes "\<forall>b \<in> set bets. bet_amount b \<noteq> None"
    and "d \<in> set (map dim_name dimensions)" and "f \<in> set linear_features"
  shows "cellTable kn (leaderboard_update kn (map (linear_of bp brp p) bets)
                         (map dim_name dimensions) st) d f x =
         (if x \<in> bet_user ` set bets
          then Some (double_sum (case cellTable kn st d f x of None \<Rightarrow> 0 | Some s \<Rightarrow> s)
                 (map (contribution bp brp p f) (filter (\<lambda>b. bet_user b = x) bets)))
          else cellTable kn st d f x)"
proof -
  from find_linear [OF assms(3)] obtain ft where
    ft: "List.find (\<lambda>ft. feat_name ft = f) features = Some ft" "updatePolicy ft = aggregate"
    by blast
  have "cellTable kn (leaderboard_update kn (map (linear_of bp brp p) bets)
                         (map dim_name dimensions) st) d f =
        fold (applyEntry aggregate f) (map (linear_of bp brp p) bets) (cellTable kn st d f)"
    unfolding leaderboard_update_def
    using cellTable_matrix_update_in [OF distinct_dimension_names assms(2) assms(2) ft(1)]
    by (simp add: ft(2))
  moreover have "fold (applyEntry aggregate f) (map (linear_of bp brp p) bets) (cellTable kn st d f) x =
         (if x \<in> bet_user ` set bets
          then Some (double_sum (case cellTable kn st d f x of None \<Rightarrow> 0 | Some s \<Rightarrow> s)
                 (map (contribution bp brp p f) (filter (\<lambda>b. bet_user b = x) bets)))
          else cellTable kn st d f x)"
    using assms(1,3) by (intro fold_aggregate linear_of_value) auto
  ultimately show ?thesis by simp
qed

lemma linear_cells_other:
  assumes "\<forall>b \<in> set bets. bet_amount b \<noteq> None" and "f \<notin> set linear_features"
  shows "cellTable kn (leaderboard_update kn (map (linear_of bp brp p) bets)
                         (map dim_name dimensions) st) d f = cellTable kn st d f"
proof (cases "d \<in> set (map dim_name dimensions) \<and>
              List.find (\<lambda>ft. feat_name ft = f) features \<noteq> None")
  case False
  then show ?thesis
    unfolding leaderboard_update_def
    by (subst cellTable_matrix_update_out) auto
next
  case True
  then obtain ft where ft: "List.find (\<lambda>ft. feat_name ft = f) features = Some ft"
    and d: "d \<in> set (map dim_name dimensions)" by auto
  have "\<forall>e \<in> set (map (linear_of bp brp p) bets). map_of (entry_values e) f = None"
  proof
    fix e assume "e \<in> set (map (linear_of bp brp p) bets)"
    then obtain b where b: "b \<in> set bets" "e = linear_of bp brp p b" by auto
    with assms(1) obtain a where "bet_amount b = Some a" by auto
    with b assms(2) show "map_of (entry_values e) f = None"
      by (simp add: linear_of_def linearEntry_Some linear_features_def)
  qed
  then have "fold (applyEntry (updatePolicy ft) f) (map (linear_of bp brp p) bets) t = t" for t
    by (rule fold_applyEntry_absent)
  then show ?thesis
    unfolding leaderboard_update_def
    using cellTable_matrix_update_in [OF distinct_dimension_names d d ft]
    by simp
qed

lemma round_success:
  assumes "\<not> READ_ONLY env"
    and "getCurrentRound env (swept (keyNow env) st) = (st2, Inr P)"
    and "query_round env P 1000 0 = Some (Some r)"
    and "round_position r = Some p" and "p \<noteq> []"
    and "totalAmount r = Some stake" and "bullAmount r = Some bull" and "bearAmount r = Some bear"
    and "bull \<noteq> 0" and "bear \<noteq> 0"
    and "\<forall>b \<in> set (round_bets r). bet_amount b \<noteq> None"
  shows "populateLeaderboard env st =
         derivedMetrics (keyNow env) (round_bets r) dimensions
           (leaderboard_update (keyNow env)
              (map (linear_of (Big_round 20 1 (stake / bull)) (Big_round 20 1 (stake / bear)) p)
                 (round_bets r))
              (map dim_name dimensions)
              (setCurrentRound (P + 1) (emit (Query_round P 1000 0) st2)))"
proof -
  have bp: "Big_new_div (totalAmount r) (bullAmount r) = Inr (Big_round 20 1 (stake / bull))"
    using assms by (simp add: Big_new_div_Some)
  have brp: "Big_new_div (totalAmount r) (bearAmount r) = Inr (Big_round 20 1 (stake / bear))"
    using assms by (simp add: Big_new_div_Some)
  show ?thesis
    using assms(2,3) processRound_success [OF assms(4,5) bp brp assms(11)]
    by (simp add: populateLeaderboard_unfold [OF assms(1)] fetchRound_def)
qed

lemma round_cells:
  assumes "\<not> READ_ONLY env"
    and "getCurrentRound env (swept (keyNow env) st) = (st2, Inr P)"
    and "query_round env P 1000 0 = Some (Some r)"
    and "round_position r = Some p" and "p \<noteq> []"
    and "totalAmount r = Some stake" and "bullAmount r = Some bull" and "bearAmount r = Some bear"
    and "bull \<noteq> 0" and "bear \<noteq> 0"
    and "\<forall>b \<in> set (round_bets r). bet_amount b \<noteq> None"
    and "d \<in> set (map dim_name dimensions)"
  shows "snd (populateLeaderboard env st) = None"
    and "f \<in> set linear_features \<Longrightarrow>
         cellFind (keyNow env) (fst (populateLeaderboard env st)) d f x =
           (if x \<in> bet_user ` set (round_bets r)
            then Some (double_sum (previous (keyNow env) st d f x)
                   (map (contribution (Big_round 20 1 (stake / bull))
                           (Big_round 20 1 (stake / bear)) p f)
                      (filter (\<lambda>b. bet_user b = x) (round_bets r))))
            else cellFind (keyNow env) st d f x)"
    and "cellFind (keyNow env) (fst (populateLeaderboard env st)) d ''winrate'' x =
           (if x \<in> bet_user ` set (round_bets r)
            then Some (derived_winrate (keyNow env) (fst (populateLeaderboard env st)) d x)
            else cellFind (keyNow env) st d ''winrate'' x)"
    and "cellFind (keyNow env) (fst (populateLeaderboard env st)) d ''avg_bet'' x =
           (if x \<in> bet_user ` set (round_bets r)
            then Some (derived_avg_bet (keyNow env) (fst (populateLeaderboard env st)) d x)
            else cellFind (keyNow env) st d ''avg_bet'' x)"
proof -
  let ?kn = "keyNow env"
  let ?bp = "Big_round 20 1 (stake / bull)" and ?brp = "Big_round 20 1 (stake / bear)"
  let ?st4 = "setCurrentRound (P + 1) (emit (Query_round P 1000 0) st2)"
  let ?lin = "leaderboard_update ?kn (map (linear_of ?bp ?brp p) (round_bets r))
                (map dim_name dimensions) ?st4"
  let ?fin = "fst (populateLeaderboard env st)"
  note eq = round_success [OF assms(1-11)]
  have "cellTable ?kn st2 d' f' = cellTable ?kn (swept ?kn st) d' f'" for d' f'
    using getCurrentRound_shape [of env "swept ?kn st"] assms(2)
    by (intro cellTable_cong) simp_all
  then have st2c: "cellTable ?kn st2 d' f' = cellTable ?kn st d' f'" for d' f'
    by simp
  then have st4: "cellTable ?kn ?st4 d' f' = cellTable ?kn st d' f'" for d' f'
    by simp
  note dm = derivedMetrics_cells [OF subset_refl distinct_dimension_names,
      of ?kn "round_bets r" ?lin]
  show "snd (populateLeaderboard env st) = None"
    unfolding eq using dm by simp
  have fin: "cellTable ?kn ?fin d' f' =
            (if d' \<in> dim_name ` set dimensions \<and> f' = ''winrate''
             then (\<lambda>x. if x \<in> bet_user ` set (round_bets r)
                       then Some (derived_winrate ?kn ?lin d' x)
                       else cellTable ?kn ?lin d' f' x)
             else if d' \<in> dim_name ` set dimensions \<and> f' = ''avg_bet''
             then (\<lambda>x. if x \<in> bet_user ` set (round_bets r)
                       then Some (derived_avg_bet ?kn ?lin d' x)
                       else cellTable ?kn ?lin d' f' x)
             else cellTable ?kn ?lin d' f')" for d' f'
    unfolding eq using dm by blast
  have same: "derived_winrate ?kn ?fin d' x' = derived_winrate ?kn ?lin d' x'"
             "derived_avg_bet ?kn ?fin d' x' = derived_avg_bet ?kn ?lin d' x'" for d' x'
    by (rule derived_cong; simp add: fin)+
  have d: "d \<in> dim_name ` set dimensions" using assms(12) by simp
  have nl: "''winrate'' \<notin> set linear_features" "''avg_bet'' \<notin> set linear_features"
    by (simp_all add: linear_features_def)
  show "cellFind ?kn ?fin d ''winrate'' x =
           (if x \<in> bet_user ` set (round_bets r)
            then Some (derived_winrate ?kn ?fin d x)
            else cellFind ?kn st d ''winrate'' x)"
    using d by (simp add: cellFind_def fin same st2c linear_cells_other [OF assms(11) nl(1)])
  show "cellFind ?kn ?fin d ''avg_bet'' x =
           (if x \<in> bet_user ` set (round_bets r)
            then Some (derived_avg_bet ?kn ?fin d x)
            else cellFind ?kn st d ''avg_bet'' x)"
    using d by (simp add: cellFind_def fin same st2c linear_cells_other [OF assms(11) nl(2)])
  assume f: "f \<in> set linear_features"
  then have fd: "f \<noteq> ''winrate''" "f \<noteq> ''avg_bet''"
    by (auto simp: linear_features_def)
  show "cellFind ?kn ?fin d f x =
           (if x \<in> bet_user ` set (round_bets r)
            then Some (double_sum (previous ?kn st d f x)
                   (map (contribution ?bp ?brp p f)
                      (filter (\<lambda>b. bet_user b = x) (round_bets r))))
            else cellFind ?kn st d f x)"
    using fd
    by (simp add: cellFind_def previous_def fin st2c linear_cells [OF assms(11,12) f])
qed

lemma acquire_present:
  "currentRound st = Some P \<Longrightarrow>
   getCurrentRound env (swept (keyNow env) st) = (emit Redis_get (swept (keyNow env) st), Inr P)"
  by (simp add: getCurrentRound_present)

lemma acquire_seed:
  "currentRound st = None \<Longrightarrow> query_rounds env 10 = Some rs \<Longrightarrow> 1 < length rs \<Longrightarrow>
   getCurrentRound env (swept (keyNow env) st) =
     (setCurrentRound (epoch (rs ! 1))
        (emit (Query_rounds 10) (emit Redis_get (swept (keyNow env) st))),
      Inr (epoch (rs ! 1)))"
  by (simp add: getCurrentRound_seed)

lemmas tick_cells = round_cells [OF _ acquire_present]

lemma floor_rat_numeral [simp]:
  "\<lfloor>numeral a / numeral b :: rat\<rfloor> = numeral a div numeral b"
  by (metis floor_divide_of_int_eq of_int_numeral)

lemma floor_rat_one [simp]:
  "\<lfloor>1 / numeral b :: rat\<rfloor> = 1 div numeral b"
  by (metis floor_divide_of_int_eq of_int_numeral of_int_1)

lemma Big_round_down: "Big_round dp 0 x = truncate_decimals dp x"
  by (simp add: Big_round_def truncate_decimals_def Let_def)

lemma floor_add_half:
  fixes a :: rat
  shows "\<lfloor>a + 1 / 2\<rfloor> = (if 1 / 2 \<le> a - of_int \<lfloor>a\<rfloor> then \<lfloor>a\<rfloor> + 1 else \<lfloor>a\<rfloor>)"
proof (cases "1 / 2 \<le> a - of_int \<lfloor>a\<rfloor>")
  case True
  have up: "a < of_int \<lfloor>a\<rfloor> + 1" by linarith
  have "\<lfloor>a + 1 / 2\<rfloor> = \<lfloor>a\<rfloor> + 1"
  proof (rule floor_unique)
    show "of_int (\<lfloor>a\<rfloor> + 1) \<le> a + 1 / 2"
      using True unfolding of_int_add of_int_1 by linarith
    show "a + 1 / 2 < of_int (\<lfloor>a\<rfloor> + 1) + 1"
      using up unfolding of_int_add of_int_1 by linarith
  qed
  with True show ?thesis by simp
next
  case False
  have low: "of_int \<lfloor>a\<rfloor> \<le> a" by simp
  have "\<lfloor>a + 1 / 2\<rfloor> = \<lfloor>a\<rfloor>"
  proof (rule floor_unique)
    show "of_int \<lfloor>a\<rfloor> \<le> a + 1 / 2" using low by linarith
    show "a + 1 / 2 < of_int \<lfloor>a\<rfloor> + 1" using False by linarith
  qed
  with False show ?thesis by simp
qed

lemma Big_round_half_up: "Big_round dp 1 x = round_half_away dp x"
  by (simp add: Big_round_def round_half_away_def Let_def floor_add_half)

lemma truncate_decimals_bounds:
  "\<bar>truncate_decimals dp x\<bar> \<le> \<bar>x\<bar> \<and> \<bar>x\<bar> - \<bar>truncate_decimals dp x\<bar> < 1 / 10 ^ dp"
proof -
  define a where "a = \<bar>x\<bar> * 10 ^ dp"
  have a0: "0 \<le> a" by (simp add: a_def)
  then have q0: "0 \<le> \<lfloor>a\<rfloor>" by simp
  have x: "\<bar>x\<bar> = a / 10 ^ dp" by (simp add: a_def)
  have t: "\<bar>truncate_decimals dp x\<bar> = (if x = 0 then 0 else of_int \<lfloor>a\<rfloor> / 10 ^ dp)"
    using q0 by (simp add: truncate_decimals_def a_def abs_mult abs_sgn_eq)
  have z: "x = 0 \<Longrightarrow> a = 0" by (simp add: a_def)
  have le: "of_int \<lfloor>a\<rfloor> \<le> a" by simp
  have lt: "a - of_int \<lfloor>a\<rfloor> < 1" by linarith
  have "of_int \<lfloor>a\<rfloor> / 10 ^ dp \<le> a / (10 ^ dp :: rat)"
    using le by (simp add: divide_right_mono)
  moreover have "a / 10 ^ dp - of_int \<lfloor>a\<rfloor> / 10 ^ dp < 1 / (10 ^ dp :: rat)"
    using lt by (simp add: diff_divide_distrib [symmetric] divide_strict_right_mono)
  ultimately show ?thesis
    using z by (auto simp: t x)
qed

lemma Big_round_half_up_Suc: "Big_round dp (Suc 0) x = round_half_away dp x"
  using Big_round_half_up [of dp x] by simp

lemmas Big_eval = Big_round_down Big_round_half_up Big_round_half_up_Suc
  truncate_decimals_def round_half_away_def

lemma bet_A_simps [simp]:
  "bet_user bet_A = ''A''" "bet_amount bet_A = Some 10" "bet_position bet_A = ''Bull''"
  by (simp_all add: bet_A_def)

lemma bet_B_simps [simp]:
  "bet_user bet_B = ''B''" "bet_amount bet_B = Some 5" "bet_position bet_B = ''Bear''"
  by (simp_all add: bet_B_def)

lemma dust_bet_simps [simp]:
  "bet_user dust_bet = ''A''" "bet_amount dust_bet = Some (1 / 10 ^ 8)"
  "bet_position dust_bet = ''Bull''"
  by (simp_all add: dust_bet_def)

lemma cellFind_fresh [simp]: "cellFind kn fresh_state d f x = None"
  by (simp add: cellFind_def cellTable_def fresh_state_def getLeaderboardAt_def
        split: option.splits handle.splits)

lemma previous_fresh [simp]: "previous kn fresh_state d f x = 0"
  by (simp add: previous_def)

lemma world_dimension [simp]: "''world'' \<in> dim_name ` set dimensions"
  by (simp add: dimensions_def)

section \<open>One page of bets\<close>

lemma query_round_take:
  "sg_round env P = Some (Some r0) \<Longrightarrow>
   query_round env P 1000 0 = Some (Some (r0\<lparr>round_bets := take 1000 (round_bets r0)\<rparr>))"
  by (simp add: query_round_def)

text \<open>
  Claim C9. \<^verbatim>\<open>fetchRound\<close> sends one query, for the first 1000 bets with skip 0; the
  round it returns holds the first 1000 bets of the round and no more. A tick sends at
  most one such query, every batch it applies has at most 1000 entries, and its result
  is the result it would have if the subgraph held only the first 1000 bets of every
  round. When the round is ready, the first 1000 bets are applied and no other: in every
  dimension the score of every linear feature of a participant of one of the first 1000
  bets grows by what those of the first 1000 bets that are the participant's contribute,
  and the scores of everybody else, a participant of later bets only included, stay as
  they were. The round is then marked consumed: the pointer moves on.
\<close>

theorem first_thousand_bets_only:
  "fetchRound env ID st = (emit (Query_round ID 1000 0) st, query_round env ID 1000 0) \<and>
   (\<forall>r. query_round env ID 1000 0 = Some (Some r) \<longrightarrow>
      length (round_bets r) \<le> 1000 \<and>
      (\<exists>r0. sg_round env ID = Some (Some r0) \<and> round_bets r = take 1000 (round_bets r0))) \<and>
   populateLeaderboard (truncate_bets 1000 env) st = populateLeaderboard env st \<and>
   (\<not> READ_ONLY env \<longrightarrow>
      (\<exists>evs. trace (fst (populateLeaderboard env st)) =
               trace st @ sweep_trace (keyNow env) st @ Redis_get # evs \<and>
             list_all tick_event evs \<and> length (filter is_Query_round evs) \<le> 1)) \<and>
   (\<forall>st2 P r0 p stake bull bear.
      \<not> READ_ONLY env \<and> getCurrentRound env (swept (keyNow env) st) = (st2, Inr P) \<and>
      sg_round env P = Some (Some r0) \<and> round_position r0 = Some p \<and> p \<noteq> [] \<and>
      totalAmount r0 = Some stake \<and> bullAmount r0 = Some bull \<and> bearAmount r0 = Some bear \<and>
      bull \<noteq> 0 \<and> bear \<noteq> 0 \<and>
      (\<forall>b \<in> set (take 1000 (round_bets r0)). bet_amount b \<noteq> None) \<longrightarrow>
      snd (populateLeaderboard env st) = None \<and>
      currentRound (fst (populateLeaderboard env st)) = Some (P + 1) \<and>
      (\<forall>d f x. d \<in> set (map dim_name dimensions) \<and> f \<in> set linear_features \<longrightarrow>
         cellFind (keyNow env) (fst (populateLeaderboard env st)) d f x =
           (if x \<in> bet_user ` set (take 1000 (round_bets r0))
            then Some (double_sum (previous (keyNow env) st d f x)
                   (map (contribution (Big_round 20 1 (stake / bull))
                           (Big_round 20 1 (stake / bear)) p f)
                      (filter (\<lambda>b. bet_user b = x) (take 1000 (round_bets r0)))))
            else cellFind (keyNow env) st d f x)))"
proof (intro conjI allI impI)
  show "fetchRound env ID st = (emit (Query_round ID 1000 0) st, query_round env ID 1000 0)"
    by (simp add: fetchRound_def)
  show "populateLeaderboard (truncate_bets 1000 env) st = populateLeaderboard env st"
    by (rule populateLeaderboard_truncate)
next
  fix r assume q: "query_round env ID 1000 0 = Some (Some r)"
  then show "length (round_bets r) \<le> 1000" by (rule query_round_length)
  from q show "\<exists>r0. sg_round env ID = Some (Some r0) \<and> round_bets r = take 1000 (round_bets r0)"
    by (auto simp: query_round_def)
next
  assume "\<not> READ_ONLY env"
  then show "\<exists>evs. trace (fst (populateLeaderboard env st)) =
               trace st @ sweep_trace (keyNow env) st @ Redis_get # evs \<and>
             list_all tick_event evs \<and> length (filter is_Query_round evs) \<le> 1"
    by (rule tick_shape)
next
  fix st2 P r0 p stake bull bear
  assume h: "\<not> READ_ONLY env \<and> getCurrentRound env (swept (keyNow env) st) = (st2, Inr P) \<and>
      sg_round env P = Some (Some r0) \<and> round_position r0 = Some p \<and> p \<noteq> [] \<and>
      totalAmount r0 = Some stake \<and> bullAmount r0 = Some bull \<and> bearAmount r0 = Some bear \<and>
      bull \<noteq> 0 \<and> bear \<noteq> 0 \<and>
      (\<forall>b \<in> set (take 1000 (round_bets r0)). bet_amount b \<noteq> None)"
  let ?r = "r0\<lparr>round_bets := take 1000 (round_bets r0)\<rparr>"
  have q: "query_round env P 1000 0 = Some (Some ?r)"
    using h by (simp add: query_round_take)
  have r: "round_position ?r = Some p" "p \<noteq> []" "totalAmount ?r = Some stake"
    "bullAmount ?r = Some bull" "bearAmount ?r = Some bear" "bull \<noteq> 0" "bear \<noteq> 0"
    "\<forall>b \<in> set (round_bets ?r). bet_amount b \<noteq> None"
    using h by simp_all
  note ok = round_success [OF h [THEN conjunct1] h [THEN conjunct2, THEN conjunct1] q r]
  note cells = round_cells [OF h [THEN conjunct1] h [THEN conjunct2, THEN conjunct1] q r]
  show "snd (populateLeaderboard env st) = None"
    by (rule cells(1) [of "''world''"]) (simp add: dimensions_def)
  show "currentRound (fst (populateLeaderboard env st)) = Some (P + 1)"
    unfolding ok by (simp add: derivedMetrics_dimensions)
  fix d f x
  assume "d \<in> set (map dim_name dimensions) \<and> f \<in> set linear_features"
  then show "cellFind (keyNow env) (fst (populateLeaderboard env st)) d f x =
           (if x \<in> bet_user ` set (take 1000 (round_bets r0))
            then Some (double_sum (previous (keyNow env) st d f x)
                   (map (contribution (Big_round 20 1 (stake / bull))
                           (Big_round 20 1 (stake / bear)) p f)
                      (filter (\<lambda>b. bet_user b = x) (take 1000 (round_bets r0)))))
            else cellFind (keyNow env) st d f x)"
    using cells(2) [of d f x] by simp
qed

lemma thousand_and_one_hyps:
  "\<not> READ_ONLY thousand_and_one_env"
  "getCurrentRound thousand_and_one_env (swept (keyNow thousand_and_one_env) fresh_state) =
     (emit Redis_get (swept (keyNow thousand_and_one_env) fresh_state), Inr 5)"
  "sg_round thousand_and_one_env 5 = Some (Some thousand_and_one_round)"
  "round_position thousand_and_one_round = Some ''Bull''" "''Bull'' \<noteq> []"
  "totalAmount thousand_and_one_round = Some 2002" "bullAmount thousand_and_one_round = Some 1001"
  "bearAmount thousand_and_one_round = Some 1001" "(1001::rat) \<noteq> 0"
  "\<forall>b \<in> set (take 1000 (round_bets thousand_and_one_round)). bet_amount b \<noteq> None"
  "take 1000 (round_bets thousand_and_one_round) = replicate 1000 early_bet"
  "length (round_bets thousand_and_one_round) = 1001"
  "round_bets thousand_and_one_round ! 1000 = late_bet"
proof -
  show "getCurrentRound thousand_and_one_env (swept (keyNow thousand_and_one_env) fresh_state) =
     (emit Redis_get (swept (keyNow thousand_and_one_env) fresh_state), Inr 5)"
    by (rule acquire_present) (simp add: fresh_state_def)
qed (simp_all add: thousand_and_one_env_def thousand_and_one_round_def early_bet_def nth_append)

text \<open>
  The theorem at a round of 1001 bets, the first 1000 of participant \<open>A\<close> and the last
  of participant \<open>B\<close>, from empty tables: the tick succeeds, \<open>A\<close> has played 1000 times
  and \<open>B\<close> is in no table.
\<close>

theorem first_thousand_bets_only_witness:
  "\<not> READ_ONLY thousand_and_one_env \<and>
   getCurrentRound thousand_and_one_env (swept (keyNow thousand_and_one_env) fresh_state) =
     (emit Redis_get (swept (keyNow thousand_and_one_env) fresh_state), Inr 5) \<and>
   sg_round thousand_and_one_env 5 = Some (Some thousand_and_one_round) \<and>
   length (round_bets thousand_and_one_round) = 1001 \<and>
   take 1000 (round_bets thousand_and_one_round) = replicate 1000 early_bet \<and>
   round_bets thousand_and_one_round ! 1000 = late_bet \<and>
   bet_user early_bet = ''A'' \<and> bet_user late_bet = ''B'' \<and> bet_amount late_bet = Some 1 \<and>
   round_position thousand_and_one_round = Some ''Bull'' \<and>
   totalAmount thousand_and_one_round = Some 2002 \<and>
   bullAmount thousand_and_one_round = Some 1001 \<and>
   bearAmount thousand_and_one_round = Some 1001 \<and>
   (\<exists>r. query_round thousand_and_one_env 5 1000 0 = Some (Some r) \<and> length (round_bets r) = 1000) \<and>
   populateLeaderboard (truncate_bets 1000 thousand_and_one_env) fresh_state =
     populateLeaderboard thousand_and_one_env fresh_state \<and>
   snd (populateLeaderboard thousand_and_one_env fresh_state) = None \<and>
   currentRound (fst (populateLeaderboard thousand_and_one_env fresh_state)) = Some 6 \<and>
   cellFind (keyNow thousand_and_one_env) (fst (populateLeaderboard thousand_and_one_env fresh_state))
     ''world'' ''amount_played'' ''A'' = Some 1000 \<and>
   cellFind (keyNow thousand_and_one_env) (fst (populateLeaderboard thousand_and_one_env fresh_state))
     ''world'' ''amount_played'' ''B'' = None"
proof -
  note th = first_thousand_bets_only [of thousand_and_one_env 5 fresh_state]
  note h = thousand_and_one_hyps
  have pre: "\<not> READ_ONLY thousand_and_one_env \<and>
      getCurrentRound thousand_and_one_env (swept (keyNow thousand_and_one_env) fresh_state) =
        (emit Redis_get (swept (keyNow thousand_and_one_env) fresh_state), Inr 5) \<and>
      sg_round thousand_and_one_env 5 = Some (Some thousand_and_one_round) \<and>
      round_position thousand_and_one_round = Some ''Bull'' \<and> ''Bull'' \<noteq> [] \<and>
      totalAmount thousand_and_one_round = Some 2002 \<and>
      bullAmount thousand_and_one_round = Some 1001 \<and>
      bearAmount thousand_and_one_round = Some 1001 \<and>
      (1001::rat) \<noteq> 0 \<and> (1001::rat) \<noteq> 0 \<and>
      (\<forall>b \<in> set (take 1000 (round_bets thousand_and_one_round)). bet_amount b \<noteq> None)"
    using h by blast
  note run = th [THEN conjunct2, THEN conjunct2, THEN conjunct2, THEN conjunct2, rule_format, OF pre]
  note cell = run [THEN conjunct2, THEN conjunct2, rule_format, OF conjI]
  have d: "''world'' \<in> set (map dim_name dimensions)" by (simp add: dimensions_def)
  have f: "''amount_played'' \<in> set linear_features" by (simp add: linear_features_def)
  have e: "bet_user early_bet = ''A''" "bet_amount early_bet = Some 1"
    "bet_user late_bet = ''B''" "bet_amount late_bet = Some 1"
    by (simp_all add: early_bet_def late_bet_def)
  have ones: "replicate 1000 (1::rat) = map of_nat (replicate 1000 1)" by simp
  have sum: "double_sum 0 (replicate 1000 1) = 1000"
    unfolding ones using double_sum_of_nat [of 0 "replicate 1000 1"]
    by (simp add: sum_list_replicate)
  have A: "cellFind (keyNow thousand_and_one_env)
      (fst (populateLeaderboard thousand_and_one_env fresh_state))
      ''world'' ''amount_played'' ''A'' = Some 1000"
    using cell [OF d f, of "''A''"]
    by (simp add: h(11) e contribution_values(1) [OF e(2)] sum)
  have B: "cellFind (keyNow thousand_and_one_env)
      (fst (populateLeaderboard thousand_and_one_env fresh_state))
      ''world'' ''amount_played'' ''B'' = None"
    using cell [OF d f, of "''B''"]
    by (simp add: h(11) e)
  have q: "\<exists>r. query_round thousand_and_one_env 5 1000 0 = Some (Some r) \<and> length (round_bets r) = 1000"
    by (simp add: query_round_take [OF h(3)] h(12))
  from h(1,2,3,12,11,13) e(1,3,4) h(4,6,7,8) q
    th [THEN conjunct2, THEN conjunct2, THEN conjunct1]
    run [THEN conjunct1] run [THEN conjunct2, THEN conjunct1] A B
  show ?thesis by simp
qed

section \<open>What a round adds to the linear metrics\<close>

lemma sum_indicator:
  "sum_list (map (\<lambda>b. if P b then 1 else 0) bs) = length (filter P bs)"
  by (induction bs) simp_all

lemma double_sum_count:
  assumes "\<forall>b \<in> set bs. c b = (if P b then 1 else 0)"
    and "k + length (filter P bs) < 2 ^ 53"
  shows "double_sum (of_nat k) (map c bs) = of_nat (k + length (filter P bs))"
proof -
  have eq: "map c bs = map of_nat (map (\<lambda>b. if P b then 1 else 0 :: nat) bs)"
    using assms(1) by (auto simp: comp_def)
  show ?thesis
    unfolding eq
    using double_sum_of_nat [of k "map (\<lambda>b. if P b then 1 else 0) bs"] assms(2)
    unfolding sum_indicator by blast
qed

lemma count_cell:
  assumes "\<not> READ_ONLY env"
    and "getCurrentRound env (swept (keyNow env) st) = (st2, Inr P)"
    and "query_round env P 1000 0 = Some (Some r)"
    and "round_position r = Some p" and "p \<noteq> []"
    and "totalAmount r = Some stake" and "bullAmount r = Some bull" and "bearAmount r = Some bear"
    and "bull \<noteq> 0" and "bear \<noteq> 0"
    and "\<forall>b \<in> set (round_bets r). bet_amount b \<noteq> None"
    and "d \<in> set (map dim_name dimensions)" and "x \<in> bet_user ` set (round_bets r)"
    and "f \<in> set linear_features"
    and "\<forall>b \<in> set (round_bets r).
           contribution (Big_round 20 1 (stake / bull)) (Big_round 20 1 (stake / bear)) p f b =
             (if Q b then 1 else 0)"
    and "previous (keyNow env) st d f x = of_nat k"
    and "k + length (filter Q (filter (\<lambda>b. bet_user b = x) (round_bets r))) < 2 ^ 53"
  shows "cellFind (keyNow env) (fst (populateLeaderboard env st)) d f x =
           Some (of_nat (k + length (filter Q (filter (\<lambda>b. bet_user b = x) (round_bets r)))))"
proof -
  have "\<forall>b \<in> set (filter (\<lambda>b. bet_user b = x) (round_bets r)).
           contribution (Big_round 20 1 (stake / bull)) (Big_round 20 1 (stake / bear)) p f b =
             (if Q b then 1 else 0)"
    using assms(15) by simp
  from double_sum_count [OF this assms(17)] round_cells(2) [OF assms(1-12) assms(14), of x]
  show ?thesis using assms(13,16) by simp
qed

text \<open>
  Claim C6, as amended. In a tick that processes a ready round, whether its pointer was
  found or seeded, in every dimension and for every aggregate feature of the linear
  batch, the score of a participant of the round is the score before the tick (0 if
  absent) to which what each of the participant's bets contributes is added, bet after
  bet in the order of the round, every sum being the nearest double. A bet contributes 1
  to \<^verbatim>\<open>amount_played\<close>; 1 to \<^verbatim>\<open>winnings\<close> if its position is the round's, else 1 to
  \<^verbatim>\<open>losses\<close>; and to \<^verbatim>\<open>bnb_won\<close>, if it won, the double nearest to
  \<open>payout * amount * 0.97 - amount\<close> cut to 7 decimals, else 0, where the payout is the
  quotient of the total amount by the amount of the winning side, rounded to 20
  decimals. The three counts are exact: a count \<open>k\<close> before the tick becomes \<open>k\<close> plus
  the number of the participant's bets, winning bets and losing bets of the round.
\<close>

theorem round_contributions:
  assumes "\<not> READ_ONLY env"
    and "getCurrentRound env (swept (keyNow env) st) = (st2, Inr P)"
    and "query_round env P 1000 0 = Some (Some r)"
    and "round_position r = Some p" and "p \<noteq> []"
    and "totalAmount r = Some stake" and "bullAmount r = Some bull" and "bearAmount r = Some bear"
    and "bull \<noteq> 0" and "bear \<noteq> 0"
    and "\<forall>b \<in> set (round_bets r). bet_amount b \<noteq> None"
  shows "snd (populateLeaderboard env st) = None \<and>
    (\<forall>d f x. d \<in> set (map dim_name dimensions) \<and> f \<in> set linear_features \<and>
        x \<in> bet_user ` set (round_bets r) \<longrightarrow>
        cellFind (keyNow env) (fst (populateLeaderboard env st)) d f x =
          Some (double_sum (previous (keyNow env) st d f x)
                  (map (contribution (Big_round 20 1 (stake / bull))
                          (Big_round 20 1 (stake / bear)) p f)
                     (filter (\<lambda>b. bet_user b = x) (round_bets r))))) \<and>
    (\<forall>b a. bet_amount b = Some a \<longrightarrow>
        contribution (Big_round 20 1 (stake / bull)) (Big_round 20 1 (stake / bear)) p
          ''amount_played'' b = 1 \<and>
        contribution (Big_round 20 1 (stake / bull)) (Big_round 20 1 (stake / bear)) p
          ''winnings'' b = (if bet_position b = p then 1 else 0) \<and>
        contribution (Big_round 20 1 (stake / bull)) (Big_round 20 1 (stake / bear)) p
          ''losses'' b = (if bet_position b = p then 0 else 1) \<and>
        contribution (Big_round 20 1 (stake / bull)) (Big_round 20 1 (stake / bear)) p
          ''bnb_won'' b =
          (if bet_position b = p
           then toNumber (truncate_decimals 7
                  (round_half_away 20 (stake / (if p = ''Bull'' then bull else bear))
                     * a * (97 / 100) - a))
           else 0)) \<and>
    (\<forall>d x k. d \<in> set (map dim_name dimensions) \<and> x \<in> bet_user ` set (round_bets r) \<and>
        previous (keyNow env) st d ''amount_played'' x = of_nat k \<and>
        k + length (filter (\<lambda>b. bet_user b = x) (round_bets r)) < 2 ^ 53 \<longrightarrow>
        cellFind (keyNow env) (fst (populateLeaderboard env st)) d ''amount_played'' x =
          Some (of_nat (k + length (filter (\<lambda>b. bet_user b = x) (round_bets r))))) \<and>
    (\<forall>d x k. d \<in> set (map dim_name dimensions) \<and> x \<in> bet_user ` set (round_bets r) \<and>
        previous (keyNow env) st d ''winnings'' x = of_nat k \<and>
        k + length (filter (\<lambda>b. bet_user b = x \<and> bet_position b = p) (round_bets r)) < 2 ^ 53 \<longrightarrow>
        cellFind (keyNow env) (fst (populateLeaderboard env st)) d ''winnings'' x =
          Some (of_nat (k + length (filter (\<lambda>b. bet_user b = x \<and> bet_position b = p)
                                      (round_bets r))))) \<and>
    (\<forall>d x k. d \<in> set (map dim_name dimensions) \<and> x \<in> bet_user ` set (round_bets r) \<and>
        previous (keyNow env) st d ''losses'' x = of_nat k \<and>
        k + length (filter (\<lambda>b. bet_user b = x \<and> bet_position b \<noteq> p) (round_bets r)) < 2 ^ 53 \<longrightarrow>
        cellFind (keyNow env) (fst (populateLeaderboard env st)) d ''losses'' x =
          Some (of_nat (k + length (filter (\<lambda>b. bet_user b = x \<and> bet_position b \<noteq> p)
                                      (round_bets r)))))"
proof (intro conjI allI impI)
  let ?bp = "Big_round 20 1 (stake / bull)" and ?brp = "Big_round 20 1 (stake / bear)"
  have w: "''world'' \<in> set (map dim_name dimensions)" by (simp add: dimensions_def)
  show "snd (populateLeaderboard env st) = None"
    by (rule round_cells(1) [OF assms w])
  have lf: "''amount_played'' \<in> set linear_features" "''winnings'' \<in> set linear_features"
    "''losses'' \<in> set linear_features"
    by (simp_all add: linear_features_def)
  have all: "\<forall>b \<in> set (round_bets r).
      contribution ?bp ?brp p ''amount_played'' b = (if True then 1 else 0) \<and>
      contribution ?bp ?brp p ''winnings'' b = (if bet_position b = p then 1 else 0) \<and>
      contribution ?bp ?brp p ''losses'' b = (if bet_position b \<noteq> p then 1 else 0)"
    using assms(11) by (auto simp: contribution_values)
  {
    fix d f x
    assume "d \<in> set (map dim_name dimensions) \<and> f \<in> set linear_features \<and>
        x \<in> bet_user ` set (round_bets r)"
    then show "cellFind (keyNow env) (fst (populateLeaderboard env st)) d f x =
          Some (double_sum (previous (keyNow env) st d f x)
                  (map (contribution ?bp ?brp p f) (filter (\<lambda>b. bet_user b = x) (round_bets r))))"
      using round_cells(2) [OF assms, of d f x] by simp
  }
  {
    fix b :: Bet and a :: rat
    assume a: "bet_amount b = Some a"
    show "contribution ?bp ?brp p ''amount_played'' b = 1"
      and "contribution ?bp ?brp p ''winnings'' b = (if bet_position b = p then 1 else 0)"
      and "contribution ?bp ?brp p ''losses'' b = (if bet_position b = p then 0 else 1)"
      by (simp_all add: contribution_values [OF a])
    show "contribution ?bp ?brp p ''bnb_won'' b =
          (if bet_position b = p
           then toNumber (truncate_decimals 7
                  (round_half_away 20 (stake / (if p = ''Bull'' then bull else bear))
                     * a * (97 / 100) - a))
           else 0)"
      unfolding contribution_values(5) [OF a] Big_round_down Big_round_half_up
      by (simp cong: if_cong)
  }
  {
    fix d x k
    assume h: "d \<in> set (map dim_name dimensions) \<and> x \<in> bet_user ` set (round_bets r) \<and>
        previous (keyNow env) st d ''amount_played'' x = of_nat k \<and>
        k + length (filter (\<lambda>b. bet_user b = x) (round_bets r)) < 2 ^ 53"
    from count_cell [OF assms, of d x "''amount_played''" "\<lambda>b. True" k] h lf(1) all
    show "cellFind (keyNow env) (fst (populateLeaderboard env st)) d ''amount_played'' x =
          Some (of_nat (k + length (filter (\<lambda>b. bet_user b = x) (round_bets r))))"
      by simp
  }
  {
    fix d x k
    assume h: "d \<in> set (map dim_name dimensions) \<and> x \<in> bet_user ` set (round_bets r) \<and>
        previous (keyNow env) st d ''winnings'' x = of_nat k \<and>
        k + length (filter (\<lambda>b. bet_user b = x \<and> bet_position b = p) (round_bets r)) < 2 ^ 53"
    from count_cell [OF assms, of d x "''winnings''" "\<lambda>b. bet_position b = p" k] h lf(2) all
    show "cellFind (keyNow env) (fst (populateLeaderboard env st)) d ''winnings'' x =
          Some (of_nat (k + length (filter (\<lambda>b. bet_user b = x \<and> bet_position b = p)
                                      (round_bets r))))"
      by simp
  }
  {
    fix d x k
    assume h: "d \<in> set (map dim_name dimensions) \<and> x \<in> bet_user ` set (round_bets r) \<and>
        previous (keyNow env) st d ''losses'' x = of_nat k \<and>
        k + length (filter (\<lambda>b. bet_user b = x \<and> bet_position b \<noteq> p) (round_bets r)) < 2 ^ 53"
    from count_cell [OF assms, of d x "''losses''" "\<lambda>b. bet_position b \<noteq> p" k] h lf(3) all
    show "cellFind (keyNow env) (fst (populateLeaderboard env st)) d ''losses'' x =
          Some (of_nat (k + length (filter (\<lambda>b. bet_user b = x \<and> bet_position b \<noteq> p)
                                      (round_bets r))))"
      by simp
  }
qed

lemma acquire_fresh:
  "getCurrentRound env (swept (keyNow env) fresh_state) =
     (emit Redis_get (swept (keyNow env) fresh_state), Inr 5)"
  by (rule acquire_present) (simp add: fresh_state_def)

lemma scenario_hyps:
  "\<not> READ_ONLY scenario_env"
  "getCurrentRound scenario_env (swept (keyNow scenario_env) fresh_state) =
     (emit Redis_get (swept (keyNow scenario_env) fresh_state), Inr 5)"
  "query_round scenario_env 5 1000 0 = Some (Some scenario_round)"
  "round_position scenario_round = Some ''Bull''" "''Bull'' \<noteq> []"
  "totalAmount scenario_round = Some 15" "bullAmount scenario_round = Some 10"
  "bearAmount scenario_round = Some 5" "(10::rat) \<noteq> 0" "(5::rat) \<noteq> 0"
  "\<forall>b \<in> set (round_bets scenario_round). bet_amount b \<noteq> None"
proof -
  show "getCurrentRound scenario_env (swept (keyNow scenario_env) fresh_state) =
     (emit Redis_get (swept (keyNow scenario_env) fresh_state), Inr 5)"
    by (rule acquire_fresh)
qed (simp_all add: scenario_env_def query_round_def scenario_round_def)

lemma thirds_bet_simps [simp]:
  "bet_user thirds_bet = ''A''" "bet_amount thirds_bet = Some 3" "bet_position thirds_bet = ''Bull''"
  by (simp_all add: thirds_bet_def)

lemma thirds_hyps:
  "\<not> READ_ONLY thirds_env"
  "getCurrentRound thirds_env (swept (keyNow thirds_env) fresh_state) =
     (emit Redis_get (swept (keyNow thirds_env) fresh_state), Inr 5)"
  "query_round thirds_env 5 1000 0 = Some (Some thirds_round)"
  "round_position thirds_round = Some ''Bull''" "''Bull'' \<noteq> []"
  "totalAmount thirds_round = Some 10" "bullAmount thirds_round = Some 3"
  "bearAmount thirds_round = Some 7" "(3::rat) \<noteq> 0" "(7::rat) \<noteq> 0"
  "\<forall>b \<in> set (round_bets thirds_round). bet_amount b \<noteq> None"
proof -
  show "getCurrentRound thirds_env (swept (keyNow thirds_env) fresh_state) =
     (emit Redis_get (swept (keyNow thirds_env) fresh_state), Inr 5)"
    by (rule acquire_fresh)
qed (simp_all add: thirds_env_def query_round_def thirds_round_def)

text \<open>
  The theorem at the scenario of the claim: bets \<open>[{A, 10, Bull}, {B, 5, Bear}]\<close>, total
  15, Bull 10, Bear 5, position Bull, from empty tables. The payout of Bull is 1.5 and
  \<open>A\<close> wins the double nearest to 4.55.
\<close>

theorem round_contributions_witness:
  "\<not> READ_ONLY scenario_env \<and>
   getCurrentRound scenario_env (swept (keyNow scenario_env) fresh_state) =
     (emit Redis_get (swept (keyNow scenario_env) fresh_state), Inr 5) \<and>
   query_round scenario_env 5 1000 0 = Some (Some scenario_round) \<and>
   round_position scenario_round = Some ''Bull'' \<and> ''Bull'' \<noteq> [] \<and>
   totalAmount scenario_round = Some 15 \<and> bullAmount scenario_round = Some 10 \<and>
   bearAmount scenario_round = Some 5 \<and> (10::rat) \<noteq> 0 \<and> (5::rat) \<noteq> 0 \<and>
   list_all (\<lambda>b. bet_amount b \<noteq> None) (round_bets scenario_round) \<and>
   round_bets scenario_round = [bet_A, bet_B] \<and>
   bet_A = \<lparr>bet_user = ''A'', bet_amount = Some 10, bet_position = ''Bull''\<rparr> \<and>
   bet_B = \<lparr>bet_user = ''B'', bet_amount = Some 5, bet_position = ''Bear''\<rparr> \<and>
   Big_new_div (totalAmount scenario_round) (bullAmount scenario_round) = Inr (3 / 2) \<and>
   snd (populateLeaderboard scenario_env fresh_state) = None \<and>
   cellFind (keyNow scenario_env) (fst (populateLeaderboard scenario_env fresh_state))
     ''world'' ''bnb_won'' ''A'' = Some (toNumber (455 / 100)) \<and>
   cellFind (keyNow scenario_env) (fst (populateLeaderboard scenario_env fresh_state))
     ''world'' ''bnb_won'' ''B'' = Some 0 \<and>
   cellFind (keyNow scenario_env) (fst (populateLeaderboard scenario_env fresh_state))
     ''world'' ''winnings'' ''A'' = Some 1 \<and>
   cellFind (keyNow scenario_env) (fst (populateLeaderboard scenario_env fresh_state))
     ''world'' ''losses'' ''A'' = Some 0 \<and>
   cellFind (keyNow scenario_env) (fst (populateLeaderboard scenario_env fresh_state))
     ''world'' ''winnings'' ''B'' = Some 0 \<and>
   cellFind (keyNow scenario_env) (fst (populateLeaderboard scenario_env fresh_state))
     ''world'' ''losses'' ''B'' = Some 1 \<and>
   cellFind (keyNow scenario_env) (fst (populateLeaderboard scenario_env fresh_state))
     ''world'' ''amount_played'' ''A'' = Some 1"
proof -
  note th = round_contributions [OF scenario_hyps]
  note cell = th [THEN conjunct2, THEN conjunct1, rule_format, OF conjI [OF _ conjI]]
  note contrib = th [THEN conjunct2, THEN conjunct2, THEN conjunct1, rule_format]
  note played = th [THEN conjunct2, THEN conjunct2, THEN conjunct2, THEN conjunct1, rule_format,
      of "''world''" _ 0]
  note won = th [THEN conjunct2, THEN conjunct2, THEN conjunct2, THEN conjunct2, THEN conjunct1,
      rule_format, of "''world''" _ 0]
  note lost = th [THEN conjunct2, THEN conjunct2, THEN conjunct2, THEN conjunct2, THEN conjunct2,
      rule_format, of "''world''" _ 0]
  have bets: "round_bets scenario_round = [bet_A, bet_B]" by (simp add: scenario_round_def)
  note cA = contrib [OF bet_A_simps(2)] and cB = contrib [OF bet_B_simps(2)]
  have d: "''world'' \<in> set (map dim_name dimensions)" by simp
  have users: "''A'' \<in> bet_user ` set (round_bets scenario_round)"
    "''B'' \<in> bet_user ` set (round_bets scenario_round)"
    by (simp_all add: bets)
  have f: "''bnb_won'' \<in> set linear_features" by (simp add: linear_features_def)
  have div: "Big_new_div (totalAmount scenario_round) (bullAmount scenario_round) = Inr (3 / 2)"
    by (simp add: scenario_round_def Big_new_div_Some Big_eval)
  have 1: "cellFind (keyNow scenario_env) (fst (populateLeaderboard scenario_env fresh_state))
     ''world'' ''bnb_won'' ''A'' = Some (toNumber (455 / 100))"
  proof -
    have c: "contribution (Big_round 20 1 (15 / 10)) (Big_round 20 1 (15 / 5)) ''Bull''
        ''bnb_won'' bet_A = toNumber (455 / 100)"
      using cA by (simp add: Big_eval)
    have v: "toNumber (0 + toNumber (455 / 100)) = toNumber (455 / 100)"
      by (simp add: toNumber_eval)
    show ?thesis
      unfolding cell [OF d f users(1)] bets
      using c v by simp
  qed
  have 2: "cellFind (keyNow scenario_env) (fst (populateLeaderboard scenario_env fresh_state))
     ''world'' ''bnb_won'' ''B'' = Some 0"
    unfolding cell [OF d f users(2)] bets
    using cB by simp
  have 3: "cellFind (keyNow scenario_env) (fst (populateLeaderboard scenario_env fresh_state))
     ''world'' ''winnings'' ''A'' = Some 1"
    using won [of "''A''"] users(1) by (simp add: bets)
  have 4: "cellFind (keyNow scenario_env) (fst (populateLeaderboard scenario_env fresh_state))
     ''world'' ''losses'' ''A'' = Some 0"
    using lost [of "''A''"] users(1) by (simp add: bets)
  have 5: "cellFind (keyNow scenario_env) (fst (populateLeaderboard scenario_env fresh_state))
     ''world'' ''winnings'' ''B'' = Some 0"
    using won [of "''B''"] users(2) by (simp add: bets)
  have 6: "cellFind (keyNow scenario_env) (fst (populateLeaderboard scenario_env fresh_state))
     ''world'' ''losses'' ''B'' = Some 1"
    using lost [of "''B''"] users(2) by (simp add: bets)
  have 7: "cellFind (keyNow scenario_env) (fst (populateLeaderboard scenario_env fresh_state))
     ''world'' ''amount_played'' ''A'' = Some 1"
    using played [of "''A''"] users(1) by (simp add: bets)
  have all: "list_all (\<lambda>b. bet_amount b \<noteq> None) (round_bets scenario_round)"
    by (simp add: bets)
  from scenario_hyps(1-10) all bets bet_A_def bet_B_def div th [THEN conjunct1] 1 2 3 4 5 6 7
  show ?thesis by blast
qed

text \<open>
  Claim C6 as stated fails in its general part. In a round of total 10 with 3 on Bull,
  a winning bet of 3 should win \<open>(10 / 3) * 3 * 0.97 - 3 = 6.7\<close>, which no rounding to
  7 decimals changes. The tick divides first, to 3.33333333333333333333, and cuts the
  result 6.6999999999999999999903 to 6.6999999: the score stored is another double.
\<close>

theorem payout_is_rounded_then_cut:
  "round_bets thirds_round = [thirds_bet] \<and>
   bet_user thirds_bet = ''A'' \<and> bet_amount thirds_bet = Some 3 \<and>
   bet_position thirds_bet = ''Bull'' \<and>
   round_position thirds_round = Some ''Bull'' \<and>
   totalAmount thirds_round = Some 10 \<and> bullAmount thirds_round = Some 3 \<and>
   bearAmount thirds_round = Some 7 \<and>
   Big_new_div (totalAmount thirds_round) (bullAmount thirds_round) =
     Inr (333333333333333333333 / 10 ^ 20) \<and>
   snd (populateLeaderboard thirds_env fresh_state) = None \<and>
   cellFind (keyNow thirds_env) (fst (populateLeaderboard thirds_env fresh_state))
     ''world'' ''bnb_won'' ''A'' = Some (toNumber (66999999 / 10 ^ 7)) \<and>
   (10 / 3 :: rat) * 3 * (1 - 3 / 100) - 3 = 67 / 10 \<and>
   round_half_away 7 (67 / 10) = 67 / 10 \<and>
   toNumber (66999999 / 10 ^ 7) \<noteq> toNumber (67 / 10)"
proof -
  have bets: "round_bets thirds_round = [thirds_bet]" by (simp add: thirds_round_def)
  have div: "Big_new_div (totalAmount thirds_round) (bullAmount thirds_round) =
     Inr (333333333333333333333 / 10 ^ 20)"
    by (simp add: thirds_round_def Big_new_div_Some Big_eval)
  have d: "''world'' \<in> set (map dim_name dimensions)" by simp
  have f: "''bnb_won'' \<in> set linear_features" by (simp add: linear_features_def)
  have cell: "cellFind (keyNow thirds_env) (fst (populateLeaderboard thirds_env fresh_state))
     ''world'' ''bnb_won'' ''A'' = Some (toNumber (66999999 / 10 ^ 7))"
    unfolding round_cells(2) [OF thirds_hyps d f, of "''A''"]
    by (simp add: bets contribution_values(5) [OF thirds_bet_simps(2)] Big_eval)
       (simp add: toNumber_eval)
  have ar: "(10 / 3 :: rat) * 3 * (1 - 3 / 100) - 3 = 67 / 10"
    "round_half_away 7 (67 / 10) = 67 / 10"
    by (simp_all add: round_half_away_def)
  have ne: "toNumber (66999999 / 10 ^ 7) \<noteq> toNumber (67 / 10)"
    by (simp add: toNumber_eval)
  from bets thirds_bet_simps thirds_hyps(4,6,7,8) div round_cells(1) [OF thirds_hyps d] cell ar ne
  show ?thesis by blast
qed

lemma single_win_hyps:
  "\<not> READ_ONLY single_win_env"
  "query_round single_win_env 5 1000 0 = Some (Some single_win_round)"
  "round_position single_win_round = Some ''Bull''" "''Bull'' \<noteq> []"
  "totalAmount single_win_round = Some 15" "bullAmount single_win_round = Some 10"
  "bearAmount single_win_round = Some 5" "(10::rat) \<noteq> 0" "(5::rat) \<noteq> 0"
  "\<forall>b \<in> set (round_bets single_win_round). bet_amount b \<noteq> None"
  by (simp_all add: single_win_env_def query_round_def single_win_round_def)

lemma single_win_bets: "round_bets single_win_round = [bet_A]"
  by (simp add: single_win_round_def)

lemma key_single_win [simp]: "keyNow single_win_env = (\<lambda>c. ''h2'')"
  by (simp add: single_win_env_def)

lemma played_state_cells:
  "currentRound played_state = Some 5"
  "cellFind (\<lambda>c. ''h2'') played_state ''best-hour'' ''winnings'' ''A'' = Some 1"
  "cellFind (\<lambda>c. ''h2'') played_state ''best-hour'' ''amount_played'' ''A'' = Some 2"
  "cellFind (\<lambda>c. ''h2'') played_state ''best-hour'' ''total_bet'' ''A'' = Some 10"
  "cellFind (\<lambda>c. ''h2'') played_state ''world'' ''winnings'' ''A'' = Some 1"
  "cellFind (\<lambda>c. ''h2'') played_state ''world'' ''amount_played'' ''A'' = Some 2"
  "cellFind (\<lambda>c. ''h2'') played_state ''world'' ''total_bet'' ''A'' = Some 10"
  by (simp_all add: played_state_def cellFind_def cellTable_def getRawLeaderboard_def
        dimensions_def features_def getLeaderboardAt_def)

lemma single_win_user: "''A'' \<in> bet_user ` set (round_bets single_win_round)"
  by (simp add: single_win_bets)

lemma ratio_of_itself:
  "toNumber (Big_round 3 0 (Big_round 20 1 (Big_number w / Big_number (num_or w 1)))) =
     (if w = 0 then 0 else 1)"
proof (cases "w = 0")
  case True
  then have q: "Big_number w / Big_number (num_or w 1) = 0"
    by (simp add: Big_number_def Number_toString_def)
  show ?thesis unfolding q using True by (simp add: Big_eval)
next
  case False
  then have q: "Big_number w / Big_number (num_or w 1) = 1" by (simp add: num_or_def)
  show ?thesis unfolding q using False by (simp add: Big_eval toNumber_numeral)
qed

text \<open>
  The tick of the example used below: the participant \<open>A\<close> has won 1 of 2 plays and
  bet 10 in all, in the total ranking and in the current hour; the round holds one more
  bet of \<open>A\<close>, of 10 on the winning side. After the linear update the scores are 2 wins,
  3 plays and 20 bet.
\<close>

lemma played_tick_linear:
  assumes "d \<in> {''world'', ''best-hour''}"
  shows "cellFind (\<lambda>c. ''h2'') (fst (populateLeaderboard single_win_env played_state))
           d ''winnings'' ''A'' = Some 2"
    and "cellFind (\<lambda>c. ''h2'') (fst (populateLeaderboard single_win_env played_state))
           d ''amount_played'' ''A'' = Some 3"
    and "cellFind (\<lambda>c. ''h2'') (fst (populateLeaderboard single_win_env played_state))
           d ''total_bet'' ''A'' = Some 20"
proof -
  have d: "d \<in> set (map dim_name dimensions)"
    using assms by (auto simp: dimensions_def)
  have f: "''winnings'' \<in> set linear_features" "''amount_played'' \<in> set linear_features"
    "''total_bet'' \<in> set linear_features"
    by (simp_all add: linear_features_def)
  note cell = tick_cells(2) [OF single_win_hyps(1) played_state_cells(1) single_win_hyps(2-10) d,
      of _ "''A''", unfolded key_single_win]
  have prev: "previous (\<lambda>c. ''h2'') played_state d ''winnings'' ''A'' = 1"
    "previous (\<lambda>c. ''h2'') played_state d ''amount_played'' ''A'' = 2"
    "previous (\<lambda>c. ''h2'') played_state d ''total_bet'' ''A'' = 10"
    using assms by (auto simp: previous_def played_state_cells)
  show "cellFind (\<lambda>c. ''h2'') (fst (populateLeaderboard single_win_env played_state))
           d ''winnings'' ''A'' = Some 2"
    using cell [OF f(1)]
    by (simp add: single_win_bets prev contribution_values(3) [OF bet_A_simps(2)] toNumber_numeral)
  show "cellFind (\<lambda>c. ''h2'') (fst (populateLeaderboard single_win_env played_state))
           d ''amount_played'' ''A'' = Some 3"
    using cell [OF f(2)]
    by (simp add: single_win_bets prev contribution_values(1) [OF bet_A_simps(2)] toNumber_numeral)
  show "cellFind (\<lambda>c. ''h2'') (fst (populateLeaderboard single_win_env played_state))
           d ''total_bet'' ''A'' = Some 20"
    using cell [OF f(3)]
    by (simp add: single_win_bets prev contribution_values(2) [OF bet_A_simps(2)] Big_eval
          toNumber_numeral)
qed

section \<open>The ratios of the total ranking\<close>

text \<open>
  Claim C2 fails in the code for the dimension \<^verbatim>\<open>world\<close>: there the three reads of the
  derived step are all made on the \<^verbatim>\<open>winnings\<close> table, so both ratios are the
  participant's number of wins divided by itself. In a tick that processes a ready
  round, \<^verbatim>\<open>winrate\<close> and \<^verbatim>\<open>avg_bet\<close> of every participant of the round in \<^verbatim>\<open>world\<close> are
  1 when the participant has a win, 0 otherwise, whatever was played and bet.
\<close>

theorem world_ratios_read_winnings:
  assumes "\<not> READ_ONLY env" and "currentRound st = Some P"
    and "query_round env P 1000 0 = Some (Some r)"
    and "round_position r = Some p" and "p \<noteq> []"
    and "totalAmount r = Some stake" and "bullAmount r = Some bull" and "bearAmount r = Some bear"
    and "bull \<noteq> 0" and "bear \<noteq> 0"
    and "\<forall>b \<in> set (round_bets r). bet_amount b \<noteq> None"
    and "x \<in> bet_user ` set (round_bets r)"
  shows
    "cellFind (keyNow env) (fst (populateLeaderboard env st)) ''world'' ''winrate'' x =
       Some (if score_or (cellFind (keyNow env) (fst (populateLeaderboard env st))
                            ''world'' ''winnings'' x) 0 = 0 then 0 else 1) \<and>
     cellFind (keyNow env) (fst (populateLeaderboard env st)) ''world'' ''avg_bet'' x =
       Some (if score_or (cellFind (keyNow env) (fst (populateLeaderboard env st))
                            ''world'' ''winnings'' x) 0 = 0 then 0 else 1)"
proof -
  have d: "''world'' \<in> set (map dim_name dimensions)" by (simp add: dimensions_def)
  note cells = tick_cells(3,4) [OF assms(1-11) d]
  have wr: "derived_winrate kn s ''world'' x =
            (if score_or (cellFind kn s ''world'' ''winnings'' x) 0 = 0 then 0 else 1)" for kn s
    unfolding derived_winrate_def Let_def by (simp only: simp_thms if_True ratio_of_itself)
  have ab: "derived_avg_bet kn s ''world'' x =
            (if score_or (cellFind kn s ''world'' ''winnings'' x) 0 = 0 then 0 else 1)" for kn s
    unfolding derived_avg_bet_def Let_def by (simp only: simp_thms if_True ratio_of_itself)
  show ?thesis
    unfolding cells wr ab using assms(12) by simp
qed

text \<open>
  The theorem at a concrete tick: in \<^verbatim>\<open>world\<close> the participant \<open>A\<close> has 1 win in 2
  plays and 10 bet, and wins a bet of 10 in the round. After the tick the scores are 2
  wins, 3 plays and 20 bet, and both ratios are 1: neither 2/3 and 20/3, the ratios of the
  scores after the round, nor 1/2 and 5, those of the scores before it.
\<close>

theorem world_ratios_read_winnings_witness:
  "\<not> READ_ONLY single_win_env \<and> currentRound played_state = Some 5 \<and>
   query_round single_win_env 5 1000 0 = Some (Some single_win_round) \<and>
   round_position single_win_round = Some ''Bull'' \<and> ''Bull'' \<noteq> [] \<and>
   totalAmount single_win_round = Some 15 \<and> bullAmount single_win_round = Some 10 \<and>
   bearAmount single_win_round = Some 5 \<and> (10::rat) \<noteq> 0 \<and> (5::rat) \<noteq> 0 \<and>
   list_all (\<lambda>b. bet_amount b \<noteq> None) (round_bets single_win_round) \<and>
   ''A'' \<in> bet_user ` set (round_bets single_win_round) \<and>
   round_bets single_win_round = [bet_A] \<and>
   cellFind (keyNow single_win_env) played_state ''world'' ''winnings'' ''A'' = Some 1 \<and>
   cellFind (keyNow single_win_env) played_state ''world'' ''amount_played'' ''A'' = Some 2 \<and>
   cellFind (keyNow single_win_env) played_state ''world'' ''total_bet'' ''A'' = Some 10 \<and>
   cellFind (keyNow single_win_env) (fst (populateLeaderboard single_win_env played_state))
     ''world'' ''winnings'' ''A'' = Some 2 \<and>
   cellFind (keyNow single_win_env) (fst (populateLeaderboard single_win_env played_state))
     ''world'' ''amount_played'' ''A'' = Some 3 \<and>
   cellFind (keyNow single_win_env) (fst (populateLeaderboard single_win_env played_state))
     ''world'' ''total_bet'' ''A'' = Some 20 \<and>
   cellFind (keyNow single_win_env) (fst (populateLeaderboard single_win_env played_state))
     ''world'' ''winrate'' ''A'' = Some 1 \<and>
   cellFind (keyNow single_win_env) (fst (populateLeaderboard single_win_env played_state))
     ''world'' ''avg_bet'' ''A'' = Some 1"
proof -
  note th = world_ratios_read_winnings [OF single_win_hyps(1) played_state_cells(1)
      single_win_hyps(2-10) single_win_user, unfolded key_single_win]
  note lin = played_tick_linear [of "''world''", simplified]
  have 1: "cellFind (\<lambda>c. ''h2'') (fst (populateLeaderboard single_win_env played_state))
     ''world'' ''winrate'' ''A'' = Some 1"
    using th [THEN conjunct1] unfolding lin by (simp add: score_or_def)
  have 2: "cellFind (\<lambda>c. ''h2'') (fst (populateLeaderboard single_win_env played_state))
     ''world'' ''avg_bet'' ''A'' = Some 1"
    using th [THEN conjunct2] unfolding lin by (simp add: score_or_def)
  have all: "list_all (\<lambda>b. bet_amount b \<noteq> None) (round_bets single_win_round)"
    by (simp add: single_win_bets)
  from single_win_hyps(1) played_state_cells(1) single_win_hyps(2-9) all
    single_win_user single_win_bets played_state_cells(5-7) lin 1 2
  show ?thesis unfolding key_single_win by blast
qed

lemma cycle_of_dim:
  assumes "cycle_of d = Some c"
  shows "d \<in> set (map dim_name dimensions)" and "d \<noteq> ''world''"
  using cycle_of_cases [OF assms] by (auto simp: dimensions_def)

lemma Big_number_small:
  "Big_number 1 = 1" "Big_number 2 = 2" "Big_number 3 = 3" "Big_number 10 = 10"
  "Big_number 20 = 20"
  by (simp_all add: Big_number_eval)

lemma ratio_values:
  "toNumber (Big_round 3 0 (Big_round 20 1 (Big_number 2 / Big_number 3))) = toNumber (666 / 1000)"
  "toNumber (Big_round 3 0 (Big_round 20 1 (Big_number 20 / Big_number 3))) = toNumber (6666 / 1000)"
  "toNumber (Big_round 3 0 (Big_round 20 1 (Big_number 1 / Big_number 2))) = 1 / 2"
  "toNumber (Big_round 3 0 (Big_round 20 1 (Big_number 10 / Big_number 2))) = 5"
  "toNumber (666 / 1000) \<noteq> 1 / 2" "toNumber (6666 / 1000) \<noteq> 5"
proof -
  show "toNumber (Big_round 3 0 (Big_round 20 1 (Big_number 2 / Big_number 3))) = toNumber (666 / 1000)"
    "toNumber (Big_round 3 0 (Big_round 20 1 (Big_number 20 / Big_number 3))) = toNumber (6666 / 1000)"
    unfolding Big_number_small by (simp_all add: Big_eval)
  show "toNumber (Big_round 3 0 (Big_round 20 1 (Big_number 1 / Big_number 2))) = 1 / 2"
    unfolding Big_number_small by (simp add: Big_eval) (simp add: toNumber_eval)
  show "toNumber (Big_round 3 0 (Big_round 20 1 (Big_number 10 / Big_number 2))) = 5"
    unfolding Big_number_small by (simp add: Big_eval toNumber_numeral)
  show "toNumber (666 / 1000) \<noteq> 1 / 2" "toNumber (6666 / 1000) \<noteq> 5"
    by (simp_all add: toNumber_eval)
qed

section \<open>The derived metrics read the updated scores\<close>

text \<open>
  Claim C1, as amended. In a tick that processes a ready round, whether its pointer was
  found or seeded, for every dimension with a cycle and every participant of the round,
  \<^verbatim>\<open>winrate\<close> and \<^verbatim>\<open>avg_bet\<close> are computed from the participant's \<^verbatim>\<open>winnings\<close>,
  \<^verbatim>\<open>total_bet\<close> and \<^verbatim>\<open>amount_played\<close> scores of that dimension as they are after this
  round's linear updates: the tick awaits the linear update before it reads. The scores
  read are the scores of the state the tick ends in: the score before the tick with the
  contributions of the participant's bets of this round added. Each ratio is the
  quotient of the two scores read as decimals, rounded to 20 decimals, cut to 3 and
  stored as a double. The dimension without a cycle is left out here.
\<close>

theorem derived_metrics_after_linear:
  assumes "\<not> READ_ONLY env"
    and "getCurrentRound env (swept (keyNow env) st) = (st2, Inr P)"
    and "query_round env P 1000 0 = Some (Some r)"
    and "round_position r = Some p" and "p \<noteq> []"
    and "totalAmount r = Some stake" and "bullAmount r = Some bull" and "bearAmount r = Some bear"
    and "bull \<noteq> 0" and "bear \<noteq> 0"
    and "\<forall>b \<in> set (round_bets r). bet_amount b \<noteq> None"
    and "cycle_of d = Some c" and "x \<in> bet_user ` set (round_bets r)"
  shows
    "(\<forall>f \<in> {''winnings'', ''amount_played'', ''total_bet''}.
        cellFind (keyNow env) (fst (populateLeaderboard env st)) d f x =
          Some (double_sum (previous (keyNow env) st d f x)
                  (map (contribution (Big_round 20 1 (stake / bull))
                          (Big_round 20 1 (stake / bear)) p f)
                     (filter (\<lambda>b. bet_user b = x) (round_bets r))))) \<and>
     cellFind (keyNow env) (fst (populateLeaderboard env st)) d ''winrate'' x =
       Some (toNumber (Big_round 3 0 (Big_round 20 1
         (Big_number (score_or (cellFind (keyNow env) (fst (populateLeaderboard env st)) d
                                  ''winnings'' x) 0)
          / Big_number (num_or (score_or (cellFind (keyNow env) (fst (populateLeaderboard env st)) d
                                            ''amount_played'' x) 0) 1))))) \<and>
     cellFind (keyNow env) (fst (populateLeaderboard env st)) d ''avg_bet'' x =
       Some (toNumber (Big_round 3 0 (Big_round 20 1
         (Big_number (score_or (cellFind (keyNow env) (fst (populateLeaderboard env st)) d
                                  ''total_bet'' x) 0)
          / Big_number (num_or (score_or (cellFind (keyNow env) (fst (populateLeaderboard env st)) d
                                            ''amount_played'' x) 0) 1)))))"
proof -
  note d = cycle_of_dim [OF assms(12)]
  note cells = round_cells [OF assms(1-11) d(1)]
  have lin: "cellFind (keyNow env) (fst (populateLeaderboard env st)) d f x =
          Some (double_sum (previous (keyNow env) st d f x)
                  (map (contribution (Big_round 20 1 (stake / bull))
                          (Big_round 20 1 (stake / bear)) p f)
                     (filter (\<lambda>b. bet_user b = x) (round_bets r))))"
    if "f \<in> {''winnings'', ''amount_played'', ''total_bet''}" for f
  proof -
    from that have "f \<in> set linear_features" by (auto simp: linear_features_def)
    from cells(2) [OF this, of x] assms(13) show ?thesis by simp
  qed
  have wr: "cellFind (keyNow env) (fst (populateLeaderboard env st)) d ''winrate'' x =
       Some (toNumber (Big_round 3 0 (Big_round 20 1
         (Big_number (score_or (cellFind (keyNow env) (fst (populateLeaderboard env st)) d
                                  ''winnings'' x) 0)
          / Big_number (num_or (score_or (cellFind (keyNow env) (fst (populateLeaderboard env st)) d
                                            ''amount_played'' x) 0) 1)))))"
    unfolding cells(3) using assms(13) d(2)
    by (simp add: derived_winrate_def Let_def)
  have ab: "cellFind (keyNow env) (fst (populateLeaderboard env st)) d ''avg_bet'' x =
       Some (toNumber (Big_round 3 0 (Big_round 20 1
         (Big_number (score_or (cellFind (keyNow env) (fst (populateLeaderboard env st)) d
                                  ''total_bet'' x) 0)
          / Big_number (num_or (score_or (cellFind (keyNow env) (fst (populateLeaderboard env st)) d
                                            ''amount_played'' x) 0) 1)))))"
    unfolding cells(4) using assms(13) d(2)
    by (simp add: derived_avg_bet_def Let_def)
  from lin wr ab show ?thesis by blast
qed

lemma unseeded_cells:
  "currentRound unseeded_state = None"
  "cellFind kn unseeded_state d f x = cellFind kn played_state d f x"
  "previous kn unseeded_state d f x = previous kn played_state d f x"
proof -
  show "currentRound unseeded_state = None" by (simp add: unseeded_state_def)
  have "cellTable kn unseeded_state d f = cellTable kn played_state d f"
    by (rule cellTable_cong) (simp_all add: unseeded_state_def)
  then show "cellFind kn unseeded_state d f x = cellFind kn played_state d f x"
    "previous kn unseeded_state d f x = previous kn played_state d f x"
    by (simp_all add: cellFind_def previous_def)
qed

lemma played_previous:
  "previous (\<lambda>c. ''h2'') played_state ''best-hour'' ''winnings'' ''A'' = 1"
  "previous (\<lambda>c. ''h2'') played_state ''best-hour'' ''amount_played'' ''A'' = 2"
  "previous (\<lambda>c. ''h2'') played_state ''best-hour'' ''total_bet'' ''A'' = 10"
  by (simp_all add: previous_def played_state_cells)

lemma key_seeding [simp]: "keyNow seeding_env = (\<lambda>c. ''h2'')"
  by (simp add: seeding_env_def)

lemma query_seeding:
  "query_rounds seeding_env 10 = Some [\<lparr>epoch = 6, closeBlock = 60\<rparr>, \<lparr>epoch = 5, closeBlock = 50\<rparr>]"
  by (simp add: query_rounds_def seeding_env_def)

lemma seeding_hyps:
  "\<not> READ_ONLY seeding_env"
  "getCurrentRound seeding_env (swept (keyNow seeding_env) unseeded_state) =
     (setCurrentRound 5
        (emit (Query_rounds 10) (emit Redis_get (swept (keyNow seeding_env) unseeded_state))),
      Inr 5)"
  "query_round seeding_env 5 1000 0 = Some (Some single_win_round)"
  "round_position single_win_round = Some ''Bull''" "''Bull'' \<noteq> []"
  "totalAmount single_win_round = Some 15" "bullAmount single_win_round = Some 10"
  "bearAmount single_win_round = Some 5" "(10::rat) \<noteq> 0" "(5::rat) \<noteq> 0"
  "\<forall>b \<in> set (round_bets single_win_round). bet_amount b \<noteq> None"
proof -
  show "getCurrentRound seeding_env (swept (keyNow seeding_env) unseeded_state) =
     (setCurrentRound 5
        (emit (Query_rounds 10) (emit Redis_get (swept (keyNow seeding_env) unseeded_state))),
      Inr 5)"
    using acquire_seed [OF unseeded_cells(1) query_seeding] by simp
qed (simp_all add: seeding_env_def query_round_def single_win_round_def)

text \<open>
  The theorem at a tick that seeds its pointer: no pointer is stored, the subgraph knows
  the finalized rounds 6 and 5, and round 5 is processed. \<open>A\<close> has 1 win in 2 plays and
  10 bet in the current hour, and wins a bet of 10 in the round. The ratios are those of
  2 wins in 3 plays and 20 bet, cut to 0.666 and 6.666.
\<close>

theorem derived_metrics_after_linear_witness:
  "\<not> READ_ONLY seeding_env \<and> currentRound unseeded_state = None \<and>
   query_rounds seeding_env 10 =
     Some [\<lparr>epoch = 6, closeBlock = 60\<rparr>, \<lparr>epoch = 5, closeBlock = 50\<rparr>] \<and>
   getCurrentRound seeding_env (swept (keyNow seeding_env) unseeded_state) =
     (setCurrentRound 5
        (emit (Query_rounds 10) (emit Redis_get (swept (keyNow seeding_env) unseeded_state))),
      Inr 5) \<and>
   query_round seeding_env 5 1000 0 = Some (Some single_win_round) \<and>
   round_position single_win_round = Some ''Bull'' \<and> ''Bull'' \<noteq> [] \<and>
   totalAmount single_win_round = Some 15 \<and> bullAmount single_win_round = Some 10 \<and>
   bearAmount single_win_round = Some 5 \<and> (10::rat) \<noteq> 0 \<and> (5::rat) \<noteq> 0 \<and>
   list_all (\<lambda>b. bet_amount b \<noteq> None) (round_bets single_win_round) \<and>
   cycle_of ''best-hour'' = Some hourly \<and>
   ''A'' \<in> bet_user ` set (round_bets single_win_round) \<and>
   round_bets single_win_round = [bet_A] \<and>
   previous (keyNow seeding_env) unseeded_state ''best-hour'' ''winnings'' ''A'' = 1 \<and>
   previous (keyNow seeding_env) unseeded_state ''best-hour'' ''amount_played'' ''A'' = 2 \<and>
   previous (keyNow seeding_env) unseeded_state ''best-hour'' ''total_bet'' ''A'' = 10 \<and>
   cellFind (keyNow seeding_env) (fst (populateLeaderboard seeding_env unseeded_state))
     ''best-hour'' ''winnings'' ''A'' = Some 2 \<and>
   cellFind (keyNow seeding_env) (fst (populateLeaderboard seeding_env unseeded_state))
     ''best-hour'' ''amount_played'' ''A'' = Some 3 \<and>
   cellFind (keyNow seeding_env) (fst (populateLeaderboard seeding_env unseeded_state))
     ''best-hour'' ''total_bet'' ''A'' = Some 20 \<and>
   cellFind (keyNow seeding_env) (fst (populateLeaderboard seeding_env unseeded_state))
     ''best-hour'' ''winrate'' ''A'' = Some (toNumber (666 / 1000)) \<and>
   cellFind (keyNow seeding_env) (fst (populateLeaderboard seeding_env unseeded_state))
     ''best-hour'' ''avg_bet'' ''A'' = Some (toNumber (6666 / 1000))"
proof -
  note th = derived_metrics_after_linear [OF seeding_hyps cycle_of_simps(4) single_win_user,
      unfolded key_seeding]
  note prev = played_previous [folded unseeded_cells(3) [of "\<lambda>c. ''h2''"]]
  note lin = th [THEN conjunct1, THEN bspec]
  have 1: "cellFind (\<lambda>c. ''h2'') (fst (populateLeaderboard seeding_env unseeded_state))
     ''best-hour'' ''winnings'' ''A'' = Some 2"
    using lin [of "''winnings''"]
    by (simp add: single_win_bets prev contribution_values(3) [OF bet_A_simps(2)] toNumber_numeral)
  have 2: "cellFind (\<lambda>c. ''h2'') (fst (populateLeaderboard seeding_env unseeded_state))
     ''best-hour'' ''amount_played'' ''A'' = Some 3"
    using lin [of "''amount_played''"]
    by (simp add: single_win_bets prev contribution_values(1) [OF bet_A_simps(2)] toNumber_numeral)
  have 3: "cellFind (\<lambda>c. ''h2'') (fst (populateLeaderboard seeding_env unseeded_state))
     ''best-hour'' ''total_bet'' ''A'' = Some 20"
    using lin [of "''total_bet''"]
    by (simp add: single_win_bets prev contribution_values(2) [OF bet_A_simps(2)] Big_eval
          toNumber_numeral)
  have 4: "cellFind (\<lambda>c. ''h2'') (fst (populateLeaderboard seeding_env unseeded_state))
     ''best-hour'' ''winrate'' ''A'' = Some (toNumber (666 / 1000))"
    using th [THEN conjunct2, THEN conjunct1] ratio_values(1)
    unfolding 1 2 3
    by (simp add: score_or_def num_or_def)
  have 5: "cellFind (\<lambda>c. ''h2'') (fst (populateLeaderboard seeding_env unseeded_state))
     ''best-hour'' ''avg_bet'' ''A'' = Some (toNumber (6666 / 1000))"
    using th [THEN conjunct2, THEN conjunct2] ratio_values(2)
    unfolding 1 2 3
    by (simp add: score_or_def num_or_def)
  have all: "list_all (\<lambda>b. bet_amount b \<noteq> None) (round_bets single_win_round)"
    by (simp add: single_win_bets)
  from seeding_hyps(1) unseeded_cells(1) query_seeding seeding_hyps(2-10) all cycle_of_simps(4)
    single_win_user single_win_bets prev 1 2 3 4 5
  show ?thesis unfolding key_seeding by blast
qed

text \<open>
  Claim C1 as stated fails. Before the tick \<open>A\<close> has 1 win in 2 plays and 10 bet in the
  current hour, so the ratios of the scores before the round are 0.5 and 5; the round
  adds a winning bet of 10, and the tick sets \<^verbatim>\<open>winrate\<close> to the double of 0.666 and
  \<^verbatim>\<open>avg_bet\<close> to the double of 6.666, the ratios of 2 wins in 3 plays and 20 bet.
\<close>

theorem derived_metrics_see_this_round:
  "currentRound played_state = Some 5 \<and>
   cellFind (keyNow single_win_env) played_state ''best-hour'' ''winnings'' ''A'' = Some 1 \<and>
   cellFind (keyNow single_win_env) played_state ''best-hour'' ''amount_played'' ''A'' = Some 2 \<and>
   cellFind (keyNow single_win_env) played_state ''best-hour'' ''total_bet'' ''A'' = Some 10 \<and>
   toNumber (Big_round 3 0 (Big_round 20 1 (Big_number 1 / Big_number 2))) = 1 / 2 \<and>
   toNumber (Big_round 3 0 (Big_round 20 1 (Big_number 10 / Big_number 2))) = 5 \<and>
   round_bets single_win_round = [bet_A] \<and>
   snd (populateLeaderboard single_win_env played_state) = None \<and>
   cellFind (keyNow single_win_env) (fst (populateLeaderboard single_win_env played_state))
     ''best-hour'' ''winrate'' ''A'' = Some (toNumber (666 / 1000)) \<and>
   cellFind (keyNow single_win_env) (fst (populateLeaderboard single_win_env played_state))
     ''best-hour'' ''avg_bet'' ''A'' = Some (toNumber (6666 / 1000)) \<and>
   toNumber (666 / 1000) \<noteq> 1 / 2 \<and> toNumber (6666 / 1000) \<noteq> 5"
proof -
  have d: "''best-hour'' \<in> set (map dim_name dimensions)" by (simp add: dimensions_def)
  note cells = tick_cells [OF single_win_hyps(1) played_state_cells(1) single_win_hyps(2-10) d,
      unfolded key_single_win]
  note lin = played_tick_linear [of "''best-hour''", simplified]
  have wr: "cellFind (\<lambda>c. ''h2'') (fst (populateLeaderboard single_win_env played_state))
     ''best-hour'' ''winrate'' ''A'' = Some (toNumber (666 / 1000))"
    using ratio_values(1)
    unfolding cells(3) derived_winrate_def Let_def
    by (simp add: single_win_bets lin score_or_def num_or_def)
  have ab: "cellFind (\<lambda>c. ''h2'') (fst (populateLeaderboard single_win_env played_state))
     ''best-hour'' ''avg_bet'' ''A'' = Some (toNumber (6666 / 1000))"
    using ratio_values(2)
    unfolding cells(4) derived_avg_bet_def Let_def
    by (simp add: single_win_bets lin score_or_def num_or_def)
  from played_state_cells(1-4) ratio_values(3,4) single_win_bets cells(1) wr ab ratio_values(5,6)
  show ?thesis unfolding key_single_win by blast
qed

end
